(* ===== verification/Py_Prelude.thy ===== *)
theory Py_Prelude
  imports Main "HOL-Library.Sublist" "HOL-Library.Char_ord"
begin

text \<open>
  What the linter uses of Python itself: exceptions as values, the methods of \<open>str\<close> and
  \<open>list\<close> it calls, and decimal output. A Python \<open>str\<close> is a \<open>string\<close> of HOL, whose
  characters are the code points 0 to 255; the character classes below are those of CPython 3
  on that range. A Python \<open>int\<close> is an \<open>int\<close>, positions and lengths that cannot be negative
  are \<open>nat\<close>.
\<close>

named_theorems py_simps \<open>unfolding rules for the Python primitives\<close>
named_theorems frame_simps \<open>what an operation leaves unchanged\<close>
named_theorems rx_code \<open>the syntax trees the literal patterns compile to\<close>

section \<open>Exceptions\<close>

datatype py_error =
    IndexError
  | KeyError
  | AttributeError
  | AssertionError
  | ValueError string
  | SystemExit "string option"

type_synonym 'a res = "py_error + 'a"

fun bind_res :: "'a res \<Rightarrow> ('a \<Rightarrow> 'b res) \<Rightarrow> 'b res" where
  "bind_res (Inl e) f = Inl e"
| "bind_res (Inr a) f = f a"

lemma bind_res_Inr_iff: "bind_res r f = Inr b \<longleftrightarrow> (\<exists>a. r = Inr a \<and> f a = Inr b)"
  by (cases r) auto

text \<open>A loop that maps over a list and stops at the first exception.\<close>

fun map_res :: "('a \<Rightarrow> 'b res) \<Rightarrow> 'a list \<Rightarrow> 'b list res" where
  "map_res f [] = Inr []"
| "map_res f (x # xs) = bind_res (f x) (\<lambda>y. bind_res (map_res f xs) (\<lambda>ys. Inr (y # ys)))"

lemma map_res_total: "(\<And>x. x \<in> set xs \<Longrightarrow> f x = Inr (g x)) \<Longrightarrow> map_res f xs = Inr (map g xs)"
  by (induction xs) auto

lemma map_res_length: "map_res f xs = Inr ys \<Longrightarrow> length ys = length xs"
  by (induction xs arbitrary: ys) (auto simp: bind_res_Inr_iff)

text \<open>A computation that may not end either: \<open>None\<close> is a run without an end.\<close>

fun bind_ro :: "'a res option \<Rightarrow> ('a \<Rightarrow> 'b res option) \<Rightarrow> 'b res option" where
  "bind_ro None f = None"
| "bind_ro (Some (Inl e)) f = Some (Inl e)"
| "bind_ro (Some (Inr a)) f = f a"

lemma bind_ro_Some_iff:
  "bind_ro m f = Some (Inr b) \<longleftrightarrow> (\<exists>a. m = Some (Inr a) \<and> f a = Some (Inr b))"
  by (cases "(m, f)" rule: bind_ro.cases) auto

text \<open>A computation of one kind as one of that type.\<close>

abbreviation ending :: "'a res \<Rightarrow> 'a res option" where
  "ending r \<equiv> Some r"

abbreviation safe :: "'a option \<Rightarrow> 'a res option" where
  "safe m \<equiv> map_option Inr m"

text \<open>\<open>xs[i]\<close>, where a negative index counts from the end.\<close>

definition py_nth :: "'a list \<Rightarrow> int \<Rightarrow> 'a res" where
  "py_nth xs i =
     (if i \<ge> int (length xs) \<or> i < - int (length xs) then Inl IndexError
      else if i < 0 then Inr (rev xs ! (nat (- i) - 1))
      else Inr (xs ! nat i))"

lemma py_nth_nat [simp]: "i < length xs \<Longrightarrow> py_nth xs (int i) = Inr (xs ! i)"
  by (simp add: py_nth_def)

lemma py_nth_int [simp]:
  "0 \<le> i \<Longrightarrow> i < int (length xs) \<Longrightarrow> py_nth xs i = Inr (xs ! nat i)"
  by (simp add: py_nth_def)

lemma py_nth_ge [simp]: "int (length xs) \<le> i \<Longrightarrow> py_nth xs i = Inl IndexError"
  by (simp add: py_nth_def)

text \<open>The slices \<open>s[i:]\<close>, \<open>s[:j]\<close> and \<open>s[i:j]\<close> for bounds that are not negative are
  \<open>drop\<close>, \<open>take\<close> and their composition: neither raises out of range.\<close>

definition slice :: "nat \<Rightarrow> nat \<Rightarrow> 'a list \<Rightarrow> 'a list" where
  "slice i j xs = drop i (take j xs)"

lemma slice_0 [simp]: "slice 0 j xs = take j xs"
  by (simp add: slice_def)

lemma length_slice [simp]: "length (slice i j xs) = min j (length xs) - i"
  by (simp add: slice_def)

text \<open>\<open>s[:i]\<close> for any integer: a negative bound counts from the end, so \<open>s[:-0]\<close> is empty.\<close>

definition slice_upto :: "int \<Rightarrow> 'a list \<Rightarrow> 'a list" where
  "slice_upto i xs = take (nat (if i < 0 then int (length xs) + i else i)) xs"

section \<open>Character classes\<close>

abbreviation newline :: char where "newline \<equiv> CHR 0x0A"
abbreviation backslash :: char where "backslash \<equiv> CHR 0x5C"
abbreviation dquote :: char where "dquote \<equiv> CHR 0x22"
abbreviation squote :: char where "squote \<equiv> CHR 0x27"

definition is_space :: "char \<Rightarrow> bool" where
  "is_space c \<longleftrightarrow> c \<in> set [CHR 0x20, CHR 0x09, CHR 0x0A, CHR 0x0B, CHR 0x0C, CHR 0x0D,
     CHR 0x1C, CHR 0x1D, CHR 0x1E, CHR 0x1F, CHR 0x85, CHR 0xA0]"

definition in_range :: "char \<Rightarrow> char \<Rightarrow> char \<Rightarrow> bool" where
  "in_range a b c \<longleftrightarrow> (of_char a :: nat) \<le> of_char c \<and> (of_char c :: nat) \<le> of_char b"

definition is_digit :: "char \<Rightarrow> bool" where
  "is_digit c \<longleftrightarrow> in_range CHR ''0'' CHR ''9'' c"

definition is_alpha_ascii :: "char \<Rightarrow> bool" where
  "is_alpha_ascii c \<longleftrightarrow> in_range CHR ''a'' CHR ''z'' c \<or> in_range CHR ''A'' CHR ''Z'' c"

definition is_word :: "char \<Rightarrow> bool" where
  "is_word c \<longleftrightarrow> is_alpha_ascii c \<or> is_digit c \<or> c = CHR ''_'' \<or>
     c \<in> set [CHR 0xAA, CHR 0xB2, CHR 0xB3, CHR 0xB5, CHR 0xB9, CHR 0xBA, CHR 0xBC,
       CHR 0xBD, CHR 0xBE] \<or>
     in_range CHR 0xC0 CHR 0xD6 c \<or> in_range CHR 0xD8 CHR 0xF6 c \<or>
     in_range CHR 0xF8 CHR 0xFF c"

text \<open>\<open>str.lower\<close> on the code points up to 255, and \<open>str.upper\<close> on ASCII.\<close>

definition lower_char :: "char \<Rightarrow> char" where
  "lower_char c =
     (if in_range CHR ''A'' CHR ''Z'' c \<or> in_range CHR 0xC0 CHR 0xD6 c \<or>
         in_range CHR 0xD8 CHR 0xDE c
      then char_of ((of_char c :: nat) + 32) else c)"

definition upper_char :: "char \<Rightarrow> char" where
  "upper_char c =
     (if in_range CHR ''a'' CHR ''z'' c then char_of ((of_char c :: nat) - 32) else c)"

definition lower :: "string \<Rightarrow> string" where
  "lower s = map lower_char s"

definition upper :: "string \<Rightarrow> string" where
  "upper s = map upper_char s"

section \<open>Methods of \<open>str\<close>\<close>

abbreviation startswith :: "string \<Rightarrow> string \<Rightarrow> bool" where
  "startswith s p \<equiv> prefix p s"

abbreviation endswith :: "string \<Rightarrow> string \<Rightarrow> bool" where
  "endswith s p \<equiv> suffix p s"

definition lstrip :: "string \<Rightarrow> string" where
  "lstrip s = dropWhile is_space s"

definition rstrip :: "string \<Rightarrow> string" where
  "rstrip s = rev (dropWhile is_space (rev s))"

definition strip :: "string \<Rightarrow> string" where
  "strip s = rstrip (lstrip s)"

text \<open>\<open>s.find(sub)\<close>: \<open>None\<close> stands for the result -1.\<close>

fun find_idx :: "string \<Rightarrow> string \<Rightarrow> nat option" where
  "find_idx sub s =
     (if prefix sub s then Some 0
      else case s of [] \<Rightarrow> None | c # cs \<Rightarrow> map_option Suc (find_idx sub cs))"

declare find_idx.simps [simp del]

lemma find_idx_Nil [simp]: "find_idx sub [] = (if sub = [] then Some 0 else None)"
  by (simp add: find_idx.simps)

lemma find_idx_Cons:
  "find_idx sub (c # cs) = (if prefix sub (c # cs) then Some 0 else map_option Suc (find_idx sub cs))"
  by (subst find_idx.simps) simp

definition find_from :: "string \<Rightarrow> string \<Rightarrow> nat \<Rightarrow> nat option" where
  "find_from sub s i =
     (if i \<le> length s then map_option (\<lambda>k. i + k) (find_idx sub (drop i s)) else None)"

definition contains :: "string \<Rightarrow> string \<Rightarrow> bool" where
  "contains sub s \<longleftrightarrow> find_idx sub s \<noteq> None"

text \<open>\<open>s.count(sub)\<close> and \<open>s.replace(old, new)\<close> scan from the left without overlap; the
  first argument is a nonempty literal wherever the linter calls them.\<close>

function str_count :: "string \<Rightarrow> string \<Rightarrow> nat" where
  "str_count sub s =
     (case s of [] \<Rightarrow> 0
      | c # cs \<Rightarrow> if sub \<noteq> [] \<and> prefix sub s then Suc (str_count sub (drop (length sub) s))
          else str_count sub cs)"
  by pat_completeness auto
termination
  by (relation "measure (\<lambda>(sub, s). length s)") (auto simp: neq_Nil_conv)

function replace :: "string \<Rightarrow> string \<Rightarrow> string \<Rightarrow> string" where
  "replace old new s =
     (case s of [] \<Rightarrow> []
      | c # cs \<Rightarrow> if old \<noteq> [] \<and> prefix old s then new @ replace old new (drop (length old) s)
          else c # replace old new cs)"
  by pat_completeness auto
termination
  by (relation "measure (\<lambda>(old, new, s). length s)") (auto simp: neq_Nil_conv)

declare str_count.simps [simp del] replace.simps [simp del]

lemma str_count_Nil [simp]: "str_count sub [] = 0"
  by (simp add: str_count.simps)

lemma str_count_Cons:
  "str_count sub (c # cs) =
     (if sub \<noteq> [] \<and> prefix sub (c # cs) then Suc (str_count sub (drop (length sub) (c # cs)))
      else str_count sub cs)"
  by (subst str_count.simps) simp

lemma replace_Nil [simp]: "replace old new [] = []"
  by (simp add: replace.simps)

lemma replace_Cons:
  "replace old new (c # cs) =
     (if old \<noteq> [] \<and> prefix old (c # cs) then new @ replace old new (drop (length old) (c # cs))
      else c # replace old new cs)"
  by (subst replace.simps) simp

text \<open>\<open>s.split(sep)\<close> for a separator of one character, \<open>s.split()\<close> on runs of white
  space.\<close>

fun split_on :: "char \<Rightarrow> string \<Rightarrow> string list" where
  "split_on sep [] = [[]]"
| "split_on sep (c # cs) =
     (if c = sep then [] # split_on sep cs
      else case split_on sep cs of [] \<Rightarrow> [[c]] | w # ws \<Rightarrow> (c # w) # ws)"

function split_ws :: "string \<Rightarrow> string list" where
  "split_ws s =
     (case dropWhile is_space s of [] \<Rightarrow> []
      | c # cs \<Rightarrow> (c # takeWhile (Not \<circ> is_space) cs) # split_ws (dropWhile (Not \<circ> is_space) cs))"
  by pat_completeness auto
termination
proof (relation "measure length", goal_cases)
  case (2 s c cs)
  have "length (dropWhile (Not \<circ> is_space) cs) \<le> length cs"
    by (rule length_dropWhile_le)
  also have "Suc (length cs) \<le> length s"
    using length_dropWhile_le [of is_space s] 2 by simp
  finally show ?case by simp
qed simp

declare split_ws.simps [simp del]

text \<open>\<open>s.split(sep)\<close> for a longer separator, again a nonempty literal.\<close>

function split_str :: "string \<Rightarrow> string \<Rightarrow> string list" where
  "split_str sep s =
     (case s of [] \<Rightarrow> [[]]
      | c # cs \<Rightarrow> if sep \<noteq> [] \<and> prefix sep s then [] # split_str sep (drop (length sep) s)
          else (case split_str sep cs of [] \<Rightarrow> [[c]] | w # ws \<Rightarrow> (c # w) # ws))"
  by pat_completeness auto
termination
  by (relation "measure (\<lambda>(sep, s). length s)") (auto simp: neq_Nil_conv)

declare split_str.simps [simp del]

text \<open>\<open>sep.join(xs)\<close> and \<open>s.rfind(c)\<close>.\<close>

fun join :: "string \<Rightarrow> string list \<Rightarrow> string" where
  "join sep [] = []"
| "join sep [w] = w"
| "join sep (w # v # ws) = w @ sep @ join sep (v # ws)"

fun rfind_char :: "char \<Rightarrow> string \<Rightarrow> nat option" where
  "rfind_char c [] = None"
| "rfind_char c (d # ds) =
     (case rfind_char c ds of Some k \<Rightarrow> Some (Suc k)
      | None \<Rightarrow> if c = d then Some 0 else None)"

text \<open>\<open>str(n)\<close> for an integer.\<close>

fun str_nat :: "nat \<Rightarrow> string" where
  "str_nat n =
     (if n < 10 then [char_of (n + 48)] else str_nat (n div 10) @ [char_of (n mod 10 + 48)])"

declare str_nat.simps [simp del]

definition str_int :: "int \<Rightarrow> string" where
  "str_int i = (if i < 0 then CHR ''-'' # str_nat (nat (- i)) else str_nat (nat i))"

end
