(* ===== verification/Py_Regex.thy ===== *)
theory Py_Regex
  imports Py_Prelude
begin

text \<open>
  The part of Python's module \<open>re\<close> that the linter uses: the pattern syntax, compiled from
  the pattern's text by \<open>re_compile\<close>, and the backtracking matcher with capture groups,
  greedy and lazy repetition, lookahead and back references. The reference matcher \<open>matches\<close>
  returns every way to match, in the order in which the backtracking engine tries them; the
  engine's answer is the first. \<open>run_k\<close> is the same engine in continuation-passing form,
  which stops at the first success, and \<open>run_k_first\<close> shows that the two agree.
\<close>

section \<open>Syntax\<close>

datatype citem =
    CChar char
  | CRange char char
  | CSpace bool
  | CWord bool
  | CDigit bool

datatype re =
    Eps
  | Lit char
  | Any
  | Cls bool "citem list"
  | Bol
  | Eol
  | WordB bool
  | Seq re re
  | Alt re re
  | Rep bool nat "nat option" re
  | Grp nat re
  | Look bool re
  | Backref nat

fun citem_has :: "citem \<Rightarrow> char \<Rightarrow> bool" where
  "citem_has (CChar a) c = (a = c)"
| "citem_has (CRange a b) c = in_range a b c"
| "citem_has (CSpace p) c = (is_space c = p)"
| "citem_has (CWord p) c = (is_word c = p)"
| "citem_has (CDigit p) c = (is_digit c = p)"

text \<open>\<open>Cls True items\<close> is \<open>[...]\<close>, \<open>Cls False items\<close> is \<open>[^...]\<close>.\<close>

definition cls_has :: "bool \<Rightarrow> citem list \<Rightarrow> char \<Rightarrow> bool" where
  "cls_has p items c \<longleftrightarrow> list_ex (\<lambda>i. citem_has i c) items = p"

section \<open>Compiling a pattern\<close>

text \<open>An escaped letter or digit is a class, an assertion, a back reference or a control
  character; any other escaped character stands for itself.\<close>

definition esc_char :: "char \<Rightarrow> char option" where
  "esc_char c =
     (if c = CHR ''n'' then Some CHR 0x0A else if c = CHR ''t'' then Some CHR 0x09
      else if c = CHR ''r'' then Some CHR 0x0D else if c = CHR ''f'' then Some CHR 0x0C
      else if c = CHR ''v'' then Some CHR 0x0B else if c = CHR ''a'' then Some CHR 0x07
      else if is_alpha_ascii c \<or> is_digit c then None else Some c)"

definition esc_class :: "char \<Rightarrow> citem option" where
  "esc_class c =
     (if c = CHR ''s'' then Some (CSpace True) else if c = CHR ''S'' then Some (CSpace False)
      else if c = CHR ''w'' then Some (CWord True) else if c = CHR ''W'' then Some (CWord False)
      else if c = CHR ''d'' then Some (CDigit True) else if c = CHR ''D'' then Some (CDigit False)
      else None)"

definition esc_item :: "char \<Rightarrow> citem option" where
  "esc_item c = (case esc_class c of Some i \<Rightarrow> Some i
     | None \<Rightarrow> if c = CHR ''b'' then Some (CChar CHR 0x08) else map_option CChar (esc_char c))"

text \<open>The inside of a set after \<open>[\<close> or \<open>[^\<close>: items up to the closing bracket, which stands
  for itself when it comes first; a hyphen between two characters makes a range.\<close>

fun set_item :: "string \<Rightarrow> (citem \<times> string) option" where
  "set_item [] = None"
| "set_item (c # cs) =
     (if c = backslash
      then (case cs of [] \<Rightarrow> None | d # ds \<Rightarrow> map_option (\<lambda>i. (i, ds)) (esc_item d))
      else Some (CChar c, cs))"

lemma set_item_length: "set_item s = Some (i, s') \<Longrightarrow> length s' < length s"
  by (cases s) (auto split: if_splits list.splits)

definition set_elem :: "string \<Rightarrow> (citem \<times> string) option" where
  "set_elem s =
     (case set_item s of None \<Rightarrow> None
      | Some (i, t) \<Rightarrow>
        (case t of
           h # e # u \<Rightarrow>
             if h = CHR ''-'' \<and> e \<noteq> CHR '']''
             then (case set_item (e # u) of
                     Some (CChar b, v) \<Rightarrow>
                       (case i of
                          CChar a \<Rightarrow> if (of_char a :: nat) \<le> of_char b
                            then Some (CRange a b, v) else None
                        | _ \<Rightarrow> None)
                   | _ \<Rightarrow> None)
             else Some (i, t)
         | _ \<Rightarrow> Some (i, t)))"

lemma set_elem_length:
  assumes "set_elem s = Some (i, s')"
  shows "length s' < length s"
proof -
  obtain j t where j: "set_item s = Some (j, t)"
    using assms by (auto simp: set_elem_def split: option.splits)
  have "length s' \<le> length t"
    using assms j
    by (auto simp: set_elem_def split: list.splits if_splits option.splits citem.splits
        dest!: set_item_length)
  then show ?thesis using set_item_length [OF j] by simp
qed

function set_items :: "bool \<Rightarrow> string \<Rightarrow> (citem list \<times> string) option" where
  "set_items first s =
     (case s of [] \<Rightarrow> None
      | c # cs \<Rightarrow>
        if c = CHR '']'' \<and> \<not> first then Some ([], cs)
        else case set_elem s of None \<Rightarrow> None
          | Some (i, t) \<Rightarrow> map_option (\<lambda>(is, w). (i # is, w)) (set_items False t))"
  by pat_completeness auto
termination
  by (relation "measure (\<lambda>(first, s). length s)") (auto dest: set_elem_length)

declare set_items.simps [simp del]

lemma set_items_Nil [simp]: "set_items first [] = None"
  by (simp add: set_items.simps)

lemma set_items_Cons:
  "set_items first (c # cs) =
     (if c = CHR '']'' \<and> \<not> first then Some ([], cs)
      else case set_elem (c # cs) of None \<Rightarrow> None
        | Some (i, t) \<Rightarrow> map_option (\<lambda>(is, w). (i # is, w)) (set_items False t))"
  by (subst set_items.simps) simp

lemma set_items_length: "set_items first s = Some (is, s') \<Longrightarrow> length s' < length s"
proof (induction first s arbitrary: "is" s' rule: set_items.induct)
  case (1 first s)
  show ?case
  proof (cases s)
    case Nil
    with "1.prems" show ?thesis by simp
  next
    case (Cons c cs)
    show ?thesis
    proof (cases "c = CHR '']'' \<and> \<not> first")
      case True
      with "1.prems" Cons show ?thesis by (simp add: set_items_Cons)
    next
      case False
      with "1.prems" Cons obtain i t us where t: "set_elem s = Some (i, t)"
        and us: "set_items False t = Some (us, s')"
        by (auto simp: set_items_Cons [of first c cs] split: option.splits if_splits)
      from "1.IH" [OF Cons False t refl us] set_elem_length [OF t] show ?thesis by simp
    qed
  qed
qed

text \<open>Quantifiers. A brace that does not open a bound stands for itself.\<close>

fun read_nat :: "string \<Rightarrow> nat option \<Rightarrow> nat option \<times> string" where
  "read_nat [] acc = (acc, [])"
| "read_nat (c # cs) acc =
     (if is_digit c
      then read_nat cs (Some (10 * (case acc of None \<Rightarrow> 0 | Some n \<Rightarrow> n) + (of_char c - 48)))
      else (acc, c # cs))"

definition read_bound :: "string \<Rightarrow> (nat \<times> nat option \<times> string) option" where
  "read_bound s =
     (case read_nat s None of (lo, t) \<Rightarrow>
        (case t of
           c # u \<Rightarrow>
             if c = CHR ''}'' then (case lo of None \<Rightarrow> None | Some n \<Rightarrow> Some (n, Some n, u))
             else if c = CHR '','' then
               (case read_nat u None of (hi, v) \<Rightarrow>
                  (case v of
                     d # w \<Rightarrow> if d = CHR ''}''
                       then Some (case lo of None \<Rightarrow> 0 | Some n \<Rightarrow> n, hi, w) else None
                   | [] \<Rightarrow> None))
             else None
         | [] \<Rightarrow> None))"

definition quantifier :: "char \<Rightarrow> string \<Rightarrow> (nat \<times> nat option \<times> string) option" where
  "quantifier c cs =
     (if c = CHR ''*'' then Some (0, None, cs)
      else if c = CHR ''+'' then Some (1, None, cs)
      else if c = CHR ''?'' then Some (0, Some 1, cs)
      else if c = CHR ''{'' then read_bound cs
      else None)"

lemma read_nat_length: "read_nat s acc = (n, t) \<Longrightarrow> length t \<le> length s"
  by (induction s acc rule: read_nat.induct) (auto split: if_splits)

lemma read_bound_length: "read_bound s = Some (lo, hi, t) \<Longrightarrow> length t < length s"
  by (auto simp: read_bound_def dest!: read_nat_length
      split: prod.splits list.splits if_splits option.splits)

lemma quantifier_length: "quantifier c cs = Some (lo, hi, t) \<Longrightarrow> length t \<le> length cs"
  by (auto simp: quantifier_def dest: read_bound_length split: if_splits)

text \<open>The parser keeps a stack of open groups; for each the alternatives and the items read
  before it.\<close>

datatype gkind = Capture nat | NonCapture | Ahead bool

type_synonym frame = "gkind \<times> re list \<times> re list"

fun mk_seq :: "re list \<Rightarrow> re" where
  "mk_seq [] = Eps"
| "mk_seq [r] = r"
| "mk_seq (r # s # rs) = Seq r (mk_seq (s # rs))"

fun mk_alt :: "re list \<Rightarrow> re" where
  "mk_alt [] = Eps"
| "mk_alt [r] = r"
| "mk_alt (r # s # rs) = Alt r (mk_alt (s # rs))"

definition close_alts :: "re list \<Rightarrow> re list \<Rightarrow> re" where
  "close_alts alts cur = mk_alt (rev (mk_seq (rev cur) # alts))"

fun wrap :: "gkind \<Rightarrow> re \<Rightarrow> re" where
  "wrap (Capture n) r = Grp n r"
| "wrap NonCapture r = r"
| "wrap (Ahead p) r = Look p r"

text \<open>Assertions cannot be repeated, and neither can a repetition.\<close>

fun repeatable :: "re \<Rightarrow> bool" where
  "repeatable Bol = False"
| "repeatable Eol = False"
| "repeatable (WordB _) = False"
| "repeatable (Rep _ _ _ _) = False"
| "repeatable _ = True"

definition open_group :: "string \<Rightarrow> nat \<Rightarrow> (gkind \<times> nat \<times> string) option" where
  "open_group cs k =
     (case cs of
        q # ds \<Rightarrow>
          if q \<noteq> CHR ''?'' then Some (Capture k, Suc k, cs)
          else (case ds of
                  e # es \<Rightarrow>
                    if e = CHR '':'' then Some (NonCapture, k, es)
                    else if e = CHR ''='' then Some (Ahead True, k, es)
                    else if e = CHR ''!'' then Some (Ahead False, k, es)
                    else None
                | [] \<Rightarrow> None)
      | [] \<Rightarrow> Some (Capture k, Suc k, cs))"

lemma open_group_length: "open_group cs k = Some (g, k', t) \<Longrightarrow> length t \<le> length cs"
  by (auto simp: open_group_def split: list.splits if_splits)

definition escape :: "char \<Rightarrow> re option" where
  "escape d =
     (case esc_class d of Some i \<Rightarrow> Some (Cls True [i])
      | None \<Rightarrow>
        if d = CHR ''b'' then Some (WordB True) else if d = CHR ''B'' then Some (WordB False)
        else if is_digit d \<and> d \<noteq> CHR ''0'' then Some (Backref (of_char d - 48))
        else map_option Lit (esc_char d))"

definition atom :: "char \<Rightarrow> re" where
  "atom c = (if c = CHR ''.'' then Any else if c = CHR ''^'' then Bol
     else if c = CHR ''$'' then Eol else Lit c)"

function parse :: "string \<Rightarrow> nat \<Rightarrow> frame list \<Rightarrow> re list \<Rightarrow> re list \<Rightarrow> re option" where
  "parse s k st alts cur =
     (case s of
        [] \<Rightarrow> if st = [] then Some (close_alts alts cur) else None
      | c # cs \<Rightarrow>
        if c = CHR ''|'' then parse cs k st (mk_seq (rev cur) # alts) []
        else if c = CHR ''('' then
          (case open_group cs k of None \<Rightarrow> None
           | Some (g, k', t) \<Rightarrow> parse t k' ((g, alts, cur) # st) [] [])
        else if c = CHR '')'' then
          (case st of [] \<Rightarrow> None
           | (g, alts', cur') # st' \<Rightarrow>
               parse cs k st' alts' (wrap g (close_alts alts cur) # cur'))
        else if c = CHR ''['' then
          (case (case cs of d # ds \<Rightarrow> if d = CHR ''^'' then (False, ds) else (True, cs)
                  | [] \<Rightarrow> (True, cs)) of (p, t) \<Rightarrow>
             (case set_items True t of None \<Rightarrow> None
              | Some (is, u) \<Rightarrow> parse u k st alts (Cls p is # cur)))
        else if c = backslash then
          (case cs of [] \<Rightarrow> None
           | d # ds \<Rightarrow>
             (case escape d of None \<Rightarrow> None | Some r \<Rightarrow> parse ds k st alts (r # cur)))
        else
          (case quantifier c cs of
             None \<Rightarrow> if c \<in> {CHR ''*'', CHR ''+'', CHR ''?''} then None
               else parse cs k st alts (atom c # cur)
           | Some (lo, hi, t) \<Rightarrow>
             (case cur of [] \<Rightarrow> None
              | r # rs \<Rightarrow>
                if \<not> repeatable r then None
                else (case t of
                        d # ds \<Rightarrow>
                          if d = CHR ''?'' then parse ds k st alts (Rep False lo hi r # rs)
                          else parse t k st alts (Rep True lo hi r # rs)
                      | [] \<Rightarrow> parse t k st alts (Rep True lo hi r # rs)))))"
  by pat_completeness auto
termination
  by (relation "measure (\<lambda>(s, k, st, alts, cur). length s)")
    (fastforce dest: set_items_length open_group_length quantifier_length
      split: if_splits list.splits)+

declare parse.simps [simp del]

definition re_compile :: "string \<Rightarrow> re option" where
  "re_compile p = parse p 1 [] [] []"

text \<open>A string literal of HOL has no backslash: in the patterns below a grave accent stands
  for it, and no pattern of the linter contains a grave accent of its own.\<close>

definition raw :: "string \<Rightarrow> string" where
  "raw s = map (\<lambda>c. if c = CHR 0x60 then backslash else c) s"

definition rx :: "string \<Rightarrow> re" where
  "rx s = (case re_compile (raw s) of None \<Rightarrow> Cls True [] | Some r \<Rightarrow> r)"

text \<open>The pattern that is put together from text of the file, where a grave accent is itself.\<close>

definition rx_text :: "string \<Rightarrow> string \<Rightarrow> string \<Rightarrow> re" where
  "rx_text u t v = (case re_compile (raw u @ t @ raw v) of None \<Rightarrow> Cls True [] | Some r \<Rightarrow> r)"

end
