(* ===== verification/Py_Match.thy ===== *)
theory Py_Match
  imports Py_Regex
begin

text \<open>
  The backtracking matcher of Python's \<open>re\<close> and the operations \<open>match\<close>, \<open>search\<close> and
  \<open>sub\<close>. A matcher state is the character before the current position, the position, the
  text from there on, and the groups captured so far (number, start, text), latest first.
\<close>

datatype mst = MS (prv: "char option") (pos: nat) (rest: string)
  (grp: "(nat \<times> nat \<times> string) list")

definition init :: "string \<Rightarrow> mst" where
  "init s = MS None 0 s []"

lemma init_sel [simp]: "prv (init s) = None" "pos (init s) = 0" "rest (init s) = s" "grp (init s) = []"
  by (simp_all add: init_def)

text \<open>Moving over one character that satisfies a test.\<close>

fun step :: "(char \<Rightarrow> bool) \<Rightarrow> mst \<Rightarrow> mst list" where
  "step P (MS p i [] g) = []"
| "step P (MS p i (c # cs) g) = (if P c then [MS (Some c) (Suc i) cs g] else [])"

definition at_word_boundary :: "mst \<Rightarrow> bool" where
  "at_word_boundary x \<longleftrightarrow>
     (case prv x of None \<Rightarrow> False | Some c \<Rightarrow> is_word c) \<noteq>
     (case rest x of [] \<Rightarrow> False | c # _ \<Rightarrow> is_word c)"

definition at_end :: "mst \<Rightarrow> bool" where
  "at_end x \<longleftrightarrow> rest x = [] \<or> rest x = [newline]"

definition set_grp :: "(nat \<times> nat \<times> string) list \<Rightarrow> mst \<Rightarrow> mst" where
  "set_grp g x = MS (prv x) (pos x) (rest x) g"

definition capture :: "nat \<Rightarrow> mst \<Rightarrow> mst \<Rightarrow> mst" where
  "capture n x y = set_grp ((n, pos x, take (pos y - pos x) (rest x)) # grp y) y"

fun steps :: "string \<Rightarrow> mst \<Rightarrow> mst list" where
  "steps [] x = [x]"
| "steps (c # cs) x = concat (map (steps cs) (step (\<lambda>d. d = c) x))"

section \<open>Every match, in the engine's order\<close>

text \<open>A repetition first matches its minimum, then goes on as long as it may; the engine
  refuses an iteration that would start where the previous one started.\<close>

fun times :: "nat \<Rightarrow> (mst \<Rightarrow> mst list) \<Rightarrow> mst \<Rightarrow> mst list" where
  "times 0 b x = [x]"
| "times (Suc n) b x = concat (map (times n b) (b x))"

fun optional :: "nat \<Rightarrow> bool \<Rightarrow> nat option \<Rightarrow> (mst \<Rightarrow> mst list) \<Rightarrow> nat option \<Rightarrow> mst \<Rightarrow> mst list"
where
  "optional 0 g hi b lst x = []"
| "optional (Suc f) g hi b lst x =
     (let more = (if hi = Some 0 \<or> lst = Some (pos x) then []
                  else concat (map (optional f g (map_option (\<lambda>n. n - 1) hi) b (Some (pos x))) (b x)))
      in if g then more @ [x] else x # more)"

definition fuel :: "mst \<Rightarrow> nat" where
  "fuel x = Suc (Suc (length (rest x)))"

primrec matches :: "re \<Rightarrow> mst \<Rightarrow> mst list" where
  "matches Eps x = [x]"
| "matches (Lit c) x = step (\<lambda>d. d = c) x"
| "matches Any x = step (\<lambda>d. d \<noteq> newline) x"
| "matches (Cls p items) x = step (cls_has p items) x"
| "matches Bol x = (if pos x = 0 then [x] else [])"
| "matches Eol x = (if at_end x then [x] else [])"
| "matches (WordB p) x = (if at_word_boundary x = p then [x] else [])"
| "matches (Seq r s) x = concat (map (matches s) (matches r x))"
| "matches (Alt r s) x = matches r x @ matches s x"
| "matches (Rep g lo hi r) x =
     concat (map (\<lambda>y. optional (fuel y) g (map_option (\<lambda>n. n - lo) hi) (matches r) None y)
       (times lo (matches r) x))"
| "matches (Grp n r) x = map (capture n x) (matches r x)"
| "matches (Look p r) x =
     (case matches r x of [] \<Rightarrow> if p then [] else [x]
      | y # _ \<Rightarrow> if p then [set_grp (grp y) x] else [])"
| "matches (Backref n) x =
     (case map_of (map (\<lambda>(k, i, t). (k, t)) (grp x)) n of None \<Rightarrow> [] | Some t \<Rightarrow> steps t x)"

section \<open>The same engine with continuations\<close>

abbreviation orelse :: "'a option \<Rightarrow> 'a option \<Rightarrow> 'a option" where
  "orelse a b \<equiv> (case a of None \<Rightarrow> b | Some y \<Rightarrow> Some y)"

fun first_some :: "('a \<Rightarrow> 'b option) \<Rightarrow> 'a list \<Rightarrow> 'b option" where
  "first_some k [] = None"
| "first_some k (x # xs) = orelse (k x) (first_some k xs)"

type_synonym kont = "mst \<Rightarrow> mst option"

fun step_k :: "(char \<Rightarrow> bool) \<Rightarrow> kont \<Rightarrow> kont" where
  "step_k P k (MS p i [] g) = None"
| "step_k P k (MS p i (c # cs) g) = (if P c then k (MS (Some c) (Suc i) cs g) else None)"

fun steps_k :: "string \<Rightarrow> kont \<Rightarrow> kont" where
  "steps_k [] k x = k x"
| "steps_k (c # cs) k x = step_k (\<lambda>d. d = c) (steps_k cs k) x"

fun times_k :: "nat \<Rightarrow> (kont \<Rightarrow> kont) \<Rightarrow> kont \<Rightarrow> kont" where
  "times_k 0 b k x = k x"
| "times_k (Suc n) b k x = b (times_k n b k) x"

fun optional_k :: "nat \<Rightarrow> bool \<Rightarrow> nat option \<Rightarrow> (kont \<Rightarrow> kont) \<Rightarrow> nat option \<Rightarrow> kont \<Rightarrow> kont"
where
  "optional_k 0 g hi b lst k x = None"
| "optional_k (Suc f) g hi b lst k x =
     (if hi = Some 0 \<or> lst = Some (pos x) then k x
      else if g
      then orelse (b (optional_k f g (map_option (\<lambda>n. n - 1) hi) b (Some (pos x)) k) x) (k x)
      else orelse (k x) (b (optional_k f g (map_option (\<lambda>n. n - 1) hi) b (Some (pos x)) k) x))"

primrec run_k :: "re \<Rightarrow> kont \<Rightarrow> kont" where
  "run_k Eps k x = k x"
| "run_k (Lit c) k x = step_k (\<lambda>d. d = c) k x"
| "run_k Any k x = step_k (\<lambda>d. d \<noteq> newline) k x"
| "run_k (Cls p items) k x = step_k (cls_has p items) k x"
| "run_k Bol k x = (if pos x = 0 then k x else None)"
| "run_k Eol k x = (if at_end x then k x else None)"
| "run_k (WordB p) k x = (if at_word_boundary x = p then k x else None)"
| "run_k (Seq r s) k x = run_k r (run_k s k) x"
| "run_k (Alt r s) k x = orelse (run_k r k x) (run_k s k x)"
| "run_k (Rep g lo hi r) k x =
     times_k lo (run_k r)
       (\<lambda>y. optional_k (fuel y) g (map_option (\<lambda>n. n - lo) hi) (run_k r) None k y) x"
| "run_k (Grp n r) k x = run_k r (\<lambda>y. k (capture n x y)) x"
| "run_k (Look p r) k x =
     (case run_k r Some x of None \<Rightarrow> if p then None else k x
      | Some y \<Rightarrow> if p then k (set_grp (grp y) x) else None)"
| "run_k (Backref n) k x =
     (case map_of (map (\<lambda>(j, i, t). (j, t)) (grp x)) n of None \<Rightarrow> None
      | Some t \<Rightarrow> steps_k t k x)"

lemma first_some_append:
  "first_some k (xs @ ys) = orelse (first_some k xs) (first_some k ys)"
  by (induction xs) (auto split: option.splits)

lemma first_some_concat:
  "first_some k (concat (map f xs)) = first_some (\<lambda>x. first_some k (f x)) xs"
  by (induction xs) (auto simp: first_some_append split: option.splits)

lemma first_some_map: "first_some k (map f xs) = first_some (k \<circ> f) xs"
  by (induction xs) (auto simp: comp_def split: option.splits)

lemma step_k_first: "step_k P k x = first_some k (step P x)"
  by (cases "(P, x)" rule: step.cases) (auto split: option.splits)

lemma steps_k_first: "steps_k t k x = first_some k (steps t x)"
proof (induction t arbitrary: x)
  case Nil
  show ?case by (simp split: option.splits)
next
  case (Cons c cs)
  then have "steps_k cs k = (\<lambda>x. first_some k (steps cs x))" by (intro ext)
  then show ?case by (simp add: step_k_first first_some_concat)
qed

lemma times_k_first:
  "times_k n (\<lambda>k x. first_some k (b x)) k x = first_some k (times n b x)"
proof (induction n arbitrary: x)
  case 0
  show ?case by (simp split: option.splits)
next
  case (Suc n)
  then have "times_k n (\<lambda>k x. first_some k (b x)) k = (\<lambda>x. first_some k (times n b x))"
    by (intro ext)
  then show ?case by (simp add: first_some_concat)
qed

lemma optional_k_first:
  "optional_k f g hi (\<lambda>k x. first_some k (b x)) lst k x = first_some k (optional f g hi b lst x)"
proof (induction f arbitrary: hi lst x)
  case 0
  show ?case by simp
next
  case (Suc f)
  then have "\<And>hi lst. optional_k f g hi (\<lambda>k x. first_some k (b x)) lst k =
      (\<lambda>x. first_some k (optional f g hi b lst x))"
    by (intro ext)
  then show ?case
    by (auto simp: first_some_concat first_some_append Let_def split: option.splits)
qed

lemma run_k_first: "run_k r k x = first_some k (matches r x)"
proof (induction r arbitrary: k x)
  case (Rep g lo hi r)
  then have r: "run_k r = (\<lambda>k x. first_some k (matches r x))" by (intro ext)
  show ?case by (simp add: r times_k_first optional_k_first first_some_concat)
next
  case (Look p r)
  then show ?case by (auto split: list.splits option.splits)
next
  case (Seq r s)
  then have s: "run_k s k = (\<lambda>x. first_some k (matches s x))" by (intro ext)
  show ?case by (simp add: s Seq.IH(1) first_some_concat)
qed (auto simp: step_k_first steps_k_first first_some_append first_some_map
    comp_def split: option.splits)

section \<open>What a match consumes\<close>

text \<open>A match moves forward over a prefix of the remaining text.\<close>

definition advances :: "mst \<Rightarrow> mst \<Rightarrow> bool" where
  "advances x y \<longleftrightarrow> (\<exists>u. rest x = u @ rest y \<and> pos y = pos x + length u \<and>
     prv y = (if u = [] then prv x else Some (last u)))"

lemma advances_refl [simp, intro]: "advances x x"
  by (auto simp: advances_def)

lemma advances_trans [trans]:
  assumes "advances x y" "advances y z"
  shows "advances x z"
proof -
  from assms obtain u v where u: "rest x = u @ rest y" "pos y = pos x + length u"
      "prv y = (if u = [] then prv x else Some (last u))"
    and v: "rest y = v @ rest z" "pos z = pos y + length v"
      "prv z = (if v = [] then prv y else Some (last v))"
    by (auto simp: advances_def)
  then have "rest x = (u @ v) @ rest z \<and> pos z = pos x + length (u @ v) \<and>
      prv z = (if u @ v = [] then prv x else Some (last (u @ v)))"
    by auto
  then show ?thesis unfolding advances_def by blast
qed

lemma advances_set_grp [simp]: "advances x (set_grp g y) = advances x y"
  by (simp add: advances_def set_grp_def)

lemma advances_capture [simp]: "advances x (capture n z y) = advances x y"
  by (simp add: capture_def)

lemma advances_pos: "advances x y \<Longrightarrow> pos x \<le> pos y"
  by (auto simp: advances_def)

lemma advances_length: "advances x y \<Longrightarrow> length (rest y) + pos y = length (rest x) + pos x"
  by (auto simp: advances_def)

lemma step_advances: "y \<in> set (step P x) \<Longrightarrow> advances x y"
  by (cases "(P, x)" rule: step.cases) (auto simp: advances_def split: if_splits)

lemma steps_advances: "y \<in> set (steps t x) \<Longrightarrow> advances x y"
  by (induction t arbitrary: x) (auto dest: step_advances intro: advances_trans)

lemma times_advances:
  assumes "\<And>x y. y \<in> set (b x) \<Longrightarrow> advances x y"
  shows "y \<in> set (times n b x) \<Longrightarrow> advances x y"
  by (induction n arbitrary: x) (auto dest: assms intro: advances_trans)

lemma optional_advances:
  assumes "\<And>x y. y \<in> set (b x) \<Longrightarrow> advances x y"
  shows "y \<in> set (optional f g hi b lst x) \<Longrightarrow> advances x y"
  by (induction f arbitrary: x hi lst)
    (auto simp: Let_def dest: assms intro: advances_trans split: if_splits)

lemma matches_advances: "y \<in> set (matches r x) \<Longrightarrow> advances x y"
proof (induction r arbitrary: x y)
  case (Rep g lo hi r)
  then show ?case
    by (auto dest!: times_advances [OF Rep.IH, rotated] optional_advances [OF Rep.IH, rotated]
        intro: advances_trans)
next
  case (Seq r s)
  from Seq.prems obtain z where z: "z \<in> set (matches r x)" "y \<in> set (matches s z)" by auto
  from Seq.IH(1) [OF z(1)] Seq.IH(2) [OF z(2)] show ?case by (rule advances_trans)
qed (auto dest: step_advances steps_advances intro: advances_trans split: if_splits list.splits option.splits)

section \<open>Enough fuel\<close>

text \<open>\<open>fuel\<close> counts one iteration per remaining character, one that consumes nothing, and the
  visit that stops: more fuel never changes the answer, so a repetition satisfies the equation
  \<open>star_unfold\<close>, which has no fuel in it.\<close>

definition need :: "nat option \<Rightarrow> mst \<Rightarrow> nat" where
  "need lst x = (if lst = Some (pos x) then 1 else fuel x)"

lemma optional_enough:
  assumes b: "\<And>x y. y \<in> set (b x) \<Longrightarrow> advances x y"
  shows "need lst x \<le> f \<Longrightarrow> need lst x \<le> f' \<Longrightarrow>
    optional f g hi b lst x = optional f' g hi b lst x"
proof (induction f arbitrary: f' hi lst x)
  case 0
  then show ?case by (simp add: need_def fuel_def split: if_splits)
next
  case (Suc f)
  obtain e where e: "f' = Suc e"
    using Suc.prems(2) by (cases f') (auto simp: need_def fuel_def split: if_splits)
  have "optional f g hi' b (Some (pos x)) y = optional e g hi' b (Some (pos x)) y"
    if y: "y \<in> set (b x)" and "lst \<noteq> Some (pos x)" for y hi'
  proof (rule Suc.IH)
    have "need (Some (pos x)) y \<le> Suc (length (rest x))"
      using advances_length [OF b [OF y]] advances_pos [OF b [OF y]]
      by (auto simp: need_def fuel_def)
    moreover have "Suc (length (rest x)) \<le> f" "Suc (length (rest x)) \<le> e"
      using Suc.prems e that(2) by (auto simp: need_def fuel_def)
    ultimately show "need (Some (pos x)) y \<le> f" "need (Some (pos x)) y \<le> e"
      by (auto simp only: le_trans)
  qed
  then have m: "lst \<noteq> Some (pos x) \<Longrightarrow>
      map (optional f g hi' b (Some (pos x))) (b x) = map (optional e g hi' b (Some (pos x))) (b x)"
    for hi'
    by simp
  show ?case
    by (cases "lst = Some (pos x)") (simp_all only: e optional.simps m simp_thms if_True if_False)
qed

definition star :: "bool \<Rightarrow> nat option \<Rightarrow> (mst \<Rightarrow> mst list) \<Rightarrow> nat option \<Rightarrow> mst \<Rightarrow> mst list" where
  "star g hi b lst x = optional (need lst x) g hi b lst x"

lemma matches_Rep:
  "matches (Rep g lo hi r) x =
     concat (map (star g (map_option (\<lambda>n. n - lo) hi) (matches r) None) (times lo (matches r) x))"
proof -
  have "star g hi' b None = (\<lambda>y. optional (fuel y) g hi' b None y)" for hi' b
    by (simp add: fun_eq_iff star_def need_def)
  then show ?thesis by simp
qed

lemma star_unfold:
  assumes b: "\<And>x y. y \<in> set (b x) \<Longrightarrow> advances x y"
  shows "star g hi b lst x =
    (let more = (if hi = Some 0 \<or> lst = Some (pos x) then []
                 else concat (map (star g (map_option (\<lambda>n. n - 1) hi) b (Some (pos x))) (b x)))
     in if g then more @ [x] else x # more)"
proof -
  have 1: "star g hi b lst x = optional (Suc (fuel x)) g hi b lst x"
    unfolding star_def
    by (rule optional_enough [where b = b, OF b]) (auto simp: need_def fuel_def)
  have 2: "map (optional (fuel x) g hi' b (Some (pos x))) (b x) =
      map (star g hi' b (Some (pos x))) (b x)" for hi'
  proof (rule map_cong [OF refl])
    fix y assume y: "y \<in> set (b x)"
    have "need (Some (pos x)) y \<le> fuel x"
      using advances_length [OF b [OF y]] advances_pos [OF b [OF y]]
      by (auto simp: need_def fuel_def)
    then show "optional (fuel x) g hi' b (Some (pos x)) y = star g hi' b (Some (pos x)) y"
      unfolding star_def by (intro optional_enough [where b = b, OF b]) auto
  qed
  show ?thesis by (simp only: 1 2 optional.simps)
qed

section \<open>Running over a class of characters\<close>

definition adv :: "nat \<Rightarrow> mst \<Rightarrow> mst" where
  "adv k x = MS (if k = 0 then prv x else Some (rest x ! (k - 1))) (pos x + k)
     (drop k (rest x)) (grp x)"

lemma adv_0 [simp]: "adv 0 x = x"
  by (cases x) (simp add: adv_def)

lemma adv_sel [simp]:
  "pos (adv k x) = pos x + k" "rest (adv k x) = drop k (rest x)" "grp (adv k x) = grp x"
  by (simp_all add: adv_def)

lemma adv_Suc: "rest x = c # cs \<Longrightarrow> adv (Suc k) x = adv k (MS (Some c) (Suc (pos x)) cs (grp x))"
  by (cases k) (auto simp: adv_def)

lemma step_adv: "step P x = (if rest x \<noteq> [] \<and> P (hd (rest x)) then [adv 1 x] else [])"
  by (cases "(P, x)" rule: step.cases) (auto simp: adv_def)

abbreviation span :: "(char \<Rightarrow> bool) \<Rightarrow> mst \<Rightarrow> nat" where
  "span P x \<equiv> length (takeWhile P (rest x))"

text \<open>The greedy repetition of a one-character test offers the longest run first, then each
  shorter one.\<close>

lemma star_class:
  assumes "lst \<noteq> Some (pos x)"
  shows "star True None (step P) lst x = map (\<lambda>k. adv k x) (rev [0..<Suc (span P x)])"
  using assms
proof (induction "length (rest x)" arbitrary: x lst)
  case 0
  then show ?case
    by (subst star_unfold [OF step_advances]) (simp_all add: Let_def step_adv)
next
  case (Suc n)
  then obtain c cs where c: "rest x = c # cs" by (cases "rest x") auto
  show ?case
  proof (cases "P c")
    case False
    with c Suc.prems show ?thesis
      by (subst star_unfold [OF step_advances]) (simp_all add: Let_def step_adv)
  next
    case True
    let ?y = "MS (Some c) (Suc (pos x)) cs (grp x)"
    have "star True None (step P) (Some (pos x)) ?y = map (\<lambda>k. adv k ?y) (rev [0..<Suc (span P ?y)])"
      using Suc.hyps(2) c by (intro Suc.hyps(1)) auto
    moreover have "map (\<lambda>k. adv k ?y) ks = map (\<lambda>k. adv k x) (map Suc ks)" for ks
      by (simp add: adv_Suc [OF c])
    ultimately have "star True None (step P) (Some (pos x)) ?y =
        map (\<lambda>k. adv k x) (rev (map Suc [0..<Suc (span P ?y)]))"
      by (simp add: rev_map)
    moreover have "span P x = Suc (span P ?y)"
      using True c by simp
    moreover have "rev [0..<Suc (Suc m)] = rev (map Suc [0..<Suc m]) @ [0]" for m
      by (simp add: map_Suc_upt upt_conv_Cons del: upt_Suc)
    moreover have "step P x = [?y]"
      using True c by (cases x) simp
    ultimately show ?thesis
      using Suc.prems by (subst star_unfold [OF step_advances]) (simp_all add: Let_def del: upt_Suc)
  qed
qed

text \<open>When what follows the run cannot start with a character of the class, only the longest
  run is left to try.\<close>

lemma star_class_seq:
  assumes "\<And>y. rest y \<noteq> [] \<Longrightarrow> P (hd (rest y)) \<Longrightarrow> f y = []"
  shows "concat (map f (star True None (step P) None x)) = f (adv (span P x) x)"
proof -
  have "f (adv k x) = []" if "k < span P x" for k
  proof (rule assms)
    show "rest (adv k x) \<noteq> []"
      using that length_takeWhile_le [of P "rest x"] by simp
    have "P (takeWhile P (rest x) ! k)"
      using that nth_mem set_takeWhileD by metis
    then show "P (hd (rest (adv k x)))"
      using that length_takeWhile_le [of P "rest x"] by (simp add: hd_drop_conv_nth takeWhile_nth)
  qed
  then have "concat (map f (map (\<lambda>k. adv k x) (rev [0..<span P x]))) = []"
    by simp
  then show ?thesis by (simp add: star_class)
qed

section \<open>Match objects\<close>

record mobj =
  m_start :: nat
  m_text :: string
  m_groups :: "(nat \<times> nat \<times> string) list"

definition mk_mobj :: "mst \<Rightarrow> mst \<Rightarrow> mobj" where
  "mk_mobj x y = \<lparr>m_start = pos x, m_text = take (pos y - pos x) (rest x), m_groups = grp y\<rparr>"

definition m_end :: "mobj \<Rightarrow> nat" where
  "m_end m = m_start m + length (m_text m)"

text \<open>\<open>m.group(n)\<close>; \<open>None\<close> for a group that took no part in the match.\<close>

definition group :: "mobj \<Rightarrow> nat \<Rightarrow> string option" where
  "group m n = (if n = 0 then Some (m_text m)
     else map_of (map (\<lambda>(k, i, t). (k, t)) (m_groups m)) n)"

definition run :: "re \<Rightarrow> mst \<Rightarrow> mst option" where
  "run r x = (case matches r x of [] \<Rightarrow> None | y # _ \<Rightarrow> Some y)"

lemma run_code [code]: "run r x = run_k r Some x"
  by (simp add: run_def run_k_first split: list.splits)

definition re_match :: "re \<Rightarrow> string \<Rightarrow> mobj option" where
  "re_match r s = map_option (mk_mobj (init s)) (run r (init s))"

fun search_from :: "re \<Rightarrow> char option \<Rightarrow> nat \<Rightarrow> string \<Rightarrow> mobj option" where
  "search_from r p i s =
     (let x = MS p i s [] in
      case run r x of Some y \<Rightarrow> Some (mk_mobj x y)
      | None \<Rightarrow> (case s of [] \<Rightarrow> None | c # cs \<Rightarrow> search_from r (Some c) (Suc i) cs))"

declare search_from.simps [simp del]

definition re_search :: "re \<Rightarrow> string \<Rightarrow> mobj option" where
  "re_search r s = search_from r None 0 s"

text \<open>\<open>sub\<close> replaces the matches from left to right; after a match of the empty string the next
  one must not be empty at the same place. \<open>rep\<close> computes the replacement of a match.\<close>

definition run_adv :: "bool \<Rightarrow> re \<Rightarrow> mst \<Rightarrow> mst option" where
  "run_adv must r x = (case filter (\<lambda>y. \<not> (must \<and> pos y = pos x)) (matches r x) of
     [] \<Rightarrow> None | y # _ \<Rightarrow> Some y)"

lemma filter_first_some:
  "(case filter P xs of [] \<Rightarrow> None | y # _ \<Rightarrow> Some y) =
     first_some (\<lambda>y. if P y then Some y else None) xs"
  by (induction xs) auto

lemma run_adv_code [code]:
  "run_adv must r x = run_k r (\<lambda>y. if \<not> (must \<and> pos y = pos x) then Some y else None) x"
  unfolding run_adv_def run_k_first filter_first_some by simp

lemma run_adv_matches:
  assumes "run_adv must r x = Some y"
  shows "y \<in> set (matches r x)" "must \<Longrightarrow> pos y \<noteq> pos x"
proof -
  let ?P = "\<lambda>y. \<not> (must \<and> pos y = pos x)"
  obtain ys where "filter ?P (matches r x) = y # ys"
    using assms by (cases "filter ?P (matches r x)") (auto simp: run_adv_def)
  then have "y \<in> set (filter ?P (matches r x))"
    by (simp only: list.set_intros)
  then show "y \<in> set (matches r x)" "must \<Longrightarrow> pos y \<noteq> pos x" by auto
qed

lemmas run_adv_advances = matches_advances [OF run_adv_matches(1)]

function sub_from :: "re \<Rightarrow> (mobj \<Rightarrow> string) \<Rightarrow> bool \<Rightarrow> mst \<Rightarrow> string" where
  "sub_from r rep must x =
     (case run_adv must r x of
        Some y \<Rightarrow> rep (mk_mobj x y) @ sub_from r rep (pos y = pos x) (set_grp [] y)
      | None \<Rightarrow> (case rest x of [] \<Rightarrow> []
          | c # cs \<Rightarrow> c # sub_from r rep False (MS (Some c) (Suc (pos x)) cs [])))"
  by pat_completeness auto
termination
proof (relation "measures [\<lambda>(r, rep, must, x). length (rest x), \<lambda>(r, rep, must, x). if must then 0 else 1]",
    goal_cases)
  case (3 r rep must x y)
  from advances_length [OF run_adv_advances [OF 3]] advances_pos [OF run_adv_advances [OF 3]]
  show ?case
    using run_adv_matches(2) [OF 3] by (cases must) (auto simp: set_grp_def)
qed auto

declare sub_from.simps [simp del]

definition re_sub :: "re \<Rightarrow> (mobj \<Rightarrow> string) \<Rightarrow> string \<Rightarrow> string" where
  "re_sub r rep s = sub_from r rep False (init s)"

text \<open>\<open>finditer\<close> walks over the text in the same way and collects the matches.\<close>

function find_all :: "re \<Rightarrow> bool \<Rightarrow> mst \<Rightarrow> mobj list" where
  "find_all r must x =
     (case run_adv must r x of
        Some y \<Rightarrow> mk_mobj x y # find_all r (pos y = pos x) (set_grp [] y)
      | None \<Rightarrow> (case rest x of [] \<Rightarrow> []
          | c # cs \<Rightarrow> find_all r False (MS (Some c) (Suc (pos x)) cs [])))"
  by pat_completeness auto
termination
proof (relation "measures [\<lambda>(r, must, x). length (rest x), \<lambda>(r, must, x). if must then 0 else 1]",
    goal_cases)
  case (3 r must x y)
  from advances_length [OF run_adv_advances [OF 3]] advances_pos [OF run_adv_advances [OF 3]]
  show ?case
    using run_adv_matches(2) [OF 3] by (cases must) (auto simp: set_grp_def)
qed auto

declare find_all.simps [simp del]

definition re_finditer :: "re \<Rightarrow> string \<Rightarrow> mobj list" where
  "re_finditer r s = find_all r False (init s)"

text \<open>\<open>m.start(n)\<close> for a group that took part in the match, and \<open>split\<close> for a pattern without groups
  that does not match the empty string.\<close>

definition group_start :: "mobj \<Rightarrow> nat \<Rightarrow> nat" where
  "group_start m n = (case map_of (map (\<lambda>(k, i, t). (k, i)) (m_groups m)) n of Some i \<Rightarrow> i | None \<Rightarrow> 0)"

fun pieces :: "nat \<Rightarrow> mobj list \<Rightarrow> string \<Rightarrow> string list" where
  "pieces i [] s = [drop i s]"
| "pieces i (m # ms) s = slice i (m_start m) s # pieces (m_end m) ms s"

definition re_split :: "re \<Rightarrow> string \<Rightarrow> string list" where
  "re_split r s = pieces 0 (re_finditer r s) s"

section \<open>Literal text and searching\<close>

fun lits :: "string \<Rightarrow> re \<Rightarrow> re" where
  "lits [] r = r"
| "lits (c # cs) r = Seq (Lit c) (lits cs r)"

lemma adv_adv: "j + k \<le> length (rest x) \<Longrightarrow> adv k (adv j x) = adv (j + k) x"
  by (auto simp: adv_def add.commute)

lemma matches_Lit: "matches (Lit c) x = (if prefix [c] (rest x) then [adv 1 x] else [])"
  by (cases "rest x") (auto simp: step_adv)

declare matches.simps(2) [simp del] matches.simps(10) [simp del]

text \<open>The one-character tests as steps, in the form in which they occur under a repetition.\<close>

lemma matches_step:
  "matches (Cls p items) = step (cls_has p items)" "matches Any = step (\<lambda>d. d \<noteq> newline)"
  by (simp_all add: fun_eq_iff)

lemma matches_lits:
  "matches (lits u r) x = (if prefix u (rest x) then matches r (adv (length u) x) else [])"
proof (induction u arbitrary: x)
  case Nil
  show ?case by simp
next
  case (Cons c cs)
  show ?case
  proof (cases "prefix [c] (rest x)")
    case True
    then obtain t where t: "rest x = c # t" by (auto simp: prefix_def)
    show ?thesis
      using Cons [of "adv 1 x"] t by (auto simp: matches_Lit adv_adv dest: prefix_length_le)
  next
    case False
    then have "\<not> prefix (c # cs) (rest x)" by (auto simp: prefix_def)
    with False show ?thesis by (simp add: matches_Lit)
  qed
qed

lemma star_Some_0 [simp]: "star g (Some 0) (matches r) lst x = [x]"
  by (subst star_unfold [OF matches_advances]) (simp_all add: Let_def)

lemma matches_opt: "matches (Rep True 0 (Some (Suc 0)) r) x = matches r x @ [x]"
proof -
  have "concat (map (star True (Some 0) (matches r) l) ys) = ys" for l ys
    by (induction ys) auto
  then show ?thesis
    by (simp add: matches_Rep star_unfold [OF matches_advances, where hi = "Some (Suc 0)"])
qed

definition prev_at :: "char option \<Rightarrow> string \<Rightarrow> nat \<Rightarrow> char option" where
  "prev_at p s k = (if k = 0 then p else Some (s ! (k - 1)))"

lemma search_from_skip:
  assumes "\<And>k. k < length u \<Longrightarrow> run r (MS (prev_at p (u @ v) k) (i + k) (drop k (u @ v)) []) = None"
  shows "search_from r p i (u @ v) = search_from r (prev_at p u (length u)) (i + length u) v"
  using assms
proof (induction u arbitrary: p i)
  case Nil
  show ?case by (simp add: prev_at_def)
next
  case (Cons c cs)
  have "run r (MS p i (c # cs @ v) []) = None"
    using Cons.prems [of 0] by (simp add: prev_at_def)
  moreover have "search_from r (Some c) (Suc i) (cs @ v) =
      search_from r (prev_at (Some c) cs (length cs)) (Suc i + length cs) v"
  proof (rule Cons.IH)
    fix k assume "k < length cs"
    then show "run r (MS (prev_at (Some c) (cs @ v) k) (Suc i + k) (drop k (cs @ v)) []) = None"
      using Cons.prems [of "Suc k"] by (cases k) (auto simp: prev_at_def)
  qed
  ultimately show ?case
    by (subst search_from.simps) (cases cs, auto simp: Let_def prev_at_def)
qed

lemma search_from_hit:
  "run r (MS p i s []) = Some y \<Longrightarrow> search_from r p i s = Some (mk_mobj (MS p i s []) y)"
  by (subst search_from.simps) (simp add: Let_def)

text \<open>Where the literal text of a pattern does not occur, the search moves on.\<close>

lemma find_idx_None_iff: "find_idx w s = None \<longleftrightarrow> (\<forall>k \<le> length s. \<not> prefix w (drop k s))"
proof (induction w s rule: find_idx.induct)
  case (1 w s)
  show ?case
  proof (cases s)
    case Nil
    then show ?thesis by (subst find_idx.simps) auto
  next
    case (Cons c cs)
    have "(\<forall>k \<le> length s. \<not> prefix w (drop k s)) \<longleftrightarrow>
        \<not> prefix w s \<and> (\<forall>k \<le> length cs. \<not> prefix w (drop k cs))"
      by (simp only: less_Suc_eq_le [symmetric] Cons list.size add_Suc_right add_0_right
          All_less_Suc2 drop_0 drop_Suc_Cons)
    then show ?thesis
      using "1.IH" [of c cs] Cons by (subst find_idx.simps) auto
  qed
qed

lemma no_occurrence_across:
  assumes "find_idx w u = None" "v \<noteq> []" "hd v \<notin> set w" "k < length u"
  shows "\<not> prefix w (drop k (u @ v))"
proof
  assume w: "prefix w (drop k (u @ v))"
  show False
  proof (cases "length w \<le> length u - k")
    case True
    with w assms(4) have "prefix w (drop k u)"
      by (auto intro: prefix_length_prefix)
    with assms(1,4) show False by (auto simp: find_idx_None_iff)
  next
    case False
    obtain zs where "drop k (u @ v) = w @ zs" using w by (auto simp: prefix_def)
    with False have "w ! (length u - k) = drop k (u @ v) ! (length u - k)"
      by (simp only: nth_append) simp
    also have "\<dots> = hd v" using assms(2,4) by (simp add: nth_append hd_conv_nth)
    finally show False using assms(3) False by (metis nth_mem not_le)
  qed
qed

section \<open>Shape of a match\<close>

text \<open>Patterns without groups leave the captured groups alone, and every pattern consumes at
  least \<open>minlen\<close> characters.\<close>

fun nogrp :: "re \<Rightarrow> bool" where
  "nogrp (Seq r s) = (nogrp r \<and> nogrp s)"
| "nogrp (Alt r s) = (nogrp r \<and> nogrp s)"
| "nogrp (Rep g lo hi r) = nogrp r"
| "nogrp (Grp n r) = False"
| "nogrp (Look p r) = nogrp r"
| "nogrp r = True"

fun minlen :: "re \<Rightarrow> nat" where
  "minlen (Lit c) = 1"
| "minlen Any = 1"
| "minlen (Cls p items) = 1"
| "minlen (Seq r s) = minlen r + minlen s"
| "minlen (Alt r s) = min (minlen r) (minlen s)"
| "minlen (Rep g lo hi r) = lo * minlen r"
| "minlen (Grp n r) = minlen r"
| "minlen r = 0"

lemma step_grp: "y \<in> set (step P x) \<Longrightarrow> grp y = grp x \<and> pos y = Suc (pos x)"
  by (cases "(P, x)" rule: step.cases) (auto split: if_splits)

lemma steps_grp: "y \<in> set (steps t x) \<Longrightarrow> grp y = grp x"
  by (induction t arbitrary: x) (auto dest: step_grp)

lemma times_grp:
  assumes "\<And>x y. y \<in> set (b x) \<Longrightarrow> grp y = grp x"
  shows "y \<in> set (times n b x) \<Longrightarrow> grp y = grp x"
  by (induction n arbitrary: x) (auto dest: assms)

lemma optional_grp:
  assumes "\<And>x y. y \<in> set (b x) \<Longrightarrow> grp y = grp x"
  shows "y \<in> set (optional f g hi b lst x) \<Longrightarrow> grp y = grp x"
  by (induction f arbitrary: x hi lst) (auto simp: Let_def dest: assms split: if_splits)

lemma matches_grp: "nogrp r \<Longrightarrow> y \<in> set (matches r x) \<Longrightarrow> grp y = grp x"
proof (induction r arbitrary: x y)
  case (Rep g lo hi r)
  then have r: "\<And>x y. y \<in> set (matches r x) \<Longrightarrow> grp y = grp x" by simp
  from Rep.prems(2) obtain z where "z \<in> set (times lo (matches r) x)"
    "y \<in> set (star g (map_option (\<lambda>n. n - lo) hi) (matches r) None z)"
    by (auto simp: matches_Rep)
  then show ?case
    using times_grp [of "matches r", OF r] optional_grp [of "matches r", OF r]
    by (simp add: star_def)
next
  case (Look p r)
  have "matches r x = z # zs \<Longrightarrow> grp z = grp x" for z zs
    using Look.IH [of z x] Look.prems(1) by simp
  with Look.prems show ?case by (auto simp: set_grp_def split: list.splits if_splits)
next
  case (Lit c)
  then show ?case by (auto simp: matches.simps dest: step_grp)
qed (auto dest: step_grp steps_grp split: if_splits option.splits)

lemma times_minlen:
  assumes "\<And>x y. y \<in> set (b x) \<Longrightarrow> pos x + k \<le> pos y"
  shows "y \<in> set (times n b x) \<Longrightarrow> pos x + n * k \<le> pos y"
proof (induction n arbitrary: x)
  case 0
  then show ?case by simp
next
  case (Suc n)
  then obtain z where "z \<in> set (b x)" "y \<in> set (times n b z)" by auto
  with assms [of z x] Suc.IH [of z] show ?case by simp
qed

lemma matches_minlen: "y \<in> set (matches r x) \<Longrightarrow> pos x + minlen r \<le> pos y"
proof (induction r arbitrary: x y)
  case (Rep g lo hi r)
  from Rep.prems obtain z where z: "z \<in> set (times lo (matches r) x)"
    "y \<in> set (star g (map_option (\<lambda>n. n - lo) hi) (matches r) None z)"
    by (auto simp: matches_Rep)
  from times_minlen [of "matches r", OF Rep.IH z(1)]
    advances_pos [OF optional_advances [of "matches r", OF matches_advances z(2) [unfolded star_def]]]
  show ?case by (simp add: le_trans)
next
  case (Seq r s)
  then obtain z where "z \<in> set (matches r x)" "y \<in> set (matches s z)" by auto
  with Seq.IH(1) [of z x] Seq.IH(2) [of y z] show ?case by simp
next
  case (Lit c)
  then show ?case by (auto simp: matches.simps dest: step_grp)
next
  case (Grp n r)
  then show ?case by (auto simp: capture_def set_grp_def)
next
  case (Alt r s)
  then have "pos x + minlen r \<le> pos y \<or> pos x + minlen s \<le> pos y" by auto
  then show ?case by auto
qed (auto dest: step_grp advances_pos [OF steps_advances] split: if_splits list.splits option.splits
    simp: set_grp_def)

text \<open>The shape of a match of a sequence, group or assertion.\<close>

lemma in_Seq:
  "y \<in> set (matches (Seq r s) x) \<longleftrightarrow> (\<exists>z. z \<in> set (matches r x) \<and> y \<in> set (matches s z))"
  by auto

lemma in_Grp:
  "y \<in> set (matches (Grp n r) x) \<longleftrightarrow> (\<exists>z. z \<in> set (matches r x) \<and> y = capture n x z)"
  by auto

lemma in_Bol: "y \<in> set (matches Bol x) \<longleftrightarrow> y = x \<and> pos x = 0"
  by (cases "pos x = 0") auto

lemma in_Eol: "y \<in> set (matches Eol x) \<longleftrightarrow> y = x \<and> at_end x"
  by (cases "at_end x") auto

lemma in_WordB: "y \<in> set (matches (WordB p) x) \<longleftrightarrow> y = x \<and> at_word_boundary x = p"
  by (cases "at_word_boundary x = p") auto

lemmas in_matches = in_Seq in_Grp in_Bol in_Eol in_WordB

lemma capture_sel [simp]:
  "pos (capture n x y) = pos y" "rest (capture n x y) = rest y" "prv (capture n x y) = prv y"
  "grp (capture n x y) = (n, pos x, take (pos y - pos x) (rest x)) # grp y"
  by (simp_all add: capture_def set_grp_def)

lemma run_matches: "run r x = Some y \<Longrightarrow> y \<in> set (matches r x)"
  by (auto simp: run_def split: list.splits)

lemma search_from_Some:
  "search_from r p i s = Some m \<Longrightarrow>
     \<exists>k \<le> length s. m_start m = i + k \<and> prefix (m_text m) (drop k s) \<and> minlen r \<le> length (m_text m)"
proof (induction s arbitrary: p i)
  case Nil
  then obtain y where y: "run r (MS p i [] []) = Some y" "m = mk_mobj (MS p i [] []) y"
    by (subst (asm) search_from.simps) (auto simp: Let_def split: option.splits)
  from matches_minlen [OF run_matches [OF y(1)]]
    advances_length [OF matches_advances [OF run_matches [OF y(1)]]] y(2)
  show ?case by (simp add: mk_mobj_def)
next
  case (Cons c cs)
  show ?case
  proof (cases "run r (MS p i (c # cs) [])")
    case None
    with Cons.prems have "search_from r (Some c) (Suc i) cs = Some m"
      by (subst (asm) search_from.simps) (simp add: Let_def)
    from Cons.IH [OF this] obtain k where "k \<le> length cs" "m_start m = Suc i + k"
      "prefix (m_text m) (drop k cs)" "minlen r \<le> length (m_text m)" by blast
    then show ?thesis by (intro exI [of _ "Suc k"]) simp
  next
    case (Some y)
    with Cons.prems have m: "m = mk_mobj (MS p i (c # cs) []) y"
      by (subst (asm) search_from.simps) (simp add: Let_def)
    from matches_minlen [OF run_matches [OF Some]]
      advances_length [OF matches_advances [OF run_matches [OF Some]]]
    show ?thesis unfolding m
      by (intro exI [of _ 0]) (auto simp: mk_mobj_def take_is_prefix)
  qed
qed

lemma search_from_run:
  "search_from r p i s = Some m \<Longrightarrow>
     \<exists>k \<le> length s. \<exists>q y. y \<in> set (matches r (MS q (i + k) (drop k s) []))"
proof (induction s arbitrary: p i)
  case Nil
  then show ?case
    by (subst (asm) search_from.simps) (auto simp: Let_def split: option.splits dest!: run_matches)
next
  case (Cons c cs)
  show ?case
  proof (cases "run r (MS p i (c # cs) [])")
    case None
    with Cons.prems have "search_from r (Some c) (Suc i) cs = Some m"
      by (subst (asm) search_from.simps) (simp add: Let_def)
    from Cons.IH [OF this] show ?thesis by fastforce
  next
    case (Some y)
    from run_matches [OF this] show ?thesis by (intro exI [of _ 0]) auto
  qed
qed

lemma re_search_minlen: "re_search r s = Some m \<Longrightarrow> minlen r \<le> length s"
  unfolding re_search_def
  by (drule search_from_Some) (auto dest!: prefix_length_le)

section \<open>Common shapes of patterns\<close>

text \<open>A captured run of a class, followed by something that cannot start inside the class.\<close>

lemma matches_captured_run:
  assumes "\<And>y. rest y \<noteq> [] \<Longrightarrow> cls_has p items (hd (rest y)) \<Longrightarrow> matches r y = []"
  shows "matches (Seq (Grp n (Rep True 0 None (Cls p items))) r) x =
    matches r (capture n x (adv (span (cls_has p items) x) x))"
proof -
  let ?f = "\<lambda>z. matches r (capture n x z)"
  have "concat (map ?f (star True None (step (cls_has p items)) None x)) =
      ?f (adv (span (cls_has p items) x) x)"
    by (rule star_class_seq) (auto intro: assms)
  then show ?thesis by (simp add: matches_Rep matches_step comp_def del: matches.simps(4))
qed

lemma matches_run:
  assumes "\<And>y. rest y \<noteq> [] \<Longrightarrow> cls_has p items (hd (rest y)) \<Longrightarrow> matches r y = []"
  shows "matches (Seq (Rep True 0 None (Cls p items)) r) x =
    matches r (adv (span (cls_has p items) x) x)"
  using star_class_seq [of "cls_has p items" "matches r" x] assms
  by (simp add: matches_Rep matches_step del: matches.simps(4))

text \<open>\<open>(.*)$\<close> takes the rest of a line.\<close>

lemma matches_rest:
  assumes "newline \<notin> set (rest x)"
  shows "matches (Seq (Grp n (Rep True 0 None Any)) Eol) x =
    [capture n x (adv (length (rest x)) x)]"
proof -
  let ?P = "\<lambda>d. d \<noteq> newline"
  let ?f = "\<lambda>z. matches Eol (capture n x z)"
  have "concat (map ?f (star True None (step ?P) None x)) = ?f (adv (span ?P x) x)"
    by (rule star_class_seq) (auto simp: at_end_def)
  moreover have "takeWhile ?P (rest x) = rest x"
    using assms by (auto simp: takeWhile_eq_all_conv)
  ultimately have "concat (map ?f (star True None (step ?P) None x)) =
      [capture n x (adv (length (rest x)) x)]"
    by (simp add: at_end_def)
  then show ?thesis
    by (simp add: matches_Rep matches_step comp_def del: matches.simps(3) matches.simps(6))
qed

lemma star_zero: "x \<in> set (star g hi (matches r) lst x)"
  by (subst star_unfold [OF matches_advances]) (auto simp: Let_def)

lemma matches_Any_newline:
  "y \<in> set (matches (Rep True 0 None Any) x) \<Longrightarrow> newline \<notin> set (take (pos y - pos x) (rest x))"
proof -
  let ?P = "\<lambda>d. d \<noteq> newline"
  assume "y \<in> set (matches (Rep True 0 None Any) x)"
  then have "y \<in> (\<lambda>k. adv k x) ` {0..<Suc (span ?P x)}"
    by (simp add: matches_Rep matches_step star_class del: matches.simps(3) upt_Suc)
  then obtain k where k: "k \<le> span ?P x" "y = adv k x"
    by (auto simp: less_Suc_eq_le)
  then have "take k (rest x) = take k (takeWhile ?P (rest x))"
    by (metis append_take_drop_id dropWhile_eq_drop take_append takeWhile_dropWhile_id
        diff_is_0_eq take0 append_Nil2)
  then have "set (take k (rest x)) \<subseteq> set (takeWhile ?P (rest x))"
    by (metis set_take_subset)
  then show ?thesis using k(2) by (auto dest: set_takeWhileD)
qed

text \<open>Substitution leaves a text alone in which the pattern does not match anywhere.\<close>

lemma sub_from_absent:
  "(\<And>k p i. k \<le> length s \<Longrightarrow> matches r (MS p i (drop k s) []) = []) \<Longrightarrow>
     sub_from r rep must (MS p i s []) = s"
proof (induction s arbitrary: p i must)
  case Nil
  then show ?case by (subst sub_from.simps) (simp add: run_adv_def)
next
  case (Cons c cs)
  have "matches r (MS p i (drop k cs) []) = []" if "k \<le> length cs" for k p i
    using Cons.prems [of "Suc k"] that by simp
  from Cons.IH [OF this] Cons.prems [of 0] show ?case
    by (subst sub_from.simps) (simp add: run_adv_def)
qed

lemma re_sub_absent:
  "(\<And>k p i. k \<le> length s \<Longrightarrow> matches r (MS p i (drop k s) []) = []) \<Longrightarrow> re_sub r rep s = s"
  unfolding re_sub_def init_def by (rule sub_from_absent)

text \<open>A pattern all of whose matches contain a literal text.\<close>

definition needs :: "string \<Rightarrow> re \<Rightarrow> bool" where
  "needs w r \<longleftrightarrow> (\<forall>x. matches r x \<noteq> [] \<longrightarrow> (\<exists>u v. rest x = u @ w @ v))"

lemma needs_lits: "needs w (lits w r)"
  by (auto simp: needs_def matches_lits prefix_def split: if_splits) (metis append_Nil)

lemma needs_Seq: "needs w s \<Longrightarrow> needs w (Seq r s)"
  unfolding needs_def
proof (intro allI impI)
  fix x assume s: "\<forall>x. matches s x \<noteq> [] \<longrightarrow> (\<exists>u v. rest x = u @ w @ v)" and "matches (Seq r s) x \<noteq> []"
  then obtain y where "y \<in> set (matches (Seq r s) x)" by (metis list.set_sel(1))
  then obtain z where z: "z \<in> set (matches r x)" "y \<in> set (matches s z)" by (auto simp: in_Seq)
  then obtain u v where "rest z = u @ w @ v" using s by (metis empty_iff empty_set)
  moreover obtain u' where "rest x = u' @ rest z" using matches_advances [OF z(1)] by (auto simp: advances_def)
  ultimately show "\<exists>u v. rest x = u @ w @ v" by (metis append_assoc)
qed

lemma needs_Alt: "needs w r \<Longrightarrow> needs w s \<Longrightarrow> needs w (Alt r s)"
  by (auto simp: needs_def)

lemma needs_Grp: "needs w r \<Longrightarrow> needs w (Grp n r)"
  by (auto simp: needs_def)

lemma re_sub_needs: "needs w r \<Longrightarrow> find_idx w s = None \<Longrightarrow> re_sub r rep s = s"
proof (rule re_sub_absent, rule ccontr)
  fix k p i
  assume "needs w r" "find_idx w s = None" "k \<le> length s" "matches r (MS p i (drop k s) []) \<noteq> []"
  then obtain u v where uv: "drop k s = u @ w @ v" unfolding needs_def by (metis mst.sel(3))
  then have "drop (length u) (drop k s) = w @ v" by simp
  then have "prefix w (drop (k + length u) s)" by (simp add: prefix_def add.commute)
  moreover have "k + length u \<le> length s"
    using arg_cong [OF uv, of length] \<open>k \<le> length s\<close> by simp
  ultimately show False using \<open>find_idx w s = None\<close> by (auto simp: find_idx_None_iff)
qed

end
