(* ===== verification/Lint_State.thy ===== *)
theory Lint_State
  imports Py_Match "HOL-Library.AList" "HOL-Library.List_Lexorder"
    "HOL-Library.Product_Lexorder"
begin

text \<open>
  The module-wide state of the linter (\<open>build_support/cpplint.py\<close>): the class
  \<open>_CppLintState\<close>, the NOLINT suppressions, the file extensions, the category filters, and the
  function \<open>Error\<close> through which every check reports. A call \<open>error(filename, linenum,
  category, confidence, message)\<close> is a value of type \<open>report\<close>; a check returns the reports it
  makes in order, and \<open>emit\<close> passes them to the error function one by one. The filters decide
  what is shown: the last filter that matches a category wins. The locale \<open>reporter\<close> is the
  contract between the checks and \<open>Error\<close>.
\<close>

section \<open>Categories\<close>

definition ERROR_CATEGORIES :: "string list" where
  "ERROR_CATEGORIES = [
     ''build/class'', ''build/c++11'', ''build/c++14'', ''build/c++tr1'',
     ''build/deprecated'', ''build/endif_comment'', ''build/explicit_make_pair'',
     ''build/forward_decl'', ''build/header_guard'', ''build/include'',
     ''build/include_subdir'', ''build/include_alpha'', ''build/include_order'',
     ''build/include_what_you_use'', ''build/namespaces_literals'', ''build/namespaces'',
     ''build/printf_format'', ''build/storage_class'', ''legal/copyright'',
     ''readability/alt_tokens'', ''readability/braces'', ''readability/casting'',
     ''readability/check'', ''readability/constructors'', ''readability/fn_size'',
     ''readability/inheritance'', ''readability/multiline_comment'',
     ''readability/multiline_string'', ''readability/namespace'', ''readability/nolint'',
     ''readability/nul'', ''readability/strings'', ''readability/todo'',
     ''readability/utf8'', ''runtime/arrays'', ''runtime/casting'', ''runtime/explicit'',
     ''runtime/int'', ''runtime/init'', ''runtime/invalid_increment'',
     ''runtime/member_string_references'', ''runtime/memset'',
     ''runtime/indentation_namespace'', ''runtime/operator'', ''runtime/printf'',
     ''runtime/printf_format'', ''runtime/references'', ''runtime/string'',
     ''runtime/threadsafe_fn'', ''runtime/vlog'', ''whitespace/blank_line'',
     ''whitespace/braces'', ''whitespace/comma'', ''whitespace/comments'',
     ''whitespace/empty_conditional_body'', ''whitespace/empty_if_body'',
     ''whitespace/empty_loop_body'', ''whitespace/end_of_line'',
     ''whitespace/ending_newline'', ''whitespace/forcolon'', ''whitespace/indent'',
     ''whitespace/line_length'', ''whitespace/newline'', ''whitespace/operators'',
     ''whitespace/parens'', ''whitespace/semicolon'', ''whitespace/tab'',
     ''whitespace/todo'']"

definition LEGACY_ERROR_CATEGORIES :: "string list" where
  "LEGACY_ERROR_CATEGORIES = [
     ''readability/streams'', ''readability/function'']"

definition DEFAULT_FILTERS :: "string list" where
  "DEFAULT_FILTERS = [
     ''-build/include_alpha'']"

definition DEFAULT_C_SUPPRESSED_CATEGORIES :: "string list" where
  "DEFAULT_C_SUPPRESSED_CATEGORIES = [
     ''readability/casting'']"

definition DEFAULT_KERNEL_SUPPRESSED_CATEGORIES :: "string list" where
  "DEFAULT_KERNEL_SUPPRESSED_CATEGORIES = [
     ''whitespace/tab'']"


section \<open>State\<close>

record CppLintState =
  verbose_level :: int
  error_count :: int
  filters :: "string list"
  filters_backup :: "string list"
  counting :: string
  errors_by_category :: "(string \<times> int) list"
  quiet :: bool
  output_format :: string
  junit_errors :: "string list"
  junit_failures :: "(string \<times> int option \<times> string \<times> string \<times> int) list"

definition new_CppLintState :: CppLintState where
  "new_CppLintState = \<lparr>verbose_level = 1, error_count = 0, filters = DEFAULT_FILTERS,
     filters_backup = DEFAULT_FILTERS, counting = ''total'', errors_by_category = [],
     quiet = False, output_format = ''emacs'', junit_errors = [], junit_failures = []\<rparr>"

text \<open>The other globals of the module, and what was written to the two output streams.
  \<open>quiet_global\<close> is the module variable \<open>_quiet\<close>.\<close>

type_synonym suppressions = "string option \<rightharpoonup> int set"

record world =
  cpplint_state :: CppLintState
  error_suppressions :: suppressions
  global_error_suppressions :: "string \<rightharpoonup> bool"
  valid_extensions :: "string set"
  hpp_headers :: "string set"
  root_flag :: "string option"
  repository :: "string option"
  excludes :: "string set option"
  quiet_global :: bool
  line_length :: int
  stderr :: "string list"
  stdout :: "string list"

definition new_world :: world where
  "new_world = \<lparr>cpplint_state = new_CppLintState, error_suppressions = Map.empty,
     global_error_suppressions = Map.empty, valid_extensions = {}, hpp_headers = {},
     root_flag = None, repository = None, excludes = None, quiet_global = False,
     line_length = 80, stderr = [], stdout = []\<rparr>"

abbreviation on_state :: "(CppLintState \<Rightarrow> CppLintState) \<Rightarrow> world \<Rightarrow> world" where
  "on_state f w \<equiv> w\<lparr>cpplint_state := f (cpplint_state w)\<rparr>"

section \<open>\<open>_CppLintState\<close>\<close>

definition CppLintState_SetOutputFormat :: "string \<Rightarrow> CppLintState \<Rightarrow> CppLintState" where
  "CppLintState_SetOutputFormat fmt s = s\<lparr>output_format := fmt\<rparr>"

definition CppLintState_SetQuiet :: "bool \<Rightarrow> CppLintState \<Rightarrow> bool \<times> CppLintState" where
  "CppLintState_SetQuiet q s = (quiet s, s\<lparr>quiet := q\<rparr>)"

definition CppLintState_SetVerboseLevel :: "int \<Rightarrow> CppLintState \<Rightarrow> int \<times> CppLintState" where
  "CppLintState_SetVerboseLevel level s = (verbose_level s, s\<lparr>verbose_level := level\<rparr>)"

definition CppLintState_SetCountingStyle :: "string \<Rightarrow> CppLintState \<Rightarrow> CppLintState" where
  "CppLintState_SetCountingStyle style s = s\<lparr>counting := style\<rparr>"

text \<open>A filter must start with a sign. \<open>AddFilters\<close> appends the new filters before it checks
  all of them, so the state keeps them when it raises.\<close>

definition signed :: "string \<Rightarrow> bool" where
  "signed filt \<longleftrightarrow> startswith filt ''+'' \<or> startswith filt ''-''"

definition CppLintState_AddFilters :: "string \<Rightarrow> CppLintState \<Rightarrow> unit res \<times> CppLintState" where
  "CppLintState_AddFilters fs s =
     (let s' = s\<lparr>filters := filters s @ filter (\<lambda>f. f \<noteq> []) (map strip (split_on CHR '','' fs))\<rparr>
      in (case filter (Not \<circ> signed) (filters s') of
            [] \<Rightarrow> Inr ()
          | filt # _ \<Rightarrow> Inl (ValueError (''Every filter in --filters must start with + or - ('' @
              filt @ '' does not)'')), s'))"

definition CppLintState_SetFilters :: "string \<Rightarrow> CppLintState \<Rightarrow> unit res \<times> CppLintState" where
  "CppLintState_SetFilters fs s = CppLintState_AddFilters fs (s\<lparr>filters := DEFAULT_FILTERS\<rparr>)"

definition CppLintState_BackupFilters :: "CppLintState \<Rightarrow> CppLintState" where
  "CppLintState_BackupFilters s = s\<lparr>filters_backup := filters s\<rparr>"

definition CppLintState_RestoreFilters :: "CppLintState \<Rightarrow> CppLintState" where
  "CppLintState_RestoreFilters s = s\<lparr>filters := filters_backup s\<rparr>"

definition ResetErrorCounts :: "CppLintState \<Rightarrow> CppLintState" where
  "ResetErrorCounts s = s\<lparr>error_count := 0, errors_by_category := []\<rparr>"

definition dict_bump :: "string \<Rightarrow> (string \<times> int) list \<Rightarrow> (string \<times> int) list" where
  "dict_bump k d = AList.update k ((case map_of d k of None \<Rightarrow> 0 | Some n \<Rightarrow> n) + 1) d"

definition IncrementErrorCount :: "string \<Rightarrow> CppLintState \<Rightarrow> CppLintState" where
  "IncrementErrorCount category s =
     (let s = s\<lparr>error_count := error_count s + 1\<rparr>
      in if counting s \<in> {''toplevel'', ''detailed''}
         then let cat = (if counting s \<noteq> ''detailed'' then hd (split_on CHR ''/'' category)
                         else category)
              in s\<lparr>errors_by_category := dict_bump cat (errors_by_category s)\<rparr>
         else s)"

definition PrintInfo :: "string \<Rightarrow> world \<Rightarrow> world" where
  "PrintInfo message w =
     (if \<not> quiet_global w \<and> output_format (cpplint_state w) \<noteq> ''junit''
      then w\<lparr>stdout := stdout w @ [message]\<rparr> else w)"

definition PrintErrorCounts :: "world \<Rightarrow> world" where
  "PrintErrorCounts w =
     (let w = fold (\<lambda>(category, count). PrintInfo (''Category '' @ [squote] @ category @
                 [squote] @ '' errors found: '' @ str_int count @ [newline]))
               (sort (errors_by_category (cpplint_state w))) w
      in if error_count (cpplint_state w) > 0
         then PrintInfo (''Total errors found: '' @ str_int (error_count (cpplint_state w)) @
           [newline]) w
         else w)"

definition PrintError :: "string \<Rightarrow> world \<Rightarrow> world" where
  "PrintError message w =
     (if output_format (cpplint_state w) = ''junit''
      then on_state (\<lambda>s. s\<lparr>junit_errors := junit_errors s @ [message]\<rparr>) w
      else w\<lparr>stderr := stderr w @ [message]\<rparr>)"

definition AddJUnitFailure ::
  "string \<Rightarrow> int option \<Rightarrow> string \<Rightarrow> string \<Rightarrow> int \<Rightarrow> CppLintState \<Rightarrow> CppLintState" where
  "AddJUnitFailure filename linenum message category confidence s =
     s\<lparr>junit_failures := junit_failures s @ [(filename, linenum, message, category, confidence)]\<rparr>"

text \<open>The module's accessors of the one instance.\<close>

definition OutputFormat :: "world \<Rightarrow> string" where
  "OutputFormat w = output_format (cpplint_state w)"

definition SetOutputFormat :: "string \<Rightarrow> world \<Rightarrow> world" where
  "SetOutputFormat fmt w = on_state (CppLintState_SetOutputFormat fmt) w"

definition Quiet :: "world \<Rightarrow> bool" where
  "Quiet w = quiet (cpplint_state w)"

definition SetQuiet :: "bool \<Rightarrow> world \<Rightarrow> bool \<times> world" where
  "SetQuiet q w = (case CppLintState_SetQuiet q (cpplint_state w) of
     (old, s) \<Rightarrow> (old, w\<lparr>cpplint_state := s\<rparr>))"

definition VerboseLevel :: "world \<Rightarrow> int" where
  "VerboseLevel w = verbose_level (cpplint_state w)"

definition SetVerboseLevel :: "int \<Rightarrow> world \<Rightarrow> int \<times> world" where
  "SetVerboseLevel level w = (case CppLintState_SetVerboseLevel level (cpplint_state w) of
     (old, s) \<Rightarrow> (old, w\<lparr>cpplint_state := s\<rparr>))"

definition SetCountingStyle :: "string \<Rightarrow> world \<Rightarrow> world" where
  "SetCountingStyle style w = on_state (CppLintState_SetCountingStyle style) w"

definition Filters :: "world \<Rightarrow> string list" where
  "Filters w = filters (cpplint_state w)"

definition SetFilters :: "string \<Rightarrow> world \<Rightarrow> unit res \<times> world" where
  "SetFilters fs w = (case CppLintState_SetFilters fs (cpplint_state w) of
     (r, s) \<Rightarrow> (r, w\<lparr>cpplint_state := s\<rparr>))"

definition AddFilters :: "string \<Rightarrow> world \<Rightarrow> unit res \<times> world" where
  "AddFilters fs w = (case CppLintState_AddFilters fs (cpplint_state w) of
     (r, s) \<Rightarrow> (r, w\<lparr>cpplint_state := s\<rparr>))"

definition BackupFilters :: "world \<Rightarrow> world" where
  "BackupFilters w = on_state CppLintState_BackupFilters w"

definition RestoreFilters :: "world \<Rightarrow> world" where
  "RestoreFilters w = on_state CppLintState_RestoreFilters w"

section \<open>File extensions\<close>

definition ProcessHppHeadersOption :: "string \<Rightarrow> world \<Rightarrow> world" where
  "ProcessHppHeadersOption val w = w\<lparr>hpp_headers := set (map strip (split_on CHR '','' val))\<rparr>"

definition ProcessExtensionsOption :: "string \<Rightarrow> world \<Rightarrow> world" where
  "ProcessExtensionsOption val w = w\<lparr>valid_extensions := set (map strip (split_on CHR '','' val))\<rparr>"

definition GetHeaderExtensions :: "world \<Rightarrow> string set" where
  "GetHeaderExtensions w =
     (if hpp_headers w \<noteq> {} then hpp_headers w
      else if valid_extensions w \<noteq> {} then Set.filter (\<lambda>h. CHR ''h'' \<in> set h) (valid_extensions w)
      else set [''h'', ''hh'', ''hpp'', ''hxx'', ''h++'', ''cuh''])"

definition IsHeaderExtension :: "string \<Rightarrow> world \<Rightarrow> bool" where
  "IsHeaderExtension file_extension w \<longleftrightarrow> file_extension \<in> GetHeaderExtensions w"

definition GetAllExtensions :: "world \<Rightarrow> string set" where
  "GetAllExtensions w = GetHeaderExtensions w \<union>
     (if valid_extensions w \<noteq> {} then valid_extensions w
      else set [''c'', ''cc'', ''cpp'', ''cxx'', ''c++'', ''cu''])"

definition GetNonHeaderExtensions :: "world \<Rightarrow> string set" where
  "GetNonHeaderExtensions w = GetAllExtensions w - GetHeaderExtensions w"

definition IsSourceExtension :: "string \<Rightarrow> world \<Rightarrow> bool" where
  "IsSourceExtension s w \<longleftrightarrow> s \<in> GetNonHeaderExtensions w"

section \<open>Patterns\<close>

text \<open>The functions \<open>Match\<close>, \<open>Search\<close> and \<open>ReplaceAll\<close> compile a pattern and apply it; the
  cache of compiled patterns only saves time. A pattern that does not compile matches nothing.\<close>

definition Match :: "re \<Rightarrow> string \<Rightarrow> mobj option" where
  "Match pattern s = re_match pattern s"

definition Search :: "re \<Rightarrow> string \<Rightarrow> mobj option" where
  "Search pattern s = re_search pattern s"

definition ReplaceAll :: "re \<Rightarrow> string \<Rightarrow> string \<Rightarrow> string" where
  "ReplaceAll pattern rep s = re_sub pattern (\<lambda>_. rep) s"

abbreviation matched :: "mobj option \<Rightarrow> bool" where
  "matched m \<equiv> m \<noteq> None"

section \<open>Reports and suppressions\<close>

text \<open>A report names a line, or \<open>None\<close> instead: \<open>CheckHeaderFileIncluded\<close> does so for a file without
  any include.\<close>

datatype report = ReportAt (r_filename: string) (r_linenum: "int option") (r_category: string)
  (r_confidence: int) (r_message: string)

abbreviation Report :: "string \<Rightarrow> int \<Rightarrow> string \<Rightarrow> int \<Rightarrow> string \<Rightarrow> report" where
  "Report filename linenum \<equiv> ReportAt filename (Some linenum)"

definition str_linenum :: "int option \<Rightarrow> string" where
  "str_linenum linenum = (case linenum of None \<Rightarrow> ''None'' | Some l \<Rightarrow> str_int l)"

definition suppress :: "string option \<Rightarrow> int \<Rightarrow> suppressions \<Rightarrow> suppressions" where
  "suppress k l d = d(k \<mapsto> insert l (case d k of None \<Rightarrow> {} | Some ls \<Rightarrow> ls))"

definition ParseNolintSuppressions ::
  "string \<Rightarrow> string \<Rightarrow> int \<Rightarrow> suppressions \<Rightarrow> suppressions \<times> report list" where
  \<open>ParseNolintSuppressions filename raw_line linenum d =
     (case Search (rx ''`bNOLINT(NEXTLINE)?`b(`([^)]+`))?'') raw_line of
        None \<Rightarrow> (d, [])
      | Some m \<Rightarrow>
        let suppressed_line = (if group m 1 \<notin> {None, Some []} then linenum + 1 else linenum)
        in case group m 2 of
             None \<Rightarrow> (suppress None suppressed_line d, [])
           | Some category \<Rightarrow>
             if category = ''(*)'' then (suppress None suppressed_line d, [])
             else if startswith category ''('' \<and> endswith category '')''
             then let category = butlast (tl category)
                  in if category \<in> set ERROR_CATEGORIES
                     then (suppress (Some category) suppressed_line d, [])
                     else if category \<notin> set LEGACY_ERROR_CATEGORIES
                     then (d, [Report filename linenum ''readability/nolint'' 5
                             (''Unknown NOLINT error category: '' @ category)])
                     else (d, [])
             else (d, []))\<close>

definition SEARCH_C_FILE :: re where
  \<open>SEARCH_C_FILE = rx (''`b(?:LINT_C_FILE|'' @ ''vim?:`s*.*(`s*|:)filetype=c(`s*|:|$))'')\<close>

definition SEARCH_KERNEL_FILE :: re where
  \<open>SEARCH_KERNEL_FILE = rx ''`b(?:LINT_KERNEL_FILE)''\<close>

definition suppress_globally :: "string list \<Rightarrow> (string \<rightharpoonup> bool) \<Rightarrow> (string \<rightharpoonup> bool)" where
  "suppress_globally cats g = fold (\<lambda>c g. g(c \<mapsto> True)) cats g"

fun ProcessGlobalSuppresions :: "string list \<Rightarrow> (string \<rightharpoonup> bool) \<Rightarrow> (string \<rightharpoonup> bool)" where
  "ProcessGlobalSuppresions [] g = g"
| "ProcessGlobalSuppresions (line # lines) g =
     (let g = (if matched (re_search SEARCH_C_FILE line)
               then suppress_globally DEFAULT_C_SUPPRESSED_CATEGORIES g else g);
          g = (if matched (re_search SEARCH_KERNEL_FILE line)
               then suppress_globally DEFAULT_KERNEL_SUPPRESSED_CATEGORIES g else g)
      in ProcessGlobalSuppresions lines g)"

definition ResetNolintSuppressions :: "world \<Rightarrow> world" where
  "ResetNolintSuppressions w =
     w\<lparr>error_suppressions := Map.empty, global_error_suppressions := Map.empty\<rparr>"

definition IsErrorSuppressedByNolint :: "string \<Rightarrow> int option \<Rightarrow> world \<Rightarrow> bool" where
  "IsErrorSuppressedByNolint category linenum w \<longleftrightarrow>
     (case global_error_suppressions w category of None \<Rightarrow> False | Some b \<Rightarrow> b) \<or>
     linenum \<in> Some ` (case error_suppressions w (Some category) of None \<Rightarrow> {} | Some ls \<Rightarrow> ls) \<or>
     linenum \<in> Some ` (case error_suppressions w None of None \<Rightarrow> {} | Some ls \<Rightarrow> ls)"

section \<open>Reporting\<close>

text \<open>The loop over the filters of \<open>_ShouldPrintError\<close>, with \<open>is_filtered\<close> as accumulator.\<close>

fun apply_filters :: "string \<Rightarrow> string list \<Rightarrow> bool \<Rightarrow> bool res" where
  "apply_filters category [] is_filtered = Inr is_filtered"
| "apply_filters category (one_filter # fs) is_filtered =
     (if startswith one_filter ''-'' then
        apply_filters category fs
          (if startswith category (tl one_filter) then True else is_filtered)
      else if startswith one_filter ''+'' then
        apply_filters category fs
          (if startswith category (tl one_filter) then False else is_filtered)
      else Inl AssertionError)"

definition ShouldPrintError :: "string \<Rightarrow> int \<Rightarrow> int option \<Rightarrow> world \<Rightarrow> bool res" where
  "ShouldPrintError category confidence linenum w =
     (if IsErrorSuppressedByNolint category linenum w then Inr False
      else if confidence < verbose_level (cpplint_state w) then Inr False
      else bind_res (apply_filters category (Filters w) False) (\<lambda>is_filtered. Inr (\<not> is_filtered)))"

definition Error :: "report \<Rightarrow> world \<Rightarrow> world res" where
  "Error r w =
     (case r of ReportAt filename linenum category confidence message \<Rightarrow>
       bind_res (ShouldPrintError category confidence linenum w) (\<lambda>b. Inr (
         if b then
           let w = on_state (IncrementErrorCount category) w;
               fmt = output_format (cpplint_state w)
           in if fmt = ''vs7'' then
                PrintError (filename @ ''('' @ str_linenum linenum @ ''): error cpplint: ['' @ category @
                  ''] '' @ message @ '' ['' @ str_int confidence @ '']'' @ [newline]) w
              else if fmt = ''eclipse'' then
                w\<lparr>stderr := stderr w @ [filename @ '':'' @ str_linenum linenum @ '': warning: '' @ message @
                  ''  ['' @ category @ ''] ['' @ str_int confidence @ '']'' @ [newline]]\<rparr>
              else if fmt = ''junit'' then
                on_state (AddJUnitFailure filename linenum message category confidence) w
              else
                w\<lparr>stderr := stderr w @ [filename @ '':'' @ str_linenum linenum @ '':  '' @ message @
                  ''  ['' @ category @ ''] ['' @ str_int confidence @ '']'' @ [newline]]\<rparr>
         else w)))"

fun emit :: "(report \<Rightarrow> 'w \<Rightarrow> 'w res) \<Rightarrow> report list \<Rightarrow> 'w \<Rightarrow> 'w res" where
  "emit error [] w = Inr w"
| "emit error (r # rs) w = bind_res (error r w) (emit error rs)"

section \<open>The filters\<close>

definition filters_ok :: "world \<Rightarrow> bool" where
  "filters_ok w \<longleftrightarrow> list_all signed (Filters w)"

text \<open>What the filters mean: the last filter that applies to a category decides.\<close>

definition filtered_out :: "string \<Rightarrow> string list \<Rightarrow> bool" where
  "filtered_out category fs =
     (case filter (\<lambda>f. startswith category (tl f)) fs of [] \<Rightarrow> False
      | f # gs \<Rightarrow> hd (last (f # gs)) = CHR ''-'')"

lemma signed_cases:
  assumes "signed f"
  obtains g where "f = CHR ''+'' # g" | g where "f = CHR ''-'' # g"
  using assms by (cases f) (auto simp: signed_def)

lemma apply_filters_decides:
  "list_all signed fs \<Longrightarrow> apply_filters category fs b =
     Inr (case filter (\<lambda>f. startswith category (tl f)) fs of [] \<Rightarrow> b
          | f # gs \<Rightarrow> hd (last (f # gs)) = CHR ''-'')"
proof (induction fs arbitrary: b)
  case Nil
  show ?case by simp
next
  case (Cons f fs)
  from Cons.prems have "signed f" by simp
  then show ?case
    by (rule signed_cases) (use Cons in \<open>auto split: list.splits\<close>)
qed

lemma apply_filters_asserts:
  "apply_filters category fs b = Inl AssertionError \<longleftrightarrow> \<not> list_all signed fs"
  by (induction fs arbitrary: b) (auto simp: signed_def)

lemma ShouldPrintError_iff:
  "filters_ok w \<Longrightarrow> ShouldPrintError category confidence linenum w =
     Inr (\<not> IsErrorSuppressedByNolint category linenum w \<and>
          verbose_level (cpplint_state w) \<le> confidence \<and> \<not> filtered_out category (Filters w))"
  by (auto simp: ShouldPrintError_def filters_ok_def filtered_out_def apply_filters_decides)

lemma AddFilters_filters:
  "filters (snd (CppLintState_AddFilters fs s)) =
     filters s @ filter (\<lambda>f. f \<noteq> []) (map strip (split_on CHR '','' fs))"
  by (simp add: CppLintState_AddFilters_def Let_def)

lemma AddFilters_ok_iff:
  "fst (CppLintState_AddFilters fs s) = Inr () \<longleftrightarrow>
     list_all signed (filters (snd (CppLintState_AddFilters fs s)))"
proof -
  let ?fs = "filters (snd (CppLintState_AddFilters fs s))"
  have "fst (CppLintState_AddFilters fs s) = Inr () \<longleftrightarrow> filter (Not \<circ> signed) ?fs = []"
    by (auto simp: CppLintState_AddFilters_def Let_def split: list.splits)
  then show ?thesis by (simp only: filter_empty_conv list_all_iff comp_def not_not)
qed

section \<open>The contract of the error function\<close>

text \<open>A reporter never fails in a good state, keeps the state good, and adds one to its count
  exactly for the reports it shows; which reports it shows does not change while it reports.\<close>

locale reporter =
  fixes err :: "report \<Rightarrow> 'w \<Rightarrow> 'w res"
    and ok :: "'w \<Rightarrow> bool"
    and shown :: "'w \<Rightarrow> report \<Rightarrow> bool"
    and count :: "'w \<Rightarrow> int"
  assumes err_total: "ok w \<Longrightarrow> \<exists>w'. err r w = Inr w'"
    and err_ok: "ok w \<Longrightarrow> err r w = Inr w' \<Longrightarrow> ok w'"
    and err_shown: "ok w \<Longrightarrow> err r w = Inr w' \<Longrightarrow> shown w' = shown w"
    and err_count: "ok w \<Longrightarrow> err r w = Inr w' \<Longrightarrow>
      count w' = count w + (if shown w r then 1 else 0)"
begin

lemma emit_total: "ok w \<Longrightarrow> \<exists>w'. emit err rs w = Inr w' \<and> ok w' \<and> shown w' = shown w \<and>
    count w' = count w + int (length (filter (shown w) rs))"
proof (induction rs arbitrary: w)
  case Nil
  then show ?case by simp
next
  case (Cons r rs)
  obtain v where v: "err r w = Inr v" using err_total [OF Cons.prems] by blast
  note v_props = err_ok [OF Cons.prems v] err_shown [OF Cons.prems v] err_count [OF Cons.prems v]
  from Cons.IH [OF v_props(1)] obtain w' where
    "emit err rs v = Inr w'" "ok w'" "shown w' = shown v"
    "count w' = count v + int (length (filter (shown v) rs))" by blast
  with v v_props show ?case by simp
qed

lemma emit_append: "emit err (rs @ rs') w = bind_res (emit err rs w) (emit err rs')"
  by (induction rs arbitrary: w) (auto, case_tac "err a w", auto)

end

definition shown :: "world \<Rightarrow> report \<Rightarrow> bool" where
  "shown w r \<longleftrightarrow> ShouldPrintError (r_category r) (r_confidence r) (r_linenum r) w = Inr True"

abbreviation errors :: "world \<Rightarrow> int" where
  "errors w \<equiv> error_count (cpplint_state w)"

lemma IncrementErrorCount_frame [frame_simps]:
  "verbose_level (IncrementErrorCount c s) = verbose_level s"
  "filters (IncrementErrorCount c s) = filters s"
  "filters_backup (IncrementErrorCount c s) = filters_backup s"
  "counting (IncrementErrorCount c s) = counting s"
  "output_format (IncrementErrorCount c s) = output_format s"
  "error_count (IncrementErrorCount c s) = error_count s + 1"
  "junit_failures (IncrementErrorCount c s) = junit_failures s"
  by (simp_all add: IncrementErrorCount_def Let_def)

lemma Error_cases:
  assumes "filters_ok w"
  obtains (hidden) "\<not> shown w r" "Error r w = Inr w"
  | (printed) w' where "shown w r" "Error r w = Inr w'"
      "Filters w' = Filters w" "VerboseLevel w' = VerboseLevel w"
      "error_suppressions w' = error_suppressions w"
      "global_error_suppressions w' = global_error_suppressions w"
      "errors w' = errors w + 1"
      "errors_by_category (cpplint_state w') =
         errors_by_category (IncrementErrorCount (r_category r) (cpplint_state w))"
      "counting (cpplint_state w') = counting (cpplint_state w)"
proof (cases "shown w r")
  case False
  then have "Error r w = Inr w"
    using assms by (cases r) (auto simp: Error_def shown_def ShouldPrintError_iff)
  with False show thesis by (rule hidden)
next
  case True
  obtain f l c n m where r: "r = ReportAt f l c n m" by (cases r)
  with True obtain w' where w': "Error r w = Inr w'"
    by (auto simp: Error_def shown_def)
  with True r have "Filters w' = Filters w \<and> VerboseLevel w' = VerboseLevel w \<and>
      error_suppressions w' = error_suppressions w \<and>
      global_error_suppressions w' = global_error_suppressions w \<and> errors w' = errors w + 1 \<and>
      errors_by_category (cpplint_state w') =
        errors_by_category (IncrementErrorCount (r_category r) (cpplint_state w)) \<and>
      counting (cpplint_state w') = counting (cpplint_state w)"
    by (auto simp: Error_def shown_def Let_def Filters_def VerboseLevel_def PrintError_def
        AddJUnitFailure_def frame_simps split: if_splits)
  with True w' show thesis by (auto intro: printed)
qed

lemma shown_cong:
  "Filters w' = Filters w \<Longrightarrow> VerboseLevel w' = VerboseLevel w \<Longrightarrow>
   error_suppressions w' = error_suppressions w \<Longrightarrow>
   global_error_suppressions w' = global_error_suppressions w \<Longrightarrow> shown w' = shown w"
  by (intro ext)
    (simp add: shown_def ShouldPrintError_def IsErrorSuppressedByNolint_def VerboseLevel_def)

interpretation lint: reporter Error filters_ok shown errors
proof
  fix r w w'
  assume ok: "filters_ok w"
  show "\<exists>w'. Error r w = Inr w'"
    using ok by (rule Error_cases [of w r]) auto
  assume e: "Error r w = Inr w'"
  show "filters_ok w'"
    using ok by (rule Error_cases [of w r]) (use ok e in \<open>auto simp: filters_ok_def\<close>)
  show "shown w' = shown w"
    using ok by (rule Error_cases [of w r]) (use e in \<open>auto intro: shown_cong\<close>)
  show "errors w' = errors w + (if shown w r then 1 else 0)"
    using ok by (rule Error_cases [of w r]) (use e in auto)
qed

section \<open>Counting by category\<close>

text \<open>With the counting styles \<open>toplevel\<close> and \<open>detailed\<close> the counts per category add up to
  the total, and no category is listed twice.\<close>

definition counts_ok :: "CppLintState \<Rightarrow> bool" where
  "counts_ok s \<longleftrightarrow> distinct (map fst (errors_by_category s)) \<and>
     (counting s \<in> {''toplevel'', ''detailed''} \<longrightarrow>
        sum_list (map snd (errors_by_category s)) = error_count s)"

lemma sum_list_update:
  "distinct (map fst d) \<Longrightarrow> sum_list (map snd (AList.update k v d)) =
     sum_list (map snd d) - (case map_of d k of None \<Rightarrow> 0 | Some n \<Rightarrow> n) + (v :: int)"
proof (induction d)
  case Nil
  show ?case by simp
next
  case (Cons p d)
  then have "map_of d (fst p) = None" by (simp add: map_of_eq_None_iff)
  with Cons show ?case by (cases p) auto
qed

lemma IncrementErrorCount_counts:
  assumes "counts_ok s"
  shows "counts_ok (IncrementErrorCount c s)"
proof -
  have "sum_list (map snd (dict_bump k (errors_by_category s))) =
      sum_list (map snd (errors_by_category s)) + 1" for k
    using assms by (simp add: counts_ok_def dict_bump_def sum_list_update)
  moreover have "distinct (map fst (dict_bump k (errors_by_category s)))" for k
    using assms by (simp add: counts_ok_def dict_bump_def distinct_update)
  ultimately show ?thesis
    using assms by (auto simp: counts_ok_def IncrementErrorCount_def Let_def)
qed

lemma Error_counts:
  assumes "filters_ok w" "counts_ok (cpplint_state w)" "Error r w = Inr w'"
  shows "counts_ok (cpplint_state w')"
  using assms(1)
proof (rule Error_cases [of w r])
  fix v
  assume "Error r w = Inr v"
    and v: "errors v = errors w + 1" "counting (cpplint_state v) = counting (cpplint_state w)"
      "errors_by_category (cpplint_state v) =
         errors_by_category (IncrementErrorCount (r_category r) (cpplint_state w))"
  moreover have "counts_ok (IncrementErrorCount (r_category r) (cpplint_state w))"
    using assms(2) by (rule IncrementErrorCount_counts)
  ultimately show ?thesis using assms(3) by (simp add: counts_ok_def frame_simps)
qed (use assms in simp)

lemma emit_counts:
  "filters_ok w \<Longrightarrow> counts_ok (cpplint_state w) \<Longrightarrow> emit Error rs w = Inr w' \<Longrightarrow>
   counts_ok (cpplint_state w')"
proof (induction rs arbitrary: w)
  case Nil
  then show ?case by simp
next
  case (Cons r rs)
  then obtain v where v: "Error r w = Inr v" "emit Error rs v = Inr w'"
    by (auto simp: bind_res_Inr_iff)
  show ?case
    by (rule Cons.IH [OF lint.err_ok [OF Cons.prems(1) v(1)]
          Error_counts [OF Cons.prems(1,2) v(1)] v(2)])
qed

section \<open>Properties\<close>

text \<open>C1: After the filters of \<open>--filter\<close> were accepted, \<open>_ShouldPrintError\<close> never raises, and
  it lets an error through exactly when no NOLINT suppresses it, its confidence reaches the
  verbosity, and the last filter whose text is a prefix of the category (default filters first)
  is not a \<open>-\<close> filter.\<close>

theorem filters_last_match_wins:
  assumes "SetFilters fs w = (Inr (), w')"
  shows "ShouldPrintError category confidence linenum w' =
    Inr (\<not> IsErrorSuppressedByNolint category linenum w \<and> VerboseLevel w \<le> confidence \<and>
         \<not> filtered_out category (DEFAULT_FILTERS @
             filter (\<lambda>f. f \<noteq> []) (map strip (split_on CHR '','' fs))))"
proof -
  let ?s = "(cpplint_state w)\<lparr>filters := DEFAULT_FILTERS\<rparr>"
  from assms have r: "fst (CppLintState_AddFilters fs ?s) = Inr ()"
    and w': "w' = w\<lparr>cpplint_state := snd (CppLintState_AddFilters fs ?s)\<rparr>"
    by (auto simp: SetFilters_def CppLintState_SetFilters_def split: prod.splits)
  then have "filters_ok w'"
    using AddFilters_ok_iff [of fs ?s] by (simp add: filters_ok_def Filters_def)
  moreover have "Filters w' = DEFAULT_FILTERS @ filter (\<lambda>f. f \<noteq> []) (map strip (split_on CHR '','' fs))"
    using AddFilters_filters [of fs ?s] by (simp add: Filters_def w')
  moreover have "verbose_level (cpplint_state w') = VerboseLevel w"
    "IsErrorSuppressedByNolint category linenum w' = IsErrorSuppressedByNolint category linenum w"
    by (simp_all add: w' VerboseLevel_def CppLintState_AddFilters_def Let_def
        IsErrorSuppressedByNolint_def)
  ultimately show ?thesis by (simp add: ShouldPrintError_iff)
qed

theorem filters_last_match_wins_witness:
  "SetFilters ''-whitespace, +whitespace/tab'' new_world =
     (Inr (), snd (SetFilters ''-whitespace, +whitespace/tab'' new_world)) \<and>
   ShouldPrintError ''whitespace/tab'' 5 (Some 7) (snd (SetFilters ''-whitespace, +whitespace/tab'' new_world)) =
     Inr True \<and>
   ShouldPrintError ''whitespace/comma'' 5 (Some 7) (snd (SetFilters ''-whitespace, +whitespace/tab'' new_world)) =
     Inr False"
proof -
  let ?p = "SetFilters ''-whitespace, +whitespace/tab'' new_world"
  have "fst ?p = Inr ()" by code_simp
  then have p: "?p = (Inr (), snd ?p)" by (metis prod.collapse)
  have "filtered_out ''whitespace/comma'' (DEFAULT_FILTERS @
      filter (\<lambda>f. f \<noteq> []) (map strip (split_on CHR '','' ''-whitespace, +whitespace/tab'')))"
    "\<not> filtered_out ''whitespace/tab'' (DEFAULT_FILTERS @
      filter (\<lambda>f. f \<noteq> []) (map strip (split_on CHR '','' ''-whitespace, +whitespace/tab'')))"
    by code_simp+
  moreover have "\<not> IsErrorSuppressedByNolint c l new_world" "VerboseLevel new_world \<le> 5" for c l
    by (simp_all add: IsErrorSuppressedByNolint_def new_world_def VerboseLevel_def new_CppLintState_def)
  ultimately show ?thesis
    using p filters_last_match_wins [OF p] by simp
qed

text \<open>C31: \<open>_SetFilters\<close> raises \<open>ValueError\<close> exactly when one of the filters does not start with a
  sign, and the assertion inside \<open>_ShouldPrintError\<close> can only fail after such a rejected call: the
  call is accepted if and only if all filters in the state are signed.\<close>

theorem SetFilters_accepts_iff:
  "(fst (SetFilters fs w) = Inr () \<longleftrightarrow> filters_ok (snd (SetFilters fs w))) \<and>
   (filters_ok w' \<longleftrightarrow> (\<forall>category. apply_filters category (Filters w') False \<noteq> Inl AssertionError))"
proof -
  let ?s = "(cpplint_state w)\<lparr>filters := DEFAULT_FILTERS\<rparr>"
  have "fst (SetFilters fs w) = fst (CppLintState_AddFilters fs ?s)"
    "Filters (snd (SetFilters fs w)) = filters (snd (CppLintState_AddFilters fs ?s))"
    by (simp_all add: SetFilters_def CppLintState_SetFilters_def Filters_def case_prod_unfold)
  then show ?thesis
    by (simp add: filters_ok_def AddFilters_ok_iff apply_filters_asserts)
qed

text \<open>C15: Passing any sequence of reports to \<open>Error\<close> in a state with well-formed filters never
  raises, keeps the filters, and adds to the error count exactly the number of reports that the
  initial state lets through.\<close>

theorem reports_are_counted:
  assumes "filters_ok w"
  shows "\<exists>w'. emit Error rs w = Inr w' \<and> filters_ok w' \<and> shown w' = shown w \<and>
    errors w' = errors w + int (length (filter (shown w) rs))"
  using assms by (rule lint.emit_total)

theorem reports_are_counted_witness:
  "filters_ok new_world \<and>
   (\<exists>w'. emit Error [Report ''a.cc'' 3 ''whitespace/tab'' 1 ''tab'', Report ''a.cc'' 4 ''whitespace/tab'' 0 ''tab'',
      Report ''a.cc'' 5 ''build/include_alpha'' 4 ''order''] new_world = Inr w' \<and> errors w' = 1)"
proof -
  let ?rs = "[Report ''a.cc'' 3 ''whitespace/tab'' 1 ''tab'', Report ''a.cc'' 4 ''whitespace/tab'' 0 ''tab'',
      Report ''a.cc'' 5 ''build/include_alpha'' 4 ''order'']"
  have ok: "filters_ok new_world" by code_simp
  have "\<not> IsErrorSuppressedByNolint c l new_world" for c l
    by (simp add: IsErrorSuppressedByNolint_def new_world_def)
  moreover have "filtered_out ''build/include_alpha'' (Filters new_world)"
    "\<not> filtered_out ''whitespace/tab'' (Filters new_world)"
    "verbose_level (cpplint_state new_world) = 1" "errors new_world = 0" by code_simp+
  ultimately have "length (filter (shown new_world) ?rs) = 1" "errors new_world = 0"
    by (simp_all add: shown_def ShouldPrintError_iff [OF ok])
  with reports_are_counted [OF ok, of ?rs] ok show ?thesis by auto
qed

text \<open>C16: From \<open>ResetErrorCounts\<close> on, whatever is reported, the categories in
  \<open>errors_by_category\<close> are distinct and, for the counting styles \<open>toplevel\<close> and \<open>detailed\<close>, their
  counts add up to \<open>error_count\<close>.\<close>

theorem counts_by_category_add_up:
  assumes "filters_ok w" "emit Error rs (on_state ResetErrorCounts w) = Inr w'"
  shows "distinct (map fst (errors_by_category (cpplint_state w'))) \<and>
    (counting (cpplint_state w') \<in> {''toplevel'', ''detailed''} \<longrightarrow>
       sum_list (map snd (errors_by_category (cpplint_state w'))) = errors w')"
proof -
  have "filters_ok (on_state ResetErrorCounts w)"
    using assms(1) by (simp add: filters_ok_def Filters_def ResetErrorCounts_def)
  moreover have "counts_ok (cpplint_state (on_state ResetErrorCounts w))"
    by (simp add: counts_ok_def ResetErrorCounts_def)
  ultimately have "counts_ok (cpplint_state w')"
    using assms(2) by (rule emit_counts)
  then show ?thesis by (simp add: counts_ok_def)
qed

theorem counts_by_category_add_up_witness:
  "\<exists>w'. emit Error [Report ''a.cc'' 3 ''whitespace/tab'' 1 ''tab'', Report ''a.cc'' 4 ''build/class'' 3 ''c'',
      Report ''a.cc'' 9 ''whitespace/comma'' 2 ''comma'']
      (on_state ResetErrorCounts (SetCountingStyle ''toplevel'' new_world)) = Inr w' \<and>
    errors_by_category (cpplint_state w') = [(''whitespace'', 2), (''build'', 1)] \<and>
    sum_list (map snd (errors_by_category (cpplint_state w'))) = errors w'"
proof -
  let ?rs = "[Report ''a.cc'' 3 ''whitespace/tab'' 1 ''tab'', Report ''a.cc'' 4 ''build/class'' 3 ''c'',
      Report ''a.cc'' 9 ''whitespace/comma'' 2 ''comma'']"
  let ?w = "SetCountingStyle ''toplevel'' new_world"
  have ok: "filters_ok ?w" by code_simp
  let ?e = "emit Error ?rs (on_state ResetErrorCounts ?w)"
  have r: "\<not> isl ?e" "errors_by_category (cpplint_state (projr ?e)) = [(''whitespace'', 2), (''build'', 1)]"
    "counting (cpplint_state (projr ?e)) = ''toplevel''" by code_simp+
  then have e: "?e = Inr (projr ?e)" by (metis sum.collapse(2))
  have "sum_list (map snd (errors_by_category (cpplint_state (projr ?e)))) = errors (projr ?e)"
    using counts_by_category_add_up [OF ok e] r(3) by (metis insertI1)
  with e r(2) show ?thesis by blast
qed

end
