(* ===== verification/Nolint.thy ===== *)
theory Nolint
  imports Lint_State
begin

text \<open>
  What a NOLINT comment does (\<open>ParseNolintSuppressions\<close> and \<open>IsErrorSuppressedByNolint\<close>),
  down to the text of the comment: the behaviour of the pattern on a line of code that ends in
  such a comment.
\<close>

lemma rx_nolint [rx_code]:
  \<open>rx ''`bNOLINT(NEXTLINE)?`b(`([^)]+`))?'' =
     Seq (WordB True) (lits ''NOLINT''
       (Seq (Rep True 0 (Some 1) (Grp 1 (lits ''NEXTLIN'' (Lit CHR ''E''))))
         (Seq (WordB True)
           (Rep True 0 (Some 1) (Grp 2 (Seq (Lit CHR ''('')
              (Seq (Rep True 1 None (Cls False [CChar CHR '')''])) (Lit CHR '')''))))))))\<close>
  by code_simp

abbreviation nolint_re :: re where
  "nolint_re \<equiv> rx ''`bNOLINT(NEXTLINE)?`b(`([^)]+`))?''"

lemma nolint_needs_text: "\<not> prefix ''NOLINT'' (rest x) \<Longrightarrow> run nolint_re x = None"
  by (simp add: rx_nolint run_def matches_lits del: lits.simps)

text \<open>The search finds the first occurrence of the word.\<close>

lemma nolint_search:
  assumes "find_idx ''NOLINT'' code = None"
    and "run nolint_re (MS (Some CHR '' '') (length code + 3) (''NOLINT'' @ t) []) = Some y"
  shows "Search nolint_re (code @ ''// NOLINT'' @ t) =
    Some (mk_mobj (MS (Some CHR '' '') (length code + 3) (''NOLINT'' @ t) []) y)"
proof -
  let ?u = "code @ ''// ''"
  have "search_from nolint_re None 0 (?u @ ''NOLINT'' @ t) =
      search_from nolint_re (prev_at None ?u (length ?u)) (0 + length ?u) (''NOLINT'' @ t)"
  proof (rule search_from_skip, rule nolint_needs_text)
    fix k assume k: "k < length ?u"
    have "\<not> prefix ''NOLINT'' (drop k (code @ ''// NOLINT'' @ t))"
    proof (cases "k < length code")
      case True
      with assms(1) show ?thesis by (intro no_occurrence_across) auto
    next
      case False
      with k have "k - length code \<in> {0, 1, 2}" by auto
      then show ?thesis using False by auto
    qed
    then show "\<not> prefix ''NOLINT'' (rest (MS (prev_at None (?u @ ''NOLINT'' @ t) k) (0 + k)
        (drop k (?u @ ''NOLINT'' @ t)) []))"
      by simp
  qed
  also have "prev_at None ?u (length ?u) = Some CHR '' ''"
    by (simp add: prev_at_def nth_append)
  also have "0 + length ?u = length code + 3" by simp
  finally show ?thesis
    using search_from_hit [OF assms(2)] by (simp add: Search_def re_search_def)
qed

abbreviation at_nolint :: "nat \<Rightarrow> string \<Rightarrow> mst" where
  "at_nolint i t \<equiv> MS (Some CHR '' '') i (''NOLINT'' @ t) []"

lemma is_word_ascii [simp]: "is_word CHR ''N''" "is_word CHR ''T''" "is_word CHR ''E''"
    "\<not> is_word CHR '' ''" "\<not> is_word CHR ''(''"
  by code_simp+

lemma boundary_after [simp]:
  "at_word_boundary (adv (Suc k) x) \<longleftrightarrow>
     is_word (rest x ! k) \<noteq> (case drop (Suc k) (rest x) of [] \<Rightarrow> False | c # _ \<Rightarrow> is_word c)"
  by (simp add: at_word_boundary_def adv_def)

text \<open>A bare NOLINT: the word ends there and no parenthesis follows.\<close>

lemma nolint_run_bare:
  assumes "t = [] \<or> \<not> is_word (hd t) \<and> hd t \<noteq> CHR ''(''"
  shows "run nolint_re (at_nolint i t) = Some (adv 6 (at_nolint i t))"
proof -
  have "at_word_boundary (at_nolint i t)" by (simp add: at_word_boundary_def)
  moreover have "\<not> prefix ''NEXTLIN'' t" "\<not> prefix [CHR ''(''] t"
    using assms by (auto simp: prefix_def)
  ultimately show ?thesis
    using assms
    by (cases t) (auto simp: rx_nolint run_def matches_lits matches_opt matches_Lit
        eval_nat_numeral simp del: lits.simps)
qed

text \<open>NOLINTNEXTLINE, again with no parenthesis.\<close>

lemma nolint_run_next:
  assumes "t = [] \<or> \<not> is_word (hd t) \<and> hd t \<noteq> CHR ''(''"
  shows "run nolint_re (at_nolint i (''NEXTLINE'' @ t)) =
    Some (capture 1 (adv 6 (at_nolint i (''NEXTLINE'' @ t))) (adv 14 (at_nolint i (''NEXTLINE'' @ t))))"
proof -
  have "at_word_boundary (at_nolint i (''NEXTLINE'' @ t))" by (simp add: at_word_boundary_def)
  moreover have "\<not> prefix [CHR ''(''] t"
    using assms by (auto simp: prefix_def)
  ultimately show ?thesis
    using assms
    by (cases t) (auto simp: rx_nolint run_def matches_lits matches_opt matches_Lit adv_adv
        capture_def set_grp_def at_word_boundary_def adv_def
        eval_nat_numeral simp del: lits.simps)
qed

lemma cls_not_paren [simp]: "cls_has False [CChar CHR '')''] c \<longleftrightarrow> c \<noteq> CHR '')''"
  by (auto simp: cls_has_def)

lemma takeWhile_upto: "c \<notin> set u \<Longrightarrow> takeWhile (\<lambda>d. d \<noteq> c) (u @ c # t) = u"
  by (induction u) auto

text \<open>A category in parentheses.\<close>

lemma matches_category:
  assumes "c \<noteq> []" "CHR '')'' \<notin> set c" "rest x = c @ CHR '')'' # t"
  shows "matches (Seq (Rep True 1 None (Cls False [CChar CHR '')''])) (Lit CHR '')'')) x =
    [adv (Suc (length c)) x]"
proof -
  obtain d ds where c: "c = d # ds" using assms(1) by (cases c) auto
  let ?P = "\<lambda>e. e \<noteq> CHR '')''"
  have P: "cls_has False [CChar CHR '')''] = ?P" by auto
  have "concat (map (matches (Lit CHR '')'')) (star True None (step ?P) None (adv 1 x))) =
      matches (Lit CHR '')'') (adv (span ?P (adv 1 x)) (adv 1 x))"
    by (rule star_class_seq) (auto simp: matches_Lit prefix_def)
  also have "span ?P (adv 1 x) = length ds"
    using assms c takeWhile_upto [of "CHR '')''" ds t] by simp
  also have "matches (Lit CHR '')'') (adv (length ds) (adv 1 x)) = [adv (Suc (length c)) x]"
    using assms(3) c by (simp add: matches_Lit adv_adv)
  finally have *: "concat (map (matches (Lit CHR '')'')) (star True None (step ?P) None (adv 1 x))) =
      [adv (Suc (length c)) x]" .
  have "step ?P x = [adv 1 x]"
    using assms(2,3) c by (auto simp: step_adv)
  with * show ?thesis by (simp add: matches_Rep matches_step P del: matches.simps(4))
qed

lemma nolint_run_category:
  fixes i :: nat and t :: string
  assumes "c \<noteq> []" "CHR '')'' \<notin> set c"
  defines "x \<equiv> at_nolint i (CHR ''('' # c @ CHR '')'' # t)"
  shows "\<exists>y. run nolint_re x = Some y \<and> grp y = [(2, i + 6, CHR ''('' # c @ [CHR '')''])]"
proof -
  have x: "at_word_boundary x" "rest x = ''NOLINT('' @ c @ CHR '')'' # t" "grp x = []" "pos x = i"
    by (auto simp: at_word_boundary_def x_def)
  have "matches (Seq (Lit CHR ''('') (Seq (Rep True 1 None (Cls False [CChar CHR '')'']))
      (Lit CHR '')''))) (adv 6 x) = [adv (Suc (length c)) (adv 1 (adv 6 x))]"
    using matches_category [OF assms(1,2), of "adv 1 (adv 6 x)" t] x(2)
    by (simp add: matches_Lit adv_adv eval_nat_numeral del: matches.simps(8))
      (simp add: matches_Lit adv_adv)
  then show ?thesis
    using x
    by (simp add: rx_nolint run_def matches_lits matches_opt matches_Lit adv_adv eval_nat_numeral
        capture_def set_grp_def del: lits.simps)
qed

section \<open>From the comment to the suppression\<close>

lemma suppressed_after:
  "IsErrorSuppressedByNolint c k (w\<lparr>error_suppressions := suppress key l (error_suppressions w)\<rparr>) \<longleftrightarrow>
     k = Some l \<and> (key = None \<or> key = Some c) \<or> IsErrorSuppressedByNolint c k w"
  by (auto simp: IsErrorSuppressedByNolint_def suppress_def)

lemma group_Nil [simp]: "m_groups m = [] \<Longrightarrow> n \<noteq> 0 \<Longrightarrow> group m n = None"
  by (simp add: group_def)

lemma parse_bare:
  assumes "find_idx ''NOLINT'' code = None" "t = [] \<or> \<not> is_word (hd t) \<and> hd t \<noteq> CHR ''(''"
  shows "ParseNolintSuppressions f (code @ ''// NOLINT'' @ t) l d = (suppress None l d, [])"
  using nolint_search [OF assms(1) nolint_run_bare [OF assms(2)]]
  by (simp add: ParseNolintSuppressions_def mk_mobj_def)

lemma parse_next:
  assumes "find_idx ''NOLINT'' code = None" "t = [] \<or> \<not> is_word (hd t) \<and> hd t \<noteq> CHR ''(''"
  shows "ParseNolintSuppressions f (code @ ''// NOLINTNEXTLINE'' @ t) l d =
    (suppress None (l + 1) d, [])"
  using nolint_search [OF assms(1) nolint_run_next [OF assms(2)]]
  by (simp add: ParseNolintSuppressions_def mk_mobj_def capture_def set_grp_def group_def)

lemma parse_category:
  assumes "find_idx ''NOLINT'' code = None" "c \<noteq> []" "CHR '')'' \<notin> set c" "c \<noteq> ''*''"
  shows "ParseNolintSuppressions f (code @ ''// NOLINT('' @ c @ '')'' @ t) l d =
    (if c \<in> set ERROR_CATEGORIES then (suppress (Some c) l d, [])
     else if c \<in> set LEGACY_ERROR_CATEGORIES then (d, [])
     else (d, [Report f l ''readability/nolint'' 5 (''Unknown NOLINT error category: '' @ c)]))"
proof -
  obtain y where y: "run nolint_re (at_nolint (length code + 3) (CHR ''('' # c @ CHR '')'' # t)) = Some y"
    and g: "grp y = [(2, length code + 3 + 6, CHR ''('' # c @ [CHR '')''])]"
    using nolint_run_category [OF assms(2,3)] by blast
  have "c @ [CHR '')''] \<noteq> ''*)''" using assms(4) by (cases c) auto
  then show ?thesis
    using nolint_search [OF assms(1) y] g
    by (simp add: ParseNolintSuppressions_def mk_mobj_def group_def suffix_def)
qed

section \<open>Properties\<close>

text \<open>C21: A comment \<open>// NOLINT\<close> (no category, first on its line) suppresses errors of every
  category on its own line, \<open>// NOLINTNEXTLINE\<close> those on the next line, and both leave every other
  line as it was; neither is itself reported.\<close>

theorem nolint_suppresses_line:
  assumes "find_idx ''NOLINT'' code = None" "t = [] \<or> \<not> is_word (hd t) \<and> hd t \<noteq> CHR ''(''"
  shows "(\<exists>d. ParseNolintSuppressions f (code @ ''// NOLINT'' @ t) l (error_suppressions w) = (d, []) \<and>
      (\<forall>c k. IsErrorSuppressedByNolint c k (w\<lparr>error_suppressions := d\<rparr>) \<longleftrightarrow>
         k = Some l \<or> IsErrorSuppressedByNolint c k w)) \<and>
    (\<exists>d. ParseNolintSuppressions f (code @ ''// NOLINTNEXTLINE'' @ t) l (error_suppressions w) = (d, []) \<and>
      (\<forall>c k. IsErrorSuppressedByNolint c k (w\<lparr>error_suppressions := d\<rparr>) \<longleftrightarrow>
         k = Some (l + 1) \<or> IsErrorSuppressedByNolint c k w))"
  by (intro conjI exI, rule parse_bare [OF assms], simp add: suppressed_after,
      rule parse_next [OF assms], simp add: suppressed_after)

theorem nolint_suppresses_line_witness:
  "find_idx ''NOLINT'' ''int x;  '' = None \<and>
   (\<exists>d. ParseNolintSuppressions ''a.cc'' ''int x;  // NOLINT'' 4 (error_suppressions new_world) = (d, []) \<and>
     IsErrorSuppressedByNolint ''runtime/int'' (Some 4) (new_world\<lparr>error_suppressions := d\<rparr>) \<and>
     \<not> IsErrorSuppressedByNolint ''runtime/int'' (Some 5) (new_world\<lparr>error_suppressions := d\<rparr>))"
proof -
  have f: "find_idx ''NOLINT'' ''int x;  '' = None" by code_simp
  have "\<not> IsErrorSuppressedByNolint ''runtime/int'' (Some 5) new_world"
    by (simp add: IsErrorSuppressedByNolint_def new_world_def)
  with nolint_suppresses_line [OF f, of "[]" "''a.cc''" 4 new_world] f show ?thesis by auto
qed

text \<open>C22: A comment \<open>// NOLINT(c)\<close> suppresses exactly the category \<open>c\<close> on exactly its line when
  \<open>c\<close> is a category of the linter; a legacy category is ignored, and any other text in the
  parentheses is reported under \<open>readability/nolint\<close> and suppresses nothing.\<close>

theorem nolint_category:
  assumes "find_idx ''NOLINT'' code = None" "c \<noteq> []" "CHR '')'' \<notin> set c" "c \<noteq> ''*''"
  shows "\<exists>d rs. ParseNolintSuppressions f (code @ ''// NOLINT('' @ c @ '')'' @ t) l (error_suppressions w) = (d, rs) \<and>
    (rs = [] \<longleftrightarrow> c \<in> set (ERROR_CATEGORIES @ LEGACY_ERROR_CATEGORIES)) \<and>
    (\<forall>c' k. IsErrorSuppressedByNolint c' k (w\<lparr>error_suppressions := d\<rparr>) \<longleftrightarrow>
       c \<in> set ERROR_CATEGORIES \<and> c' = c \<and> k = Some l \<or> IsErrorSuppressedByNolint c' k w)"
  using parse_category [OF assms, of f t l "error_suppressions w"]
  by (cases "c \<in> set ERROR_CATEGORIES"; cases "c \<in> set LEGACY_ERROR_CATEGORIES")
    (auto simp: suppressed_after)

theorem nolint_category_witness:
  "\<exists>d rs. ParseNolintSuppressions ''a.cc'' ''x // NOLINT(runtime/int) ok'' 4 (error_suppressions new_world) = (d, rs) \<and>
     rs = [] \<and> IsErrorSuppressedByNolint ''runtime/int'' (Some 4) (new_world\<lparr>error_suppressions := d\<rparr>) \<and>
     \<not> IsErrorSuppressedByNolint ''runtime/init'' (Some 4) (new_world\<lparr>error_suppressions := d\<rparr>)"
proof -
  have f: "find_idx ''NOLINT'' ''x '' = None" "''runtime/int'' \<noteq> []" "CHR '')'' \<notin> set ''runtime/int''"
    "''runtime/int'' \<noteq> ''*''" by code_simp+
  have "''runtime/int'' \<in> set ERROR_CATEGORIES" by code_simp
  moreover have "\<not> IsErrorSuppressedByNolint ''runtime/init'' (Some 4) new_world"
    by (simp add: IsErrorSuppressedByNolint_def new_world_def)
  ultimately show ?thesis
    using nolint_category [OF f, of "''a.cc''" "'' ok''" 4 new_world] by auto
qed

end
