(* ===== verification/Function_State.thy ===== *)
theory Function_State
  imports Lint_State
begin

text \<open>
  The class \<open>_FunctionState\<close>: the name of the function the linter is in and the number of lines
  of its body. \<open>Check\<close> reports a body that is longer than a trigger which doubles with every
  level of verbosity. The logarithm of the code is taken of a ratio of small integers; its integer
  part is computed here on the integers.
\<close>

section \<open>State and operations\<close>

record FunctionState =
  in_a_function :: bool
  lines_in_function :: nat
  current_function :: string

definition NORMAL_TRIGGER :: nat where "NORMAL_TRIGGER = 250"

definition TEST_TRIGGER :: nat where "TEST_TRIGGER = 400"

definition new_FunctionState :: FunctionState where
  "new_FunctionState = \<lparr>in_a_function = False, lines_in_function = 0, current_function = []\<rparr>"

definition Begin :: "string \<Rightarrow> FunctionState \<Rightarrow> FunctionState" where
  "Begin function_name f =
     f\<lparr>in_a_function := True, lines_in_function := 0, current_function := function_name\<rparr>"

definition Count :: "FunctionState \<Rightarrow> FunctionState" where
  "Count f =
     (if in_a_function f then f\<lparr>lines_in_function := lines_in_function f + 1\<rparr> else f)"

definition End :: "FunctionState \<Rightarrow> FunctionState" where
  "End f = f\<lparr>in_a_function := False\<rparr>"

text \<open>\<open>int(math.log(n / m, 2))\<close> for positive \<open>n\<close> and \<open>m\<close>: \<open>int\<close> cuts off towards zero.\<close>

fun ilog2 :: "nat \<Rightarrow> nat" where
  "ilog2 n = (if n < 2 then 0 else Suc (ilog2 (n div 2)))"

declare ilog2.simps [simp del]

definition int_log_ratio :: "nat \<Rightarrow> nat \<Rightarrow> int" where
  "int_log_ratio n m = (if m \<le> n then int (ilog2 (n div m)) else - int (ilog2 (m div n)))"

text \<open>\<open>trigger = base * 2**v\<close> is a float when \<open>v\<close> is negative; \<open>exceeds\<close> is the comparison
  with it and \<open>shown_trigger\<close> what \<open>%d\<close> prints of it.\<close>

definition exceeds :: "nat \<Rightarrow> nat \<Rightarrow> int \<Rightarrow> bool" where
  "exceeds n base v = (if 0 \<le> v then base * 2 ^ nat v < n else base < n * 2 ^ nat (- v))"

definition shown_trigger :: "nat \<Rightarrow> int \<Rightarrow> nat" where
  "shown_trigger base v = (if 0 \<le> v then base * 2 ^ nat v else base div 2 ^ nat (- v))"

definition base_trigger :: "FunctionState \<Rightarrow> nat" where
  "base_trigger f =
     (if matched (Match (rx ''T(EST|est)'') (current_function f)) then TEST_TRIGGER
      else NORMAL_TRIGGER)"

definition Check :: "int \<Rightarrow> string \<Rightarrow> int \<Rightarrow> FunctionState \<Rightarrow> report list" where
  "Check verbose filename linenum f =
     (if \<not> in_a_function f then []
      else if exceeds (lines_in_function f) (base_trigger f) verbose
      then let error_level = int_log_ratio (lines_in_function f) (base_trigger f);
               error_level = (if error_level > 5 then 5 else error_level)
           in [Report filename linenum ''readability/fn_size'' error_level
                (''Small and focused functions are preferred:'' @ '' '' @ current_function f @
                 '' has '' @ str_nat (lines_in_function f) @ '' non-comment lines'' @
                 '' (error triggered by exceeding '' @
                 str_nat (shown_trigger (base_trigger f) verbose) @ '' lines).'')]
      else [])"

section \<open>The level of the report\<close>

lemma base_trigger_pos: "0 < base_trigger f"
  by (simp add: base_trigger_def NORMAL_TRIGGER_def TEST_TRIGGER_def)

lemma ilog2_bounds: "0 < n \<Longrightarrow> 2 ^ ilog2 n \<le> n \<and> n < 2 ^ Suc (ilog2 n)"
proof (induction n rule: ilog2.induct)
  case (1 n)
  show ?case
  proof (cases "n < 2")
    case True
    with "1.prems" have "n = 1" by simp
    then show ?thesis by (simp add: ilog2.simps)
  next
    case False
    with "1.IH" have "2 ^ ilog2 (n div 2) \<le> n div 2 \<and> n div 2 < 2 ^ Suc (ilog2 (n div 2))" by simp
    with False show ?thesis
      by (subst (1 2) ilog2.simps) auto
  qed
qed

lemma ilog2_ge_iff: "0 < n \<Longrightarrow> k \<le> ilog2 n \<longleftrightarrow> 2 ^ k \<le> n"
proof -
  assume n: "0 < n"
  note b = ilog2_bounds [OF n]
  show ?thesis
  proof
    assume "k \<le> ilog2 n"
    then have "(2::nat) ^ k \<le> 2 ^ ilog2 n" by simp
    with b show "2 ^ k \<le> n" by linarith
  next
    assume "2 ^ k \<le> n"
    with b have "(2::nat) ^ k < 2 ^ Suc (ilog2 n)" by linarith
    then have "k < Suc (ilog2 n)" by (simp only: power_strict_increasing_iff one_less_numeral_iff semiring_norm)
    then show "k \<le> ilog2 n" by simp
  qed
qed

lemma ilog2_ratio_ge_iff:
  assumes "0 < m" "m \<le> n"
  shows "k \<le> ilog2 (n div m) \<longleftrightarrow> m * 2 ^ k \<le> n"
proof -
  have "0 < n div m" using assms by (simp add: div_greater_zero_iff)
  then have "k \<le> ilog2 (n div m) \<longleftrightarrow> 2 ^ k \<le> n div m" by (rule ilog2_ge_iff)
  also have "\<dots> \<longleftrightarrow> m * 2 ^ k \<le> n"
    using assms(1) by (simp add: less_eq_div_iff_mult_less_eq mult.commute)
  finally show ?thesis .
qed

text \<open>For a verbosity up to 5 the level of a report reaches the verbosity, so no report is lost
  to the threshold of \<open>_ShouldPrintError\<close>.\<close>

lemma int_log_ratio_ge:
  assumes "exceeds n m v" "0 < m"
  shows "v \<le> int_log_ratio n m"
proof (cases "0 \<le> v")
  case True
  then have v: "m * 2 ^ nat v < n" using assms(1) by (simp add: exceeds_def)
  moreover have "m \<le> m * 2 ^ nat v" by simp
  ultimately have "m \<le> n" by linarith
  with v have "nat v \<le> ilog2 (n div m)"
    using ilog2_ratio_ge_iff [OF assms(2)] by simp
  with \<open>m \<le> n\<close> show ?thesis by (simp add: int_log_ratio_def nat_le_iff)
next
  case False
  show ?thesis
  proof (cases "m \<le> n")
    case True
    with False show ?thesis by (simp add: int_log_ratio_def)
  next
    case less: False
    from assms False have n: "m < n * 2 ^ nat (- v)" by (simp add: exceeds_def)
    then have "0 < n" by (cases n) auto
    with n less have "\<not> Suc (nat (- v)) \<le> ilog2 (m div n)"
      using ilog2_ratio_ge_iff [of n m "Suc (nat (- v))"] by simp
    with less False show ?thesis by (simp add: int_log_ratio_def)
  qed
qed

lemma Count_lines:
  "(Count ^^ n) (Begin name f) =
     f\<lparr>in_a_function := True, lines_in_function := n, current_function := name\<rparr>"
  by (induction n) (auto simp: Begin_def Count_def)

section \<open>Properties\<close>

text \<open>C30: A function body of \<open>n\<close> lines, counted line by line from \<open>Begin\<close> on, is reported exactly
  when \<open>n\<close> exceeds 250 lines (400 in a test) times two to the power of the verbosity, whatever was
  counted before; after \<open>End\<close> nothing is reported.\<close>

theorem long_function_reported:
  assumes "0 \<le> v"
  shows "(Check v file l ((Count ^^ n) (Begin name f)) \<noteq> [] \<longleftrightarrow>
      (if matched (Match (rx ''T(EST|est)'') name) then 400 else 250) * 2 ^ nat v < n) \<and>
    Check v file l (End g) = []"
  using assms
  by (simp add: Count_lines Check_def Let_def exceeds_def base_trigger_def NORMAL_TRIGGER_def
      TEST_TRIGGER_def End_def)

theorem long_function_reported_witness:
  "Check 1 ''a.cc'' 9 ((Count ^^ 501) (Begin ''Foo::Bar'' new_FunctionState)) \<noteq> [] \<and>
   Check 1 ''a.cc'' 9 ((Count ^^ 500) (Begin ''Foo::Bar'' new_FunctionState)) = []"
proof -
  have m: "\<not> matched (Match (rx ''T(EST|est)'') ''Foo::Bar'')" by code_simp
  have v: "(0::int) \<le> 1" by simp
  from long_function_reported [OF v, of "''a.cc''" 9 501 "''Foo::Bar''"]
    long_function_reported [OF v, of "''a.cc''" 9 500 "''Foo::Bar''"] m
  show ?thesis by simp
qed

text \<open>C29: The confidence of that report is the largest \<open>k\<close> up to 5 for which the body has at least
  two to the power of \<open>k\<close> times the base number of lines. So it reaches the verbosity for every
  verbosity up to 5, and the threshold of \<open>_ShouldPrintError\<close> never hides the report. The base is 250,
  or 400 for a test. The comment beside the computation (\<open>50 => 0, ..., 1600 => 5\<close>) lists the levels
  for a base of 50 instead: with the base of the code 1600 lines give level 2
  either way, and level 5 needs 8000 lines, or 12800 for a test.\<close>

theorem function_report_level:
  assumes "in_a_function f" "0 \<le> v" "base_trigger f * 2 ^ nat v < lines_in_function f"
  shows "\<exists>k message. Check v file l f = [Report file l ''readability/fn_size'' (int k) message] \<and>
    k \<le> 5 \<and> base_trigger f * 2 ^ k \<le> lines_in_function f \<and>
    (k < 5 \<longrightarrow> lines_in_function f < base_trigger f * 2 ^ (k + 1)) \<and> (v \<le> 5 \<longrightarrow> v \<le> int k)"
proof -
  let ?b = "base_trigger f" and ?n = "lines_in_function f"
  have "?b \<le> ?b * 2 ^ nat v" by simp
  with assms(3) have b: "?b \<le> ?n" by linarith
  define j where "j = ilog2 (?n div ?b)"
  have level: "int_log_ratio ?n ?b = int j" using b by (simp add: int_log_ratio_def j_def)
  have j: "k \<le> j \<longleftrightarrow> ?b * 2 ^ k \<le> ?n" for k
    using ilog2_ratio_ge_iff [OF base_trigger_pos b] by (simp add: j_def)
  have ex: "exceeds ?n ?b v" using assms(2,3) by (simp add: exceeds_def)
  have "v \<le> int j" using int_log_ratio_ge [OF ex base_trigger_pos] level by simp
  moreover have "(if 5 < int j then 5 else int j) = int (min 5 j)" by simp
  moreover have "min 5 j < 5 \<longrightarrow> ?n < ?b * 2 ^ (min 5 j + 1)"
    using j [of "Suc j"] by (auto simp: min_def not_le)
  moreover have "?b * 2 ^ min 5 j \<le> ?n" using j [of "min 5 j"] by simp
  ultimately show ?thesis
    using assms(1) ex by (intro exI [of _ "min 5 j"]) (auto simp: Check_def level Let_def)
qed

theorem function_report_level_witness:
  "\<exists>k message. Check 1 ''a.cc'' 9 ((Count ^^ 1200) (Begin ''Foo'' new_FunctionState)) =
     [Report ''a.cc'' 9 ''readability/fn_size'' (int k) message] \<and> k = 2"
proof -
  let ?f = "(Count ^^ 1200) (Begin ''Foo'' new_FunctionState)"
  have m: "\<not> matched (Match (rx ''T(EST|est)'') ''Foo'')" by code_simp
  have f: "in_a_function ?f" "lines_in_function ?f = 1200" "base_trigger ?f = 250"
    using m by (simp_all add: Count_lines base_trigger_def NORMAL_TRIGGER_def)
  have v: "(0::int) \<le> 1" "base_trigger ?f * 2 ^ nat 1 < lines_in_function ?f" by (simp_all add: f)
  from function_report_level [OF f(1) v, of "''a.cc''" 9] obtain k message where
    k: "Check 1 ''a.cc'' 9 ?f = [Report ''a.cc'' 9 ''readability/fn_size'' (int k) message]" "k \<le> 5"
      "250 * 2 ^ k \<le> (1200::nat)" "k < 5 \<longrightarrow> (1200::nat) < 250 * 2 ^ (k + 1)"
    unfolding f(2,3) by blast
  have "k \<in> {0, 1, 2, 3, 4, 5}" using k(2) by auto
  with k(3,4) have "k = 2" by auto
  with k(1) show ?thesis by blast
qed

end
