(* ===== verification/Cleanse.thy ===== *)
theory Cleanse
  imports Lint_State
begin

text \<open>
  The preprocessing of a file before any check looks at it: raw strings, multi-line comments,
  comments and string contents are removed line by line (\<open>CleanseRawStrings\<close>,
  \<open>RemoveMultiLineComments\<close>, \<open>CleanseComments\<close>, \<open>_CollapseStrings\<close>, \<open>CleansedLines\<close>). Every
  pass keeps the number of lines, which the rest of the linter relies on: the locale
  \<open>line_pass\<close> states it once. The two loops that rewrite a line until no quote is left
  terminate because each round shortens the text still to be read, which follows from the shape
  of the matches of their patterns.
\<close>

section \<open>Patterns\<close>

definition RE_PATTERN_CLEANSE_LINE_ESCAPES :: re where
  \<open>RE_PATTERN_CLEANSE_LINE_ESCAPES = rx ''``([abfnrtv?"```']|`d+|x[0-9a-fA-F]+)''\<close>

definition RE_PATTERN_C_COMMENTS :: string where
  \<open>RE_PATTERN_C_COMMENTS = ''/`*(?:[^*]|`*(?!/))*`*/''\<close>

definition RE_PATTERN_CLEANSE_LINE_C_COMMENTS :: re where
  \<open>RE_PATTERN_CLEANSE_LINE_C_COMMENTS = rx (
     ''(`s*'' @ RE_PATTERN_C_COMMENTS @ ''`s*$|'' @
     RE_PATTERN_C_COMMENTS @ ''`s+|'' @
     ''`s+'' @ RE_PATTERN_C_COMMENTS @ ''(?=`W)|'' @
     RE_PATTERN_C_COMMENTS @ '')'')\<close>

definition RE_PATTERN_INCLUDE :: re where
  \<open>RE_PATTERN_INCLUDE = rx ''^`s*#`s*include`s*([<"])([^>"]*)[>"].*$''\<close>

text \<open>The text of a group that takes part in every match of its pattern.\<close>

definition gtext :: "mobj \<Rightarrow> nat \<Rightarrow> string" where
  "gtext m n = (case group m n of None \<Rightarrow> [] | Some t \<Rightarrow> t)"

section \<open>Strings and raw strings\<close>

definition IsCppString :: "string \<Rightarrow> bool" where
  "IsCppString line =
     (let line = replace [backslash, backslash] ''XX'' line
      in odd (int (str_count [dquote] line) - int (str_count [backslash, dquote] line) -
              int (str_count [squote, dquote, squote] line)))"

definition raw_string_re :: re where
  \<open>raw_string_re = rx ''^(.*?)`b(?:R|u8R|uR|UR|LR)"([^`s``()]*)`((.*)$''\<close>

definition comment_before_re :: re where
  \<open>comment_before_re = rx ''^([^`'"]|`'(``.|[^`'])*`'|"(``.|[^"])*")*//''\<close>

lemma rx_raw_string [rx_code]:
  "raw_string_re =
     Seq Bol (Seq (Grp 1 (Rep False 0 None Any)) (Seq (WordB True)
      (Seq (Alt (Lit CHR ''R'') (Alt (Seq (Lit CHR ''u'') (Seq (Lit CHR ''8'') (Lit CHR ''R'')))
        (Alt (Seq (Lit CHR ''u'') (Lit CHR ''R'')) (Alt (Seq (Lit CHR ''U'') (Lit CHR ''R''))
          (Seq (Lit CHR ''L'') (Lit CHR ''R''))))))
       (Seq (Lit dquote) (Seq (Grp 2 (Rep True 0 None
          (Cls False [CSpace True, CChar backslash, CChar CHR ''('', CChar CHR '')''])))
        (Seq (Lit CHR ''('') (Seq (Grp 3 (Rep True 0 None Any)) Eol)))))))"
  by code_simp

lemma advances_text: "advances x y \<Longrightarrow> length (take (pos y - pos x) (rest x)) = pos y - pos x"
  by (auto simp: advances_def)

text \<open>The three groups of a raw string, with the prefix, quote and parenthesis between them, fit
  into the line.\<close>

lemma raw_string_groups:
  assumes "Match raw_string_re line = Some m"
  shows "length (gtext m 1) + length (gtext m 2) + length (gtext m 3) + 3 \<le> length line"
proof -
  obtain y where y: "y \<in> set (matches raw_string_re (init line))" "m = mk_mobj (init line) y"
    using assms by (auto simp: Match_def re_match_def dest: run_matches)
  from y(1) obtain x1 x2 x3 x4 x5 x6 where
    x: "x1 \<in> set (matches (Rep False 0 None Any) (init line))"
      "x3 \<in> set (matches (Lit dquote) x2)"
      "x4 \<in> set (matches (Rep True 0 None
          (Cls False [CSpace True, CChar backslash, CChar CHR ''('', CChar CHR '')''])) x3)"
      "x5 \<in> set (matches (Lit CHR ''('') (capture 2 x3 x4))"
      "x6 \<in> set (matches (Rep True 0 None Any) x5)"
    and x2: "x2 \<in> set (matches (Alt (Lit CHR ''R'') (Alt (Seq (Lit CHR ''u'') (Seq (Lit CHR ''8'')
        (Lit CHR ''R''))) (Alt (Seq (Lit CHR ''u'') (Lit CHR ''R'')) (Alt (Seq (Lit CHR ''U'')
        (Lit CHR ''R'')) (Seq (Lit CHR ''L'') (Lit CHR ''R'')))))) (capture 1 (init line) x1))"
    and y': "y = capture 3 x5 x6"
    unfolding rx_raw_string
    by (auto simp only: in_matches)
  have "grp x1 = []" "grp x2 = grp (capture 1 (init line) x1)" "grp x3 = grp x2" "grp x4 = grp x3"
    "grp x5 = grp (capture 2 x3 x4)" "grp x6 = grp x5"
    using matches_grp [OF _ x(1)] matches_grp [OF _ x2] matches_grp [OF _ x(2)]
      matches_grp [OF _ x(3)] matches_grp [OF _ x(4)] matches_grp [OF _ x(5)]
    by (simp_all add: init_def)
  then have g: "m_groups m = [(3, pos x5, take (pos x6 - pos x5) (rest x5)),
      (2, pos x3, take (pos x4 - pos x3) (rest x3)), (1, 0, take (pos x1) line)]"
    by (simp add: y(2) y' mk_mobj_def init_def)
  note adv = matches_advances [OF x(1)] matches_advances [OF x2] matches_advances [OF x(2)]
    matches_advances [OF x(3)] matches_advances [OF x(4)] matches_advances [OF x(5)]
  have "pos x6 \<le> length line"
    using adv [THEN advances_length] by (simp add: init_def)
  then show ?thesis
    using adv [THEN advances_pos] matches_minlen [OF x2] matches_minlen [OF x(2)]
      matches_minlen [OF x(4)]
    by (simp add: g gtext_def group_def)
qed

text \<open>The loop \<open>while delimiter is None\<close> of \<open>CleanseRawStrings\<close>: the delimiter of a raw string
  left open at the end of the line, and the rewritten line.\<close>

function raw_loop :: "string \<Rightarrow> string option \<times> string" where
  "raw_loop line =
     (case Match raw_string_re line of
        None \<Rightarrow> (None, line)
      | Some m \<Rightarrow>
        if matched (Match comment_before_re (gtext m 1)) then (None, line)
        else let delimiter = '')'' @ gtext m 2 @ [dquote]
             in case find_idx delimiter (gtext m 3) of
                  Some endpos \<Rightarrow> raw_loop (gtext m 1 @ [dquote, dquote] @
                    drop (endpos + length delimiter) (gtext m 3))
                | None \<Rightarrow> (Some delimiter, gtext m 1 @ [dquote, dquote]))"
  by pat_completeness auto
termination
  by (relation "measure length") (auto dest!: raw_string_groups simp: numeral_2_eq_2 [symmetric])

declare raw_loop.simps [simp del]

fun cleanse_raw :: "string option \<Rightarrow> string list \<Rightarrow> string list res" where
  "cleanse_raw delimiter [] = Inr []"
| "cleanse_raw delimiter (line # raw_lines) =
     bind_res
       (case delimiter of
          None \<Rightarrow> Inr (raw_loop line)
        | Some d \<Rightarrow>
          (case find_idx d line of
             Some endpos \<Rightarrow>
               (case Match (rx ''^(`s*)`S'') line of
                  None \<Rightarrow> Inl AttributeError
                | Some leading_space \<Rightarrow>
                    Inr (raw_loop (gtext leading_space 1 @ [dquote, dquote] @
                      drop (endpos + length d) line)))
           | None \<Rightarrow> Inr (Some d, [dquote, dquote])))
       (\<lambda>(delimiter, line). bind_res (cleanse_raw delimiter raw_lines) (\<lambda>ls. Inr (line # ls)))"

definition CleanseRawStrings :: "string list \<Rightarrow> string list res" where
  "CleanseRawStrings raw_lines = cleanse_raw None raw_lines"

section \<open>Multi-line comments\<close>

function FindNextMultiLineCommentStart :: "string list \<Rightarrow> nat \<Rightarrow> nat" where
  "FindNextMultiLineCommentStart lines lineix =
     (if lineix < length lines
      then if startswith (strip (lines ! lineix)) ''/*'' \<and>
              find_from ''*/'' (strip (lines ! lineix)) 2 = None
           then lineix
           else FindNextMultiLineCommentStart lines (lineix + 1)
      else length lines)"
  by pat_completeness auto
termination
  by (relation "measure (\<lambda>(lines, lineix). length lines - lineix)") auto

function FindNextMultiLineCommentEnd :: "string list \<Rightarrow> nat \<Rightarrow> nat" where
  "FindNextMultiLineCommentEnd lines lineix =
     (if lineix < length lines
      then if endswith (strip (lines ! lineix)) ''*/'' then lineix
           else FindNextMultiLineCommentEnd lines (lineix + 1)
      else length lines)"
  by pat_completeness auto
termination
  by (relation "measure (\<lambda>(lines, lineix). length lines - lineix)") auto

declare FindNextMultiLineCommentStart.simps [simp del] FindNextMultiLineCommentEnd.simps [simp del]

definition RemoveMultiLineCommentsFromRange :: "string list \<Rightarrow> nat \<Rightarrow> nat \<Rightarrow> string list" where
  "RemoveMultiLineCommentsFromRange lines range_begin range_end =
     fold (\<lambda>i ls. ls[i := ''/**/'']) [range_begin..<range_end] lines"

lemma length_RemoveRange [simp]:
  "length (RemoveMultiLineCommentsFromRange lines b e) = length lines"
proof -
  have "length (fold (\<lambda>i ls. ls[i := v]) is ls) = length ls" for "is" and ls :: "'a list" and v
    by (induction "is" arbitrary: ls) auto
  then show ?thesis by (simp add: RemoveMultiLineCommentsFromRange_def)
qed

lemma FindStart_ge: "lineix \<le> length lines \<Longrightarrow> lineix \<le> FindNextMultiLineCommentStart lines lineix"
proof (induction lines lineix rule: FindNextMultiLineCommentStart.induct)
  case (1 lines lineix)
  then show ?case by (subst FindNextMultiLineCommentStart.simps) (auto simp: Suc_le_eq intro: less_imp_le)
qed

lemma FindEnd_ge: "lineix \<le> length lines \<Longrightarrow> lineix \<le> FindNextMultiLineCommentEnd lines lineix"
proof (induction lines lineix rule: FindNextMultiLineCommentEnd.induct)
  case (1 lines lineix)
  then show ?case by (subst FindNextMultiLineCommentEnd.simps) (auto simp: Suc_le_eq intro: less_imp_le)
qed

function remove_comments :: "string \<Rightarrow> string list \<Rightarrow> nat \<Rightarrow> string list \<times> report list" where
  "remove_comments filename lines lineix =
     (if lineix < length lines
      then let lineix_begin = FindNextMultiLineCommentStart lines lineix
           in if lineix_begin \<ge> length lines then (lines, [])
              else let lineix_end = FindNextMultiLineCommentEnd lines lineix_begin
                   in if lineix_end \<ge> length lines
                      then (lines, [Report filename (int lineix_begin + 1)
                              ''readability/multiline_comment'' 5
                              ''Could not find end of multi-line comment''])
                      else remove_comments filename
                        (RemoveMultiLineCommentsFromRange lines lineix_begin (lineix_end + 1))
                        (lineix_end + 1)
      else (lines, []))"
  by pat_completeness auto
termination
proof (relation "measure (\<lambda>(filename, lines, lineix). length lines - lineix)", goal_cases)
  case (2 filename lines lineix x y)
  then show ?case
    using FindStart_ge [of lineix lines] FindEnd_ge [of x lines] by auto
qed simp

declare remove_comments.simps [simp del]

definition RemoveMultiLineComments :: "string \<Rightarrow> string list \<Rightarrow> string list \<times> report list" where
  "RemoveMultiLineComments filename lines = remove_comments filename lines 0"

section \<open>Comments and string contents on one line\<close>

definition CleanseComments :: "string \<Rightarrow> string" where
  "CleanseComments line =
     (let line = (case find_idx ''//'' line of
                    Some commentpos \<Rightarrow>
                      if \<not> IsCppString (take commentpos line) then rstrip (take commentpos line)
                      else line
                  | None \<Rightarrow> line)
      in re_sub RE_PATTERN_CLEANSE_LINE_C_COMMENTS (\<lambda>_. []) line)"

definition quote_re :: re where
  \<open>quote_re = rx ''^([^`'"]*)([`'"])(.*)$''\<close>

definition digit_before_re :: re where
  \<open>digit_before_re = rx ''`b(?:0[bBxX]?|[1-9])[0-9a-fA-F]*$''\<close>

definition literal_re :: re where
  \<open>literal_re = rx ''^((?:`'?[0-9a-zA-Z_])*)(.*)$''\<close>

lemma rx_quote [rx_code]:
  "quote_re = Seq Bol (Seq (Grp 1 (Rep True 0 None (Cls False [CChar squote, CChar dquote])))
     (Seq (Grp 2 (Cls True [CChar squote, CChar dquote])) (Seq (Grp 3 (Rep True 0 None Any)) Eol)))"
  by code_simp

lemma rx_literal [rx_code]:
  "literal_re = Seq Bol (Seq (Grp 1 (Rep True 0 None (Seq (Rep True 0 (Some 1) (Lit squote))
     (Cls True [CRange CHR ''0'' CHR ''9'', CRange CHR ''a'' CHR ''z'', CRange CHR ''A'' CHR ''Z'',
       CChar CHR ''_''])))) (Seq (Grp 2 (Rep True 0 None Any)) Eol))"
  by code_simp

lemma digit_before_minlen: "0 < minlen digit_before_re"
  by code_simp

lemma quote_groups:
  assumes "Match quote_re elided = Some m"
  shows "length (gtext m 1) + length (gtext m 3) < length elided"
proof -
  obtain y where y: "y \<in> set (matches quote_re (init elided))" "m = mk_mobj (init elided) y"
    using assms by (auto simp: Match_def re_match_def dest: run_matches)
  from y(1) obtain x1 x2 x3 where
    x: "x1 \<in> set (matches (Rep True 0 None (Cls False [CChar squote, CChar dquote])) (init elided))"
      "x2 \<in> set (matches (Cls True [CChar squote, CChar dquote]) (capture 1 (init elided) x1))"
      "x3 \<in> set (matches (Rep True 0 None Any) (capture 2 (capture 1 (init elided) x1) x2))"
    and y': "y = capture 3 (capture 2 (capture 1 (init elided) x1) x2) x3"
    unfolding rx_quote by (auto simp only: in_matches)
  have "grp x1 = []" "grp x2 = grp (capture 1 (init elided) x1)"
    "grp x3 = grp (capture 2 (capture 1 (init elided) x1) x2)"
    using matches_grp [OF _ x(1)] matches_grp [OF _ x(2)] matches_grp [OF _ x(3)]
    by (simp_all add: init_def)
  then have g: "gtext m 1 = take (pos x1) elided" "gtext m 3 = take (pos x3 - pos x2) (rest x2)"
    by (simp_all add: y(2) y' mk_mobj_def init_def gtext_def group_def)
  note adv = matches_advances [OF x(1)] matches_advances [OF x(2)] matches_advances [OF x(3)]
  have "pos x3 \<le> length elided"
    using adv [THEN advances_length] by (simp add: init_def)
  then show ?thesis
    using adv [THEN advances_pos] matches_minlen [OF x(2)] by (simp add: g [simplified])
qed

lemma literal_groups:
  assumes "Match literal_re s = Some m"
  shows "length (gtext m 2) \<le> length s"
proof -
  obtain y where y: "y \<in> set (matches literal_re (init s))" "m = mk_mobj (init s) y"
    using assms by (auto simp: Match_def re_match_def dest: run_matches)
  from y(1) obtain x1 x2 where "advances (init s) x1" "y = capture 2 (capture 1 (init s) x1) x2"
    unfolding rx_literal by (auto simp only: in_matches dest!: matches_advances)
  then show ?thesis
    using advances_length [of "init s" x1]
    by (simp add: y(2) mk_mobj_def gtext_def group_def init_def)
qed

text \<open>The loop of \<open>_CollapseStrings\<close>.\<close>

function collapse_loop :: "string \<Rightarrow> string \<Rightarrow> string res" where
  "collapse_loop collapsed elided =
     (case Match quote_re elided of
        None \<Rightarrow> Inr (collapsed @ elided)
      | Some m \<Rightarrow>
        let head = gtext m 1; quote = gtext m 2; tail = gtext m 3
        in if quote = [dquote]
           then (case find_idx [dquote] tail of
                   Some second_quote \<Rightarrow>
                     collapse_loop (collapsed @ head @ [dquote, dquote]) (drop (second_quote + 1) tail)
                 | None \<Rightarrow> Inr (collapsed @ elided))
           else if matched (Search digit_before_re head)
           then (case Match literal_re (squote # tail) of
                   None \<Rightarrow> Inl AttributeError
                 | Some match_literal \<Rightarrow>
                     collapse_loop (collapsed @ head @ replace [squote] [] (gtext match_literal 1))
                       (gtext match_literal 2))
           else (case find_idx [squote] tail of
                   Some second_quote \<Rightarrow>
                     collapse_loop (collapsed @ head @ [squote, squote]) (drop (second_quote + 1) tail)
                 | None \<Rightarrow> Inr (collapsed @ elided)))"
  by pat_completeness auto
termination
proof (relation "measure (\<lambda>(collapsed, elided). length elided)", goal_cases)
  case (3 collapsed elided m head quote tail ml)
  have "0 < length head"
    using 3 re_search_minlen [of digit_before_re head] digit_before_minlen
    by (auto simp: Search_def)
  moreover have "length (gtext ml 2) \<le> Suc (length tail)"
    using 3 literal_groups [of "squote # tail" ml] by simp
  moreover have "length head + length tail < length elided"
    using 3 quote_groups [of elided m] by simp
  ultimately have "length (gtext ml 2) < length elided" by linarith
  then show ?case by simp
qed (auto dest!: quote_groups)

declare collapse_loop.simps [simp del]

definition CollapseStrings :: "string \<Rightarrow> string res" where
  "CollapseStrings elided =
     (if matched (re_match RE_PATTERN_INCLUDE elided) then Inr elided
      else collapse_loop [] (re_sub RE_PATTERN_CLEANSE_LINE_ESCAPES (\<lambda>_. []) elided))"

section \<open>\<open>CleansedLines\<close>\<close>

record CleansedLines =
  elided :: "string list"
  lines :: "string list"
  raw_lines :: "string list"
  num_lines :: nat
  lines_without_raw_strings :: "string list"

definition new_CleansedLines :: "string list \<Rightarrow> CleansedLines res" where
  "new_CleansedLines ls =
     bind_res (CleanseRawStrings ls) (\<lambda>without.
     bind_res (map_res (\<lambda>l. bind_res (CollapseStrings l) (\<lambda>e. Inr (CleanseComments e))) without) (\<lambda>es.
       Inr \<lparr>elided = es, lines = map CleanseComments without, raw_lines = ls,
            num_lines = length ls, lines_without_raw_strings = without\<rparr>))"

definition NumLines :: "CleansedLines \<Rightarrow> nat" where
  "NumLines c = num_lines c"

section \<open>Small predicates on lines\<close>

definition IsBlankLine :: "string \<Rightarrow> bool" where
  "IsBlankLine line \<longleftrightarrow> line = [] \<or> list_all is_space line"

definition GetIndentLevel :: "string \<Rightarrow> int" where
  "GetIndentLevel line =
     (case Match (rx ''^( *)`S'') line of Some indent \<Rightarrow> int (length (gtext indent 1)) | None \<Rightarrow> 0)"

end
