(* ===== verification/Expression.thy ===== *)
theory Expression
  imports Cleanse
begin

text \<open>
  Matching of brackets over the cleansed lines: \<open>CloseExpression\<close> scans forward from an opening
  bracket, \<open>ReverseCloseExpression\<close> backward from a closing one. The stack of the code, a list
  that grows at its end, is a string whose head is the top. The position -1 is \<open>None\<close>, and so is
  the stack that a scan gives up.
\<close>

section \<open>Scanning forward\<close>

datatype scan = Found | Unclosed | Go string

definition operator_re :: re where
  \<open>operator_re = rx ''`boperator`s*$''\<close>

definition closes :: "char \<Rightarrow> char \<Rightarrow> bool" where
  "closes opn cls \<longleftrightarrow> (opn, cls) \<in>
     {(CHR ''('', CHR '')''), (CHR ''['', CHR '']''), (CHR ''{'', CHR ''}'')}"

abbreviation drop_angle :: "char \<Rightarrow> string \<Rightarrow> string" where
  "drop_angle a stack \<equiv> dropWhile (\<lambda>c. c = a) stack"

text \<open>One round of the loop of \<open>FindEndOfExpressionInLine\<close>, at position \<open>i\<close>.\<close>

definition end_step :: "string \<Rightarrow> nat \<Rightarrow> string \<Rightarrow> scan" where
  "end_step line i stack =
     (let char = line ! i in
      if char \<in> set ''([{'' then Go (char # stack)
      else if char = CHR ''<'' then
        (if i > 0 \<and> line ! (i - 1) = CHR ''<'' then
           (case stack of
              t # ts \<Rightarrow> if t = CHR ''<'' then (if ts = [] then Unclosed else Go ts) else Go stack
            | [] \<Rightarrow> Go stack)
         else if i > 0 \<and> matched (Search operator_re (take i line)) then Go stack
         else Go (CHR ''<'' # stack))
      else if char \<in> set '')]}'' then
        (case drop_angle CHR ''<'' stack of
           [] \<Rightarrow> Unclosed
         | t # ts \<Rightarrow> if closes t char then (if ts = [] then Found else Go ts) else Unclosed)
      else if char = CHR ''>'' then
        (if i > 0 \<and> (line ! (i - 1) = CHR ''-'' \<or>
             matched (Search operator_re (take (i - 1) line))) then Go stack
         else case stack of
                t # ts \<Rightarrow> if t = CHR ''<'' then (if ts = [] then Found else Go ts) else Go stack
              | [] \<Rightarrow> Go stack)
      else if char = CHR '';'' then
        (case drop_angle CHR ''<'' stack of [] \<Rightarrow> Unclosed | t # ts \<Rightarrow> Go (t # ts))
      else Go stack)"

function FindEndOfExpressionInLine ::
  "string \<Rightarrow> nat \<Rightarrow> string \<Rightarrow> nat option \<times> string option" where
  "FindEndOfExpressionInLine line i stack =
     (if i < length line
      then case end_step line i stack of
             Found \<Rightarrow> (Some (i + 1), None)
           | Unclosed \<Rightarrow> (None, None)
           | Go stack' \<Rightarrow> FindEndOfExpressionInLine line (i + 1) stack'
      else (None, Some stack))"
  by pat_completeness auto
termination
  by (relation "measure (\<lambda>(line, i, stack). length line - i)") auto

declare FindEndOfExpressionInLine.simps [simp del]

text \<open>The loop over the following lines of \<open>CloseExpression\<close>.\<close>

function close_loop ::
  "CleansedLines \<Rightarrow> string \<Rightarrow> nat \<Rightarrow> string option \<Rightarrow> (string \<times> nat \<times> nat option) res" where
  "close_loop clean_lines line linenum stack =
     (if stack \<noteq> None \<and> stack \<noteq> Some [] \<and> linenum + 1 < NumLines clean_lines
      then bind_res (py_nth (elided clean_lines) (int linenum + 1)) (\<lambda>line.
             case FindEndOfExpressionInLine line 0 (the stack) of
               (Some end_pos, _) \<Rightarrow> Inr (line, linenum + 1, Some end_pos)
             | (None, stack) \<Rightarrow> close_loop clean_lines line (linenum + 1) stack)
      else Inr (line, NumLines clean_lines, None))"
  by pat_completeness auto
termination
  by (relation "measure (\<lambda>(c, line, linenum, stack). NumLines c - linenum)") auto

declare close_loop.simps [simp del]

definition CloseExpression ::
  "CleansedLines \<Rightarrow> nat \<Rightarrow> nat \<Rightarrow> (string \<times> nat \<times> nat option) res" where
  "CloseExpression clean_lines linenum p =
     bind_res (py_nth (elided clean_lines) (int linenum)) (\<lambda>line.
     bind_res (py_nth line (int p)) (\<lambda>char.
       if char \<notin> set ''({[<'' \<or> matched (Match (rx ''<[<=]'') (drop p line))
       then Inr (line, NumLines clean_lines, None)
       else case FindEndOfExpressionInLine line p [] of
              (Some end_pos, _) \<Rightarrow> Inr (line, linenum, Some end_pos)
            | (None, stack) \<Rightarrow> close_loop clean_lines line linenum stack))"

section \<open>Scanning backward\<close>

text \<open>One round of the loop of \<open>FindStartOfExpressionInLine\<close>: the outcome, and whether \<open>i\<close> is
  decremented once more.\<close>

definition start_step :: "string \<Rightarrow> nat \<Rightarrow> string \<Rightarrow> scan \<times> bool" where
  "start_step line i stack =
     (let char = line ! i in
      if char \<in> set '')]}'' then (Go (char # stack), False)
      else if char = CHR ''>'' then
        (if i > 0 \<and> (line ! (i - 1) = CHR ''-'' \<or>
             matched (Match (rx ''`s>=`s'') (drop (i - 1) line)) \<or>
             matched (Search operator_re (take i line)))
         then (Go stack, True) else (Go (CHR ''>'' # stack), False))
      else if char = CHR ''<'' then
        (if i > 0 \<and> line ! (i - 1) = CHR ''<'' then (Go stack, True)
         else case stack of
                t # ts \<Rightarrow> if t = CHR ''>'' then (if ts = [] then (Found, False) else (Go ts, False))
                  else (Go stack, False)
              | [] \<Rightarrow> (Go stack, False))
      else if char \<in> set ''([{'' then
        (case drop_angle CHR ''>'' stack of
           [] \<Rightarrow> (Unclosed, False)
         | t # ts \<Rightarrow>
             if closes char t then (if ts = [] then (Found, False) else (Go ts, False))
             else (Unclosed, False))
      else if char = CHR '';'' then
        (case drop_angle CHR ''>'' stack of
           [] \<Rightarrow> (Unclosed, False) | t # ts \<Rightarrow> (Go (t # ts), False))
      else (Go stack, False))"

text \<open>The loop runs while \<open>i >= 0\<close>; the argument \<open>n\<close> is \<open>i + 1\<close>.\<close>

fun find_start :: "string \<Rightarrow> nat \<Rightarrow> string \<Rightarrow> nat option \<times> string option" where
  "find_start line 0 stack = (None, Some stack)"
| "find_start line (Suc i) stack =
     (case start_step line i stack of
        (Found, _) \<Rightarrow> (Some i, None)
      | (Unclosed, _) \<Rightarrow> (None, None)
      | (Go stack', skip) \<Rightarrow> find_start line (if skip then i - 1 else i) stack')"

definition FindStartOfExpressionInLine ::
  "string \<Rightarrow> int \<Rightarrow> string \<Rightarrow> nat option \<times> string option" where
  "FindStartOfExpressionInLine line endpos stack = find_start line (nat (endpos + 1)) stack"

fun reverse_loop ::
  "CleansedLines \<Rightarrow> string \<Rightarrow> nat \<Rightarrow> string option \<Rightarrow> (string \<times> nat \<times> nat option) res" where
  "reverse_loop clean_lines line 0 stack = Inr (line, 0, None)"
| "reverse_loop clean_lines line (Suc linenum) stack =
     (if stack \<noteq> None \<and> stack \<noteq> Some []
      then bind_res (py_nth (elided clean_lines) (int linenum)) (\<lambda>line.
             case FindStartOfExpressionInLine line (int (length line) - 1) (the stack) of
               (Some start_pos, _) \<Rightarrow> Inr (line, linenum, Some start_pos)
             | (None, stack) \<Rightarrow> reverse_loop clean_lines line linenum stack)
      else Inr (line, 0, None))"

definition ReverseCloseExpression ::
  "CleansedLines \<Rightarrow> nat \<Rightarrow> nat \<Rightarrow> (string \<times> nat \<times> nat option) res" where
  "ReverseCloseExpression clean_lines linenum p =
     bind_res (py_nth (elided clean_lines) (int linenum)) (\<lambda>line.
     bind_res (py_nth line (int p)) (\<lambda>char.
       if char \<notin> set '')}]>'' then Inr (line, 0, None)
       else case FindStartOfExpressionInLine line (int p) [] of
              (Some start_pos, _) \<Rightarrow> Inr (line, linenum, Some start_pos)
            | (None, stack) \<Rightarrow> reverse_loop clean_lines line linenum stack))"

end
