(* ===== verification/Cleanse_Laws.thy ===== *)
theory Cleanse_Laws
  imports Cleanse
begin

text \<open>
  What the preprocessing guarantees: no pass raises, every pass keeps the number of lines, the
  contents of strings and the comments are gone and nothing else is, and the removal of
  multi-line comments agrees with a recursive reference definition.
\<close>

section \<open>No pass raises\<close>

lemma rx_leading [rx_code]:
  \<open>rx ''^(`s*)`S'' = Seq Bol (Seq (Grp 1 (Rep True 0 None (Cls True [CSpace True])))
     (Cls True [CSpace False]))\<close>
  by code_simp

lemma cls_space [simp]: "cls_has True [CSpace p] c \<longleftrightarrow> is_space c = p"
  by (simp add: cls_has_def)

lemma takeWhile_not_all: "\<exists>c \<in> set s. \<not> P c \<Longrightarrow> drop (length (takeWhile P s)) s \<noteq> []"
  by (metis drop_eq_Nil2 dropWhile_eq_Nil_conv dropWhile_eq_drop)

lemma Match_leading:
  assumes "\<exists>c \<in> set line. \<not> is_space c"
  obtains m where \<open>Match (rx ''^(`s*)`S'') line = Some m\<close> "gtext m 1 = takeWhile is_space line"
proof -
  let ?x = "init line"
  let ?k = "length (takeWhile is_space line)"
  let ?y = "capture 1 ?x (adv ?k ?x)"
  have P: "cls_has True [CSpace True] = is_space" by (auto simp: fun_eq_iff)
  have "matches (Seq (Grp 1 (Rep True 0 None (Cls True [CSpace True]))) (Cls True [CSpace False])) ?x =
      matches (Cls True [CSpace False]) (capture 1 ?x (adv (span is_space ?x) ?x))"
    using matches_captured_run [of True "[CSpace True]" "Cls True [CSpace False]" 1 ?x]
    by (simp add: P step_adv)
  also have "span is_space ?x = ?k" by (simp add: init_def)
  also have "matches (Cls True [CSpace False]) ?y = [adv 1 ?y]"
    using takeWhile_not_all [OF assms] nth_length_takeWhile [of is_space line]
    by (auto simp: step_adv init_def hd_drop_conv_nth)
  finally have "run (rx ''^(`s*)`S'') ?x = Some (adv 1 ?y)"
    by (simp add: run_def rx_leading init_def)
  moreover have "takeWhile is_space line = take ?k line"
    by (metis takeWhile_eq_take)
  ultimately show thesis
    by (intro that [of "mk_mobj ?x (adv 1 ?y)"])
      (simp_all add: Match_def re_match_def mk_mobj_def gtext_def group_def init_def)
qed

text \<open>The delimiter of an open raw string starts with a parenthesis, so the line that closes it
  has a character that is not white space.\<close>

definition delimiter_ok :: "string option \<Rightarrow> bool" where
  "delimiter_ok d \<longleftrightarrow> (\<forall>s. d = Some s \<longrightarrow> (\<exists>t. s = CHR '')'' # t))"

lemma raw_loop_delimiter: "delimiter_ok (fst (raw_loop line))"
proof (induction line rule: raw_loop.induct)
  case (1 line)
  then show ?case
    by (subst raw_loop.simps) (auto simp: Let_def delimiter_ok_def split: option.splits)
qed

lemma find_idx_Some_set: "find_idx (c # t) s = Some k \<Longrightarrow> c \<in> set s"
  by (induction s arbitrary: k) (auto simp: find_idx_Cons split: if_splits)

lemma not_space_paren: "\<not> is_space CHR '')''"
  by code_simp

lemma cleanse_raw_total:
  "delimiter_ok d \<Longrightarrow> \<exists>ls'. cleanse_raw d ls = Inr ls' \<and> length ls' = length ls"
proof (induction ls arbitrary: d)
  case Nil
  show ?case by simp
next
  case (Cons line ls)
  have rest: "\<exists>ls'. bind_res (cleanse_raw (fst p) ls) (\<lambda>ls. Inr (snd p # ls)) = Inr ls' \<and>
      length ls' = length (line # ls)" if "delimiter_ok (fst p)" for p
    using Cons.IH [OF that] by auto
  show ?case
  proof (cases d)
    case None
    then show ?thesis using rest [OF raw_loop_delimiter [of line]] by (simp add: case_prod_unfold)
  next
    case (Some s)
    show ?thesis
    proof (cases "find_idx s line")
      case None
      then show ?thesis using rest [of "(Some s, [dquote, dquote])"] Some Cons.prems by simp
    next
      case (Some k)
      then have "CHR '')'' \<in> set line"
        using \<open>d = Some s\<close> Cons.prems by (auto simp: delimiter_ok_def dest: find_idx_Some_set)
      then obtain m where "Match (rx ''^(`s*)`S'') line = Some m"
        using not_space_paren Match_leading [of line] by blast
      then show ?thesis
        using rest [OF raw_loop_delimiter [of "gtext m 1 @ [dquote, dquote] @ drop (k + length s) line"]]
          \<open>d = Some s\<close> Some by (simp add: case_prod_unfold)
    qed
  qed
qed

lemma literal_total:
  assumes "newline \<notin> set s"
  shows "Match literal_re s \<noteq> None"
proof -
  let ?x = "init s"
  let ?y = "capture 1 ?x ?x"
  let ?r = "Seq (Rep True 0 (Some 1) (Lit squote)) (Cls True [CRange CHR ''0'' CHR ''9'',
      CRange CHR ''a'' CHR ''z'', CRange CHR ''A'' CHR ''Z'', CChar CHR ''_''])"
  have "?x \<in> set (matches (Rep True 0 None ?r) ?x)"
    using star_zero [of ?x True None ?r] by (simp add: matches_Rep)
  then have y: "?y \<in> set (matches (Grp 1 (Rep True 0 None ?r)) ?x)"
    by (subst in_Grp) blast
  have "matches (Seq (Grp 2 (Rep True 0 None Any)) Eol) ?y = [capture 2 ?y (adv (length s) ?y)]"
    using matches_rest [of ?y 2] assms by (simp del: matches.simps)
  with y have "capture 2 ?y (adv (length s) ?y) \<in>
      set (matches (Seq (Grp 1 (Rep True 0 None ?r)) (Seq (Grp 2 (Rep True 0 None Any)) Eol)) ?x)"
    by (subst in_Seq) (metis list.set_intros(1))
  then have "matches literal_re ?x \<noteq> []"
    by (auto simp: rx_literal simp del: matches.simps(3,8,9,11) simp: matches.simps(8) [of Bol])
  then show ?thesis
    by (auto simp: Match_def re_match_def run_def split: list.splits)
qed

lemma quote_tail:
  assumes "Match quote_re line = Some m"
  shows "newline \<notin> set (gtext m 3)"
proof -
  obtain y where y: "y \<in> set (matches quote_re (init line))" "m = mk_mobj (init line) y"
    using assms by (auto simp: Match_def re_match_def dest: run_matches)
  from y(1) obtain x1 x2 where "x2 \<in> set (matches (Rep True 0 None Any) x1)" "y = capture 3 x1 x2"
    unfolding rx_quote by (auto simp only: in_matches)
  then show ?thesis
    using matches_Any_newline [of x2 x1] by (simp add: y(2) mk_mobj_def gtext_def group_def)
qed

lemma collapse_loop_total: "\<exists>s. collapse_loop collapsed line = Inr s"
proof (induction collapsed line rule: collapse_loop.induct)
  case (1 collapsed line)
  show ?case
  proof (cases "Match quote_re line")
    case None
    then show ?thesis by (subst collapse_loop.simps) simp
  next
    case (Some m)
    have "Match literal_re (squote # gtext m 3) \<noteq> None"
      using quote_tail [OF Some] by (intro literal_total) auto
    then obtain ml where "Match literal_re (squote # gtext m 3) = Some ml" by blast
    with Some "1.IH"(1) [OF Some refl refl refl] "1.IH"(2) [OF Some refl refl refl]
      "1.IH"(3) [OF Some refl refl refl]
    show ?thesis
      by (subst collapse_loop.simps) (simp add: Let_def split: option.splits)
  qed
qed

lemma CollapseStrings_total: "\<exists>s. CollapseStrings line = Inr s"
  using collapse_loop_total by (simp add: CollapseStrings_def)

section \<open>Every pass keeps the number of lines\<close>

locale line_pass =
  fixes pass :: "string list \<Rightarrow> string list res"
  assumes total: "\<exists>ls'. pass ls = Inr ls'"
    and same_length: "pass ls = Inr ls' \<Longrightarrow> length ls' = length ls"
begin

lemma passE:
  obtains ls' where "pass ls = Inr ls'" "length ls' = length ls"
  using total [of ls] same_length by blast

end

locale two_passes = first: line_pass pass1 + second: line_pass pass2
  for pass1 :: "string list \<Rightarrow> string list res" and pass2 :: "string list \<Rightarrow> string list res"
begin

sublocale both: line_pass "\<lambda>ls. bind_res (pass1 ls) pass2"
proof
  fix ls ls'
  obtain us where us: "pass1 ls = Inr us" "length us = length ls" by (rule first.passE)
  obtain vs where vs: "pass2 us = Inr vs" "length vs = length us" by (rule second.passE)
  show "\<exists>ls'. bind_res (pass1 ls) pass2 = Inr ls'" using us vs by simp
  show "bind_res (pass1 ls) pass2 = Inr ls' \<Longrightarrow> length ls' = length ls" using us vs by simp
qed

end

definition elide_line :: "string \<Rightarrow> string res" where
  "elide_line l = bind_res (CollapseStrings l) (\<lambda>e. Inr (CleanseComments e))"

lemma elide_line_total: "\<exists>e. elide_line l = Inr e"
  using CollapseStrings_total [of l] by (auto simp: elide_line_def)

lemma map_elide: "map_res elide_line ls = Inr (map (\<lambda>l. projr (elide_line l)) ls)"
  using elide_line_total by (intro map_res_total) (metis sum.sel(2))

interpretation raw_pass: line_pass CleanseRawStrings
proof
  fix ls ls'
  have "\<exists>ls'. cleanse_raw None ls = Inr ls' \<and> length ls' = length ls"
    by (rule cleanse_raw_total) (simp add: delimiter_ok_def)
  then show "\<exists>ls'. CleanseRawStrings ls = Inr ls'"
    and "CleanseRawStrings ls = Inr ls' \<Longrightarrow> length ls' = length ls"
    by (auto simp: CleanseRawStrings_def)
qed

interpretation elide_pass: line_pass "map_res elide_line"
  by standard (auto simp: map_elide)

interpretation elided_of: two_passes CleanseRawStrings "map_res elide_line" ..

lemma new_CleansedLines_total:
  obtains c where "new_CleansedLines ls = Inr c" "raw_lines c = ls" "num_lines c = length ls"
    "length (elided c) = length ls" "length (lines c) = length ls"
    "length (lines_without_raw_strings c) = length ls"
proof -
  obtain us where us: "CleanseRawStrings ls = Inr us" "length us = length ls"
    by (rule raw_pass.passE)
  obtain es where es: "bind_res (CleanseRawStrings ls) (map_res elide_line) = Inr es"
      "length es = length ls"
    by (rule elided_of.both.passE)
  have "map_res (\<lambda>l. bind_res (CollapseStrings l) (\<lambda>e. Inr (CleanseComments e))) us = Inr es"
    using us(1) es(1) by (simp add: elide_line_def [abs_def])
  with us es(2) show thesis
    by (intro that [of "\<lparr>elided = es, lines = map CleanseComments us, raw_lines = ls,
        num_lines = length ls, lines_without_raw_strings = us\<rparr>"])
      (simp_all add: new_CleansedLines_def)
qed

section \<open>Multi-line comments: the reference\<close>

definition starts_comment :: "string \<Rightarrow> bool" where
  "starts_comment l \<longleftrightarrow> startswith (strip l) ''/*'' \<and> find_from ''*/'' (strip l) 2 = None"

definition ends_comment :: "string \<Rightarrow> bool" where
  "ends_comment l \<longleftrightarrow> endswith (strip l) ''*/''"

text \<open>Lines from one that starts a comment to the next that ends one are blanked; the second
  component is the position of a comment that is not ended.\<close>

function comment_ref :: "string list \<Rightarrow> string list \<times> nat option" where
  "comment_ref [] = ([], None)"
| "comment_ref (l # ls) =
     (if starts_comment l
      then (case dropWhile (\<lambda>l. \<not> ends_comment l) (l # ls) of
              [] \<Rightarrow> (l # ls, Some 0)
            | _ # later \<Rightarrow>
              let n = Suc (length (takeWhile (\<lambda>l. \<not> ends_comment l) (l # ls)))
              in (replicate n ''/**/'' @ fst (comment_ref later),
                  map_option (\<lambda>k. n + k) (snd (comment_ref later))))
      else (l # fst (comment_ref ls), map_option Suc (snd (comment_ref ls))))"
  by pat_completeness auto
termination
proof (relation "measure length", goal_cases)
  case (2 l ls x later)
  then have "length (x # later) \<le> length (l # ls)"
    by (metis length_dropWhile_le)
  then show ?case by simp
next
  case (3 l ls x later)
  then have "length (x # later) \<le> length (l # ls)"
    by (metis length_dropWhile_le)
  then show ?case by simp
qed auto

declare comment_ref.simps(2) [simp del]

lemma comment_ref_plain:
  "\<not> starts_comment l \<Longrightarrow>
     comment_ref (l # ls) = (l # fst (comment_ref ls), map_option Suc (snd (comment_ref ls)))"
  by (simp add: comment_ref.simps(2))

lemma comment_ref_open:
  "starts_comment l \<Longrightarrow> dropWhile (\<lambda>l. \<not> ends_comment l) (l # ls) = [] \<Longrightarrow>
     comment_ref (l # ls) = (l # ls, Some 0)"
  by (simp only: comment_ref.simps(2) if_True list.case)

lemma comment_ref_block:
  "starts_comment l \<Longrightarrow> dropWhile (\<lambda>l. \<not> ends_comment l) (l # ls) = x # later \<Longrightarrow>
     n = Suc (length (takeWhile (\<lambda>l. \<not> ends_comment l) (l # ls))) \<Longrightarrow>
     comment_ref (l # ls) = (replicate n ''/**/'' @ fst (comment_ref later),
       map_option (\<lambda>k. n + k) (snd (comment_ref later)))"
  by (simp only: comment_ref.simps(2) if_True list.case Let_def)

lemma FindStart_takeWhile:
  "FindNextMultiLineCommentStart (pre @ ls) (length pre) =
     length pre + length (takeWhile (\<lambda>l. \<not> starts_comment l) ls)"
proof (induction ls arbitrary: pre)
  case Nil
  show ?case by (subst FindNextMultiLineCommentStart.simps) simp
next
  case (Cons l ls)
  have "FindNextMultiLineCommentStart (pre @ l # ls) (Suc (length pre)) =
      Suc (length pre) + length (takeWhile (\<lambda>l. \<not> starts_comment l) ls)"
    using Cons [of "pre @ [l]"] by simp
  then show ?case
    by (subst FindNextMultiLineCommentStart.simps) (auto simp: starts_comment_def)
qed

lemma FindEnd_takeWhile:
  "FindNextMultiLineCommentEnd (pre @ ls) (length pre) =
     length pre + length (takeWhile (\<lambda>l. \<not> ends_comment l) ls)"
proof (induction ls arbitrary: pre)
  case Nil
  show ?case by (subst FindNextMultiLineCommentEnd.simps) simp
next
  case (Cons l ls)
  have "FindNextMultiLineCommentEnd (pre @ l # ls) (Suc (length pre)) =
      Suc (length pre) + length (takeWhile (\<lambda>l. \<not> ends_comment l) ls)"
    using Cons [of "pre @ [l]"] by simp
  then show ?case
    by (subst FindNextMultiLineCommentEnd.simps) (auto simp: ends_comment_def)
qed

lemma RemoveRange_replicate:
  "RemoveMultiLineCommentsFromRange (pre @ mid @ post) (length pre) (length pre + length mid) =
     pre @ replicate (length mid) ''/**/'' @ post"
proof (induction mid arbitrary: pre)
  case Nil
  show ?case by (simp add: RemoveMultiLineCommentsFromRange_def)
next
  case (Cons l mid)
  have "[length pre..<length pre + length (l # mid)] =
      length pre # [length (pre @ [''/**/''])..<length (pre @ [''/**/'']) + length mid]"
    by (simp add: upt_conv_Cons del: upt_Suc)
  with Cons [of "pre @ [''/**/'']"] show ?case
    by (simp add: RemoveMultiLineCommentsFromRange_def)
qed

lemma comment_ref_skip:
  "list_all (\<lambda>l. \<not> starts_comment l) us \<Longrightarrow>
     comment_ref (us @ ls) = (us @ fst (comment_ref ls), map_option (\<lambda>k. length us + k) (snd (comment_ref ls)))"
proof (induction us)
  case Nil
  show ?case by (simp add: option.map_ident)
next
  case (Cons u us)
  then show ?case by (simp add: comment_ref.simps(2) option.map_comp comp_def)
qed

definition unterminated :: "string \<Rightarrow> nat option \<Rightarrow> report list" where
  "unterminated filename e = (case e of None \<Rightarrow> []
     | Some k \<Rightarrow> [Report filename (int k + 1) ''readability/multiline_comment'' 5
         ''Could not find end of multi-line comment''])"

lemma remove_comments_ref:
  "remove_comments filename (pre @ ls) (length pre) =
     (pre @ fst (comment_ref ls),
      unterminated filename (map_option (\<lambda>k. length pre + k) (snd (comment_ref ls))))"
proof (induction "length ls" arbitrary: pre ls rule: less_induct)
  case less
  define us where "us = takeWhile (\<lambda>l. \<not> starts_comment l) ls"
  define vs where "vs = dropWhile (\<lambda>l. \<not> starts_comment l) ls"
  have ls: "ls = us @ vs" by (simp add: us_def vs_def)
  have us: "list_all (\<lambda>l. \<not> starts_comment l) us"
    by (auto simp: us_def list_all_iff dest: set_takeWhileD)
  have b: "FindNextMultiLineCommentStart (pre @ ls) (length pre) = length (pre @ us)"
    by (simp add: FindStart_takeWhile us_def)
  show ?case
  proof (cases vs)
    case Nil
    with comment_ref_skip [OF us, of "[]"] ls b show ?thesis
      by (subst remove_comments.simps) (simp add: unterminated_def)
  next
    case (Cons v vs')
    define ms where "ms = takeWhile (\<lambda>l. \<not> ends_comment l) vs"
    have v: "starts_comment v"
      using Cons hd_dropWhile [of "\<lambda>l. \<not> starts_comment l" ls] by (simp add: vs_def)
    have e: "FindNextMultiLineCommentEnd (pre @ ls) (length (pre @ us)) = length (pre @ us @ ms)"
      using FindEnd_takeWhile [of "pre @ us" vs] ls by (simp add: ms_def)
    show ?thesis
    proof (cases "dropWhile (\<lambda>l. \<not> ends_comment l) vs")
      case Nil
      then have "ms = vs" by (metis append_Nil2 ms_def takeWhile_dropWhile_id)
      with Nil Cons v b e ls show ?thesis
        by (subst remove_comments.simps)
          (simp add: comment_ref_skip [OF us] comment_ref.simps(2) unterminated_def)
    next
      case (Cons w later)
      have vs_split: "vs = (ms @ [w]) @ later"
        using takeWhile_dropWhile_id [of "\<lambda>l. \<not> ends_comment l" vs] Cons by (simp add: ms_def)
      have "RemoveMultiLineCommentsFromRange (pre @ ls) (length (pre @ us)) (length (pre @ us @ ms) + 1) =
          (pre @ us) @ replicate (length (ms @ [w])) ''/**/'' @ later"
        using RemoveRange_replicate [of "pre @ us" "ms @ [w]" later] ls vs_split
        by (simp add: add.assoc)
      note range = this
      let ?pre = "(pre @ us) @ replicate (length (ms @ [w])) ''/**/''"
      have IH: "remove_comments filename (?pre @ later) (length ?pre) =
          (?pre @ fst (comment_ref later),
           unterminated filename (map_option (\<lambda>k. length ?pre + k) (snd (comment_ref later))))"
        by (rule less) (simp add: ls vs_split)
      have "\<not> length (pre @ ls) \<le> length (pre @ us)" "length pre < length (pre @ ls)"
        "\<not> length (pre @ ls) \<le> length (pre @ us @ ms)"
        by (simp_all add: ls vs_split)
      then have "remove_comments filename (pre @ ls) (length pre) =
          remove_comments filename (?pre @ later) (length ?pre)"
        by (subst remove_comments.simps) (simp only: b e Let_def if_True if_False range, simp)
      moreover have "comment_ref vs = (replicate (length (ms @ [w])) ''/**/'' @ fst (comment_ref later),
          map_option (\<lambda>k. length (ms @ [w]) + k) (snd (comment_ref later)))"
        using \<open>vs = v # vs'\<close> v Cons
        by (auto simp: comment_ref.simps(2) ms_def intro!: map_option_cong)
      ultimately show ?thesis
        using IH comment_ref_skip [OF us, of vs] ls
        by (simp add: option.map_comp comp_def add.assoc)
    qed
  qed
qed

lemma comment_ref_length: "length (fst (comment_ref ls)) = length ls"
proof (induction ls rule: comment_ref.induct)
  case 1
  show ?case by simp
next
  case (2 l ls)
  have "length (takeWhile (\<lambda>l. \<not> ends_comment l) (l # ls)) +
      length (dropWhile (\<lambda>l. \<not> ends_comment l) (l # ls)) = length (l # ls)"
    by (metis length_append takeWhile_dropWhile_id)
  with 2 show ?case
    by (auto simp: comment_ref.simps(2) simp del: takeWhile.simps dropWhile.simps split: list.splits)
qed

lemma blank_not_start: "\<not> starts_comment ''/**/''"
  by code_simp

text \<open>Without an error, no line that is left starts a multi-line comment.\<close>

lemma comment_ref_done: "snd (comment_ref ls) = None \<Longrightarrow> list_all (\<lambda>l. \<not> starts_comment l) (fst (comment_ref ls))"
proof (induction ls rule: comment_ref.induct)
  case 1
  show ?case by simp
next
  case (2 l ls)
  consider "\<not> starts_comment l" | "starts_comment l" "dropWhile (\<lambda>l. \<not> ends_comment l) (l # ls) = []"
    | x later where "starts_comment l" "dropWhile (\<lambda>l. \<not> ends_comment l) (l # ls) = x # later"
    by (cases "dropWhile (\<lambda>l. \<not> ends_comment l) (l # ls)") blast+
  then show ?case
  proof cases
    case 1
    with "2.prems" "2.IH"(3) show ?thesis by (simp add: comment_ref_plain)
  next
    case 2
    with "2.prems" show ?thesis by (simp add: comment_ref_open)
  next
    case 3
    note block = comment_ref_block [OF 3 refl]
    have "list_all (\<lambda>l. \<not> starts_comment l) (fst (comment_ref later))"
      using "2.prems" "2.IH"(1) [OF 3 refl] by (simp add: block)
    then show ?thesis
      unfolding block list_all_append fst_conv
      using blank_not_start by (simp only: list_all_iff in_set_replicate) simp
  qed
qed

lemma comment_ref_same:
  "i < length ls \<Longrightarrow> fst (comment_ref ls) ! i = ls ! i \<or> fst (comment_ref ls) ! i = ''/**/''"
proof (induction ls arbitrary: i rule: comment_ref.induct)
  case 1
  then show ?case by simp
next
  case (2 l ls)
  show ?case
  proof (cases "starts_comment l")
    case False
    with 2 show ?thesis by (cases i) (auto simp: comment_ref.simps(2))
  next
    case True
    show ?thesis
    proof (cases "dropWhile (\<lambda>l. \<not> ends_comment l) (l # ls)")
      case Nil
      with True show ?thesis by (simp only: comment_ref_open fst_conv) simp
    next
      case (Cons x later)
      let ?ms = "takeWhile (\<lambda>l. \<not> ends_comment l) (l # ls)"
      have split: "l # ls = ?ms @ x # later"
        by (metis Cons takeWhile_dropWhile_id)
      have ref: "fst (comment_ref (l # ls)) = replicate (Suc (length ?ms)) ''/**/'' @ fst (comment_ref later)"
        by (simp only: comment_ref_block [OF True Cons refl] fst_conv)
      show ?thesis
      proof (cases "i < Suc (length ?ms)")
        case True
        then show ?thesis unfolding ref by (simp add: nth_append del: replicate_Suc)
      next
        case False
        then have i: "i - Suc (length ?ms) < length later"
          using "2.prems" split by (metis add_Suc_right length_Cons length_append less_diff_conv2 not_less add.commute add_Suc)
        have "(l # ls) ! i = later ! (i - Suc (length ?ms))"
          using False by (subst split) (simp add: nth_append nth_Cons')
        moreover have "fst (comment_ref (l # ls)) ! i = fst (comment_ref later) ! (i - Suc (length ?ms))"
          using False unfolding ref by (simp add: nth_append del: replicate_Suc)
        ultimately show ?thesis
          using "2.IH"(1) [OF True Cons refl i] by simp
      qed
    qed
  qed
qed

section \<open>String contents and comments on one line\<close>

lemma cls_quote [simp]:
  "cls_has False [CChar squote, CChar dquote] c \<longleftrightarrow> c \<noteq> squote \<and> c \<noteq> dquote"
  "cls_has True [CChar squote, CChar dquote] c \<longleftrightarrow> c = squote \<or> c = dquote"
  by (auto simp: cls_has_def)

abbreviation is_quote :: "char \<Rightarrow> bool" where "is_quote c \<equiv> c = squote \<or> c = dquote"

lemma quote_re_matches:
  "matches quote_re (init s) =
     (let k = length (takeWhile (\<lambda>c. \<not> is_quote c) s); y = capture 1 (init s) (adv k (init s))
      in if k < length s then matches (Seq (Grp 3 (Rep True 0 None Any)) Eol) (capture 2 y (adv 1 y))
         else [])"
proof -
  let ?r = "Seq (Grp 2 (Cls True [CChar squote, CChar dquote])) (Seq (Grp 3 (Rep True 0 None Any)) Eol)"
  let ?k = "length (takeWhile (\<lambda>c. \<not> is_quote c) s)"
  let ?y = "capture 1 (init s) (adv ?k (init s))"
  have P: "cls_has False [CChar squote, CChar dquote] = (\<lambda>c. \<not> is_quote c)" by (auto simp: fun_eq_iff)
  have "matches quote_re (init s) =
      matches ?r (capture 1 (init s) (adv (span (\<lambda>c. \<not> is_quote c) (init s)) (init s)))"
    using matches_captured_run [of False "[CChar squote, CChar dquote]" ?r 1 "init s"]
    by (simp add: P rx_quote step_adv)
  also have "span (\<lambda>c. \<not> is_quote c) (init s) = ?k" by (simp add: init_def)
  also have "matches ?r ?y = (if ?k < length s
      then matches (Seq (Grp 3 (Rep True 0 None Any)) Eol) (capture 2 ?y (adv 1 ?y)) else [])"
    using nth_length_takeWhile [of "\<lambda>c. \<not> is_quote c" s]
    by (auto simp: step_adv init_def hd_drop_conv_nth)
  finally show ?thesis by (simp add: Let_def)
qed

lemma Match_quote_None: "\<forall>c \<in> set s. \<not> is_quote c \<Longrightarrow> Match quote_re s = None"
  unfolding Match_def re_match_def run_def quote_re_matches
  by (subst takeWhile_eq_all_conv [THEN iffD2]) (auto simp: Let_def)

lemma Match_quote_Some:
  assumes "\<forall>c \<in> set h. \<not> is_quote c" "is_quote q" "newline \<notin> set t"
  obtains m where "Match quote_re (h @ q # t) = Some m" "gtext m 1 = h" "gtext m 2 = [q]" "gtext m 3 = t"
proof -
  let ?x = "init (h @ q # t)"
  have h: "takeWhile (\<lambda>c. \<not> is_quote c) (h @ q # t) = h"
    using assms(1,2) by (simp add: takeWhile_tail)
  let ?y = "capture 1 ?x (adv (length h) ?x)"
  let ?z = "capture 2 ?y (adv 1 ?y)"
  have "rest ?z = t" by (simp add: init_def)
  then have "matches quote_re ?x = [capture 3 ?z (adv (length t) ?z)]"
    using quote_re_matches [of "h @ q # t"] h matches_rest [of ?z 3] assms(3) by (simp add: Let_def)
  then show thesis
    by (intro that [of "mk_mobj ?x (capture 3 ?z (adv (length t) ?z))"])
      (simp_all add: Match_def re_match_def run_def mk_mobj_def gtext_def group_def init_def)
qed

text \<open>What collapsing does to a line with double quotes only: each closed string becomes empty, an
  unclosed one stays.\<close>

function elide_ref :: "string \<Rightarrow> string" where
  "elide_ref [] = []"
| "elide_ref (c # cs) =
     (if c = dquote
      then (case dropWhile (\<lambda>d. d \<noteq> dquote) cs of
              [] \<Rightarrow> c # cs
            | _ # later \<Rightarrow> [dquote, dquote] @ elide_ref later)
      else c # elide_ref cs)"
  by pat_completeness auto
termination
proof (relation "measure length", goal_cases)
  case (2 c cs x later)
  then have "length (x # later) \<le> length cs" by (metis length_dropWhile_le)
  then show ?case by simp
qed auto

lemma elide_ref_head: "dquote \<notin> set h \<Longrightarrow> elide_ref (h @ t) = h @ elide_ref t"
  by (induction h) auto

lemma elide_ref_open: "dquote \<notin> set t \<Longrightarrow> elide_ref (dquote # t) = dquote # t"
proof -
  assume "dquote \<notin> set t"
  then have "dropWhile (\<lambda>d. d \<noteq> dquote) t = []" by (auto simp: dropWhile_eq_Nil_conv)
  then show ?thesis by (simp only: elide_ref.simps simp_thms if_True list.case)
qed

lemma find_dquote: "dquote \<notin> set s \<Longrightarrow> find_idx [dquote] (s @ dquote # t) = Some (length s)"
  by (induction s) (auto simp: find_idx_Cons)

lemma find_dquote_None: "dquote \<notin> set s \<Longrightarrow> find_idx [dquote] s = None"
  by (induction s) (auto simp: find_idx_Cons)

lemma dropWhile_to: "dquote \<notin> set s \<Longrightarrow> dropWhile (\<lambda>d. d \<noteq> dquote) (s @ dquote # t) = dquote # t"
  by (induction s) auto

lemma split_quote:
  fixes s :: string
  obtains "dquote \<notin> set s" | h t where "s = h @ dquote # t" "dquote \<notin> set h"
  by (metis split_list_first)

lemma collapse_loop_ref:
  assumes "squote \<notin> set s" "newline \<notin> set s"
  shows "collapse_loop acc s = Inr (acc @ elide_ref s)"
  using assms
proof (induction "length s" arbitrary: s acc rule: less_induct)
  case less
  show ?case
  proof (rule split_quote [of s])
    assume "dquote \<notin> set s"
    then have "Match quote_re s = None" "elide_ref s = s"
      using less.prems Match_quote_None [of s] elide_ref_head [of s "[]"] by auto
    then show ?thesis by (subst collapse_loop.simps) simp
  next
    fix h t assume s: "s = h @ dquote # t" and h: "dquote \<notin> set h"
    obtain m where m: "Match quote_re s = Some m" "gtext m 1 = h" "gtext m 2 = [dquote]" "gtext m 3 = t"
      using Match_quote_Some [of h dquote t] s h less.prems by auto
    show ?thesis
    proof (rule split_quote [of t])
      assume "dquote \<notin> set t"
      then have "find_idx [dquote] t = None" "elide_ref s = s"
        using find_dquote_None [of t] elide_ref_head [OF h] elide_ref_open by (simp_all add: s)
      with m show ?thesis by (subst collapse_loop.simps) simp
    next
      fix h' t' assume t: "t = h' @ dquote # t'" and h': "dquote \<notin> set h'"
      have "elide_ref s = h @ [dquote, dquote] @ elide_ref t'"
        using elide_ref_head [OF h] dropWhile_to [OF h'] by (simp add: s t)
      moreover have "collapse_loop (acc @ h @ [dquote, dquote]) t' =
          Inr ((acc @ h @ [dquote, dquote]) @ elide_ref t')"
        by (rule less.hyps) (use less.prems s t in auto)
      ultimately show ?thesis
        using m find_dquote [OF h', of t'] t by (subst collapse_loop.simps) simp
    qed
  qed
qed

lemma rx_C_comments [rx_code]:
  "RE_PATTERN_CLEANSE_LINE_C_COMMENTS =
     (let body = (\<lambda>r. lits ''/*'' (Seq (Rep True 0 None (Alt (Cls False [CChar CHR ''*''])
            (Seq (Lit CHR ''*'') (Look False (Lit CHR ''/''))))) r));
          sp = Cls True [CSpace True]
      in Grp 1 (Alt (Seq (Rep True 0 None sp) (body (lits ''*/'' (Seq (Rep True 0 None sp) Eol))))
           (Alt (body (lits ''*/'' (Rep True 1 None sp)))
           (Alt (Seq (Rep True 1 None sp) (body (lits ''*/'' (Look True (Cls True [CWord False])))))
             (body (lits ''*'' (Lit CHR ''/'')))))))"
  by code_simp

lemma needs_C_comments: "needs ''/*'' RE_PATTERN_CLEANSE_LINE_C_COMMENTS"
  unfolding rx_C_comments Let_def by (intro needs_Grp needs_Alt needs_lits needs_Seq)

lemma rx_escapes [rx_code]:
  "RE_PATTERN_CLEANSE_LINE_ESCAPES = lits [backslash] (Grp 1 (Alt (Cls True
     (map CChar (''abfnrtv?'' @ [dquote, backslash, squote]))) (Alt (Rep True 1 None (Cls True [CDigit True]))
       (Seq (Lit CHR ''x'') (Rep True 1 None (Cls True [CRange CHR ''0'' CHR ''9'',
         CRange CHR ''a'' CHR ''f'', CRange CHR ''A'' CHR ''F'']))))))"
  by code_simp

lemma find_idx_notin: "a \<notin> set s \<Longrightarrow> find_idx [a] s = None"
  by (induction s) (auto simp: find_idx_Cons)

lemma no_escapes: "backslash \<notin> set s \<Longrightarrow> re_sub RE_PATTERN_CLEANSE_LINE_ESCAPES rep s = s"
  unfolding rx_escapes by (rule re_sub_needs [OF needs_lits find_idx_notin])

lemma CleanseComments_plain:
  "find_idx ''//'' l = None \<Longrightarrow> find_idx ''/*'' l = None \<Longrightarrow> CleanseComments l = l"
  by (simp add: CleanseComments_def re_sub_needs [OF needs_C_comments])

lemma find_idx_prefix: "find_idx w (u @ v) = None \<Longrightarrow> find_idx w u = None"
  by (auto simp: find_idx_None_iff prefix_def) (metis append_assoc drop_append le_add1 trans_le_add1)

lemma rstrip_prefix: obtains v where "u = rstrip u @ v"
  by (metis append_take_drop_id rev_append rev_rev_ident rstrip_def takeWhile_dropWhile_id)

lemma CleanseComments_comment:
  assumes "find_idx ''//'' (code @ ''//'' @ t) = Some (length code)" "\<not> IsCppString code"
    and "find_idx ''/*'' code = None"
  shows "CleanseComments (code @ ''//'' @ t) = rstrip code"
proof -
  obtain v where "code = rstrip code @ v" by (rule rstrip_prefix)
  with assms(3) have "find_idx ''/*'' (rstrip code) = None" by (metis find_idx_prefix)
  with assms(1,2) show ?thesis
    by (simp add: CleanseComments_def Let_def re_sub_needs [OF needs_C_comments])
qed

lemma CollapseStrings_ref:
  assumes "\<not> matched (re_match RE_PATTERN_INCLUDE l)"
    and "backslash \<notin> set l" "squote \<notin> set l" "newline \<notin> set l"
  shows "CollapseStrings l = Inr (elide_ref l)"
  using assms by (simp add: CollapseStrings_def no_escapes collapse_loop_ref)

section \<open>Properties\<close>

text \<open>C14: Preprocessing never raises and keeps the lines apart: for every file, the constructor of
  \<open>CleansedLines\<close> returns, and its four lists of lines (raw, without raw strings, without comments,
  elided) all have as many lines as the file, so that one line number is good for all of them.\<close>

theorem cleansed_lines_aligned:
  "\<exists>c. new_CleansedLines ls = Inr c \<and> raw_lines c = ls \<and> NumLines c = length ls \<and>
     length (elided c) = length ls \<and> length (lines c) = length ls \<and>
     length (lines_without_raw_strings c) = length ls"
  by (rule new_CleansedLines_total [of ls]) (auto simp: NumLines_def)

text \<open>C13: The in-place removal of multi-line comments, with its index arithmetic, agrees with the
  recursive reference, reports at most the one comment that is left open, at the line where it
  starts, changes lines only to the empty comment, and keeps their number.\<close>

theorem RemoveMultiLineComments_reference:
  "RemoveMultiLineComments filename ls =
     (fst (comment_ref ls), unterminated filename (snd (comment_ref ls))) \<and>
   length (fst (RemoveMultiLineComments filename ls)) = length ls \<and>
   (\<forall>i. i < length ls \<longrightarrow> fst (RemoveMultiLineComments filename ls) ! i \<in> {ls ! i, ''/**/''})"
  using remove_comments_ref [of filename "[]" ls] comment_ref_length [of ls] comment_ref_same [of _ ls]
  by (simp add: RemoveMultiLineComments_def option.map_ident)

theorem RemoveMultiLineComments_reference_witness:
  "fst (RemoveMultiLineComments ''a.cc'' [''int x;'', ''/* one'', ''two */'', ''f();'']) =
     [''int x;'', ''/**/'', ''/**/'', ''f();''] \<and>
   fst (RemoveMultiLineComments ''a.cc'' [''int x;'', ''/* one'', ''two */'', ''f();'']) ! 3 \<in>
     {[''int x;'', ''/* one'', ''two */'', ''f();''] ! 3, ''/**/''}"
proof -
  let ?ls = "[''int x;'', ''/* one'', ''two */'', ''f();'']"
  note r = RemoveMultiLineComments_reference [of "''a.cc''" ?ls]
  have "fst (comment_ref ?ls) = [''int x;'', ''/**/'', ''/**/'', ''f();'']" by code_simp
  moreover from r have "fst (RemoveMultiLineComments ''a.cc'' ?ls) = fst (comment_ref ?ls)" by simp
  moreover from r have "fst (RemoveMultiLineComments ''a.cc'' ?ls) ! 3 \<in> {?ls ! 3, ''/**/''}"
    by (elim conjE allE [of _ 3]) simp
  ultimately show ?thesis by simp
qed

text \<open>C32: When \<open>RemoveMultiLineComments\<close> reports nothing, no line that starts a multi-line comment
  is left.\<close>

theorem multiline_comments_gone:
  assumes "snd (RemoveMultiLineComments filename ls) = []" "l \<in> set (fst (RemoveMultiLineComments filename ls))"
  shows "\<not> (startswith (strip l) ''/*'' \<and> find_from ''*/'' (strip l) 2 = None)"
proof -
  have r: "RemoveMultiLineComments filename ls =
      (fst (comment_ref ls), unterminated filename (snd (comment_ref ls)))"
    using remove_comments_ref [of filename "[]" ls]
    by (simp add: RemoveMultiLineComments_def option.map_ident)
  with assms(1) have "snd (comment_ref ls) = None"
    by (auto simp: unterminated_def split: option.splits)
  from comment_ref_done [OF this] assms(2) r show ?thesis
    by (auto simp: list_all_iff starts_comment_def)
qed

theorem multiline_comments_gone_witness:
  "snd (RemoveMultiLineComments ''a.cc'' [''/* one'', ''two */'', ''f();'']) = [] \<and>
   \<not> (startswith (strip ''f();'') ''/*'' \<and> find_from ''*/'' (strip ''f();'') 2 = None)"
proof -
  have "snd (RemoveMultiLineComments ''a.cc'' [''/* one'', ''two */'', ''f();'']) = []"
    "''f();'' \<in> set (fst (RemoveMultiLineComments ''a.cc'' [''/* one'', ''two */'', ''f();'']))"
    by code_simp+
  from multiline_comments_gone [OF this] this show ?thesis by blast
qed



text \<open>C28: On a line with double quotes only (no escapes, no single quotes, not an include),
  \<open>_CollapseStrings\<close> agrees with the reference: it empties exactly the contents of the closed strings
  and keeps everything else.\<close>

theorem CollapseStrings_reference:
  assumes "\<not> matched (re_match RE_PATTERN_INCLUDE l)"
    and "backslash \<notin> set l" "squote \<notin> set l" "newline \<notin> set l"
  shows "CollapseStrings l = Inr (elide_ref l)"
  using assms by (rule CollapseStrings_ref)

theorem CollapseStrings_reference_witness:
  \<open>CollapseStrings ''f("a(b", x, "c")'' = Inr ''f("", x, "")''\<close>
proof -
  have c: \<open>\<not> matched (re_match RE_PATTERN_INCLUDE ''f("a(b", x, "c")'')\<close>
    \<open>backslash \<notin> set ''f("a(b", x, "c")''\<close> \<open>squote \<notin> set ''f("a(b", x, "c")''\<close>
    \<open>newline \<notin> set ''f("a(b", x, "c")''\<close>
    \<open>elide_ref ''f("a(b", x, "c")'' = ''f("", x, "")''\<close> by code_simp+
  from CollapseStrings_reference [OF c(1-4)] c(5) show ?thesis by simp
qed

text \<open>The search for the end of a comment starts at the line that opens it and looks at the end of the
  line only: a line \<open>/*/\<close> opens a comment and is taken for its end.\<close>

lemma comment_closed_by_its_start:
  "RemoveMultiLineComments ''a.cc'' [''/*/'', ''x'', ''*/''] = ([''/**/'', ''x'', ''*/''], [])"
  by code_simp

end
