(* ===== verification/Expression_Laws.thy ===== *)
theory Expression_Laws
  imports Expression Cleanse_Laws
begin

text \<open>
  Both scans agree with a bracket automaton that knows nothing of angle brackets: the pending
  angle brackets on the stack are noise, which the abstraction \<open>filter\<close> removes. The locale
  \<open>bracket_scan\<close> states this for one line and carries it over to the loop over the lines; it is
  interpreted for the forward and for the backward scan. For balanced text this gives the matching
  bracket, on whichever line it is. Conversely, the locale \<open>bracket_text\<close> shows that the automaton hits
  only after balanced text, read forward or backward, so that nothing else is ever found.
\<close>

section \<open>The bracket automaton\<close>

datatype bres = Hit nat | Miss | Rest string

fun shift :: "nat \<Rightarrow> bres \<Rightarrow> bres" where
  "shift n (Hit k) = Hit (n + k)"
| "shift n r = r"

fun bscan ::
  "(char \<Rightarrow> bool) \<Rightarrow> (char \<Rightarrow> bool) \<Rightarrow> (char \<Rightarrow> char \<Rightarrow> bool) \<Rightarrow> string \<Rightarrow> string \<Rightarrow> bres" where
  "bscan opn cls pair [] st = Rest st"
| "bscan opn cls pair (c # cs) st =
     (if opn c then shift 1 (bscan opn cls pair cs (c # st))
      else if cls c
      then (case st of
              [] \<Rightarrow> Miss
            | t # ts \<Rightarrow> if pair t c then (if ts = [] then Hit 0 else shift 1 (bscan opn cls pair cs ts))
                else Miss)
      else shift 1 (bscan opn cls pair cs st))"

lemma shift_shift [simp]: "shift n (shift m r) = shift (n + m) r"
  by (cases r) auto

lemma shift_0 [simp]: "shift 0 r = r"
  by (cases r) auto

lemma shift_Rest [simp]: "shift n r = Rest st \<longleftrightarrow> r = Rest st"
  by (cases r) auto

lemma bscan_append:
  "bscan opn cls pair (u @ v) st =
     (case bscan opn cls pair u st of Rest st' \<Rightarrow> shift (length u) (bscan opn cls pair v st') | r \<Rightarrow> r)"
proof (induction u arbitrary: st)
  case Nil
  show ?case by simp
next
  case (Cons c u)
  have *: "shift 1 (case r of Rest st' \<Rightarrow> shift (length u) (bscan opn cls pair v st') | r \<Rightarrow> r) =
      (case shift 1 r of Rest st' \<Rightarrow> shift (length (c # u)) (bscan opn cls pair v st') | r \<Rightarrow> r)" for r
    by (cases r) simp_all
  have "shift 1 (bscan opn cls pair (u @ v) s) = (case shift 1 (bscan opn cls pair u s) of
      Rest st' \<Rightarrow> shift (length (c # u)) (bscan opn cls pair v st') | r \<Rightarrow> r)" for s
    by (simp only: Cons.IH *)
  note step = this
  show ?case
    by (cases "opn c"; cases "cls c"; cases st; cases "pair (hd st) c"; cases "tl st = []")
      (simp_all add: step del: One_nat_def)
qed

lemma bscan_append_Rest:
  "bscan opn cls pair (u @ v) st = Rest st' \<longleftrightarrow>
     (\<exists>s. bscan opn cls pair u st = Rest s \<and> bscan opn cls pair v s = Rest st')"
  by (cases "bscan opn cls pair u st") (simp_all add: bscan_append)

definition is_open :: "char \<Rightarrow> bool" where "is_open c \<longleftrightarrow> c \<in> set ''([{''"
definition is_close :: "char \<Rightarrow> bool" where "is_close c \<longleftrightarrow> c \<in> set '')]}''"

abbreviation fscan :: "string \<Rightarrow> string \<Rightarrow> bres" where
  "fscan \<equiv> bscan is_open is_close closes"

abbreviation rscan :: "string \<Rightarrow> string \<Rightarrow> bres" where
  "rscan \<equiv> bscan is_close is_open (\<lambda>t c. closes c t)"

section \<open>Balanced text\<close>

inductive balanced :: "string \<Rightarrow> bool" where
  none: "balanced []"
| other: "\<not> is_open c \<Longrightarrow> \<not> is_close c \<Longrightarrow> balanced w \<Longrightarrow> balanced (c # w)"
| pair: "closes a b \<Longrightarrow> balanced w \<Longrightarrow> balanced v \<Longrightarrow> balanced (a # w @ b # v)"

lemma closes_cases: "closes a b \<Longrightarrow> is_open a \<and> is_close b \<and> \<not> is_open b \<and> \<not> is_close a"
  by (auto simp: closes_def is_open_def is_close_def)

lemma fscan_balanced: "balanced w \<Longrightarrow> st \<noteq> [] \<Longrightarrow> fscan w st = Rest st"
proof (induction w arbitrary: st rule: balanced.induct)
  case none
  show ?case by simp
next
  case (other c w)
  then show ?case by simp
next
  case (pair a b w v)
  from pair.IH(1) [of "a # st"] have "fscan w (a # st) = Rest (a # st)" by simp
  moreover have "fscan (b # v) (a # st) = Rest st"
    using pair.hyps(1) pair.IH(2) [OF pair.prems] pair.prems closes_cases [OF pair.hyps(1)]
    by simp
  ultimately show ?case
    using closes_cases [OF pair.hyps(1)] by (simp add: bscan_append)
qed

lemma rscan_balanced: "balanced w \<Longrightarrow> st \<noteq> [] \<Longrightarrow> rscan (rev w) st = Rest st"
proof (induction w arbitrary: st rule: balanced.induct)
  case none
  show ?case by simp
next
  case (other c w)
  then show ?case by (simp add: bscan_append)
next
  case (pair a b w v)
  have "rscan (rev v) st = Rest st" by (rule pair.IH(2) [OF pair.prems])
  moreover have "rscan (b # rev w) st = Rest (b # st)"
    using pair.IH(1) [of "b # st"] closes_cases [OF pair.hyps(1)] by simp
  moreover have "rscan [a] (b # st) = Rest st"
    using pair.hyps(1) pair.prems closes_cases [OF pair.hyps(1)] by simp
  ultimately have "rscan (rev v @ (b # rev w) @ [a]) st = Rest st"
    by (simp only: bscan_append_Rest) blast
  then show ?case by simp
qed

text \<open>Conversely, the automaton hits only after balanced text: what it reads until then closes the
  pending brackets one after the other, with balanced text in between. The locale \<open>bracket_text\<close> has
  what this needs of the balanced texts, read forward or backward.\<close>

fun unwinds ::
  "(char \<Rightarrow> bool) \<Rightarrow> (char \<Rightarrow> char \<Rightarrow> bool) \<Rightarrow> (string \<Rightarrow> bool) \<Rightarrow> string \<Rightarrow> string \<Rightarrow> bool" where
  "unwinds cls pair bal [] w \<longleftrightarrow> bal w"
| "unwinds cls pair bal (t # ts) w \<longleftrightarrow>
     (\<exists>x b y. w = x @ b # y \<and> bal x \<and> cls b \<and> pair t b \<and> unwinds cls pair bal ts y)"

locale bracket_text =
  fixes opn :: "char \<Rightarrow> bool"
    and cls :: "char \<Rightarrow> bool"
    and pair :: "char \<Rightarrow> char \<Rightarrow> bool"
    and bal :: "string \<Rightarrow> bool"
  assumes bal_none: "bal []"
    and bal_other: "\<not> opn c \<Longrightarrow> \<not> cls c \<Longrightarrow> bal w \<Longrightarrow> bal (c # w)"
    and bal_pair: "opn a \<Longrightarrow> cls b \<Longrightarrow> pair a b \<Longrightarrow> bal w \<Longrightarrow> bal v \<Longrightarrow> bal (a # w @ b # v)"
begin

lemma unwinds_other:
  "\<not> opn c \<Longrightarrow> \<not> cls c \<Longrightarrow> unwinds cls pair bal st w \<Longrightarrow> unwinds cls pair bal st (c # w)"
  by (cases st) (auto intro: bal_other, metis append_Cons bal_other)

lemma unwinds_open:
  assumes "opn c" "unwinds cls pair bal (c # st) w"
  shows "unwinds cls pair bal st (c # w)"
proof (cases st)
  case Nil
  with assms show ?thesis by (auto intro: bal_pair)
next
  case (Cons t ts)
  with assms(2) obtain x b y x' b' y' where
    w: "w = x @ b # y" "bal x" "cls b" "pair c b" "y = x' @ b' # y'" "bal x'" "cls b'" "pair t b'"
      "unwinds cls pair bal ts y'" by auto
  moreover from w(2-4,6) assms(1) have "bal (c # x @ b # x')" by (intro bal_pair)
  ultimately have "c # w = (c # x @ b # x') @ b' # y' \<and> bal (c # x @ b # x') \<and> cls b' \<and> pair t b' \<and>
      unwinds cls pair bal ts y'" by simp
  then show ?thesis unfolding Cons unwinds.simps by blast
qed

lemma hit_unwinds: "bscan opn cls pair w (st @ [a]) = Hit k \<Longrightarrow> unwinds cls pair bal st (take k w)"
proof (induction w arbitrary: st k)
  case Nil
  then show ?case by simp
next
  case (Cons c w)
  have later: "\<exists>j. k = Suc j \<and> unwinds cls pair bal s (take j w)"
    if "shift 1 (bscan opn cls pair w (s @ [a])) = Hit k" for s
    using that Cons.IH [of s] by (cases "bscan opn cls pair w (s @ [a])") auto
  consider "opn c" | "\<not> opn c" "\<not> cls c" | "\<not> opn c" "cls c" "st = []"
    | t ts where "\<not> opn c" "cls c" "st = t # ts" by (cases st) auto
  then show ?case
  proof cases
    case 1
    with Cons.prems later [of "c # st"] show ?thesis by (auto intro: unwinds_open simp del: unwinds.simps)
  next
    case 2
    with Cons.prems later [of st] show ?thesis by (auto intro: unwinds_other)
  next
    case 3
    with Cons.prems have "k = 0" by (simp split: if_splits)
    with 3 show ?thesis by (simp add: bal_none)
  next
    case 4
    with Cons.prems have t: "pair t c" "shift 1 (bscan opn cls pair w (ts @ [a])) = Hit k"
      by (simp_all split: if_splits)
    from later [OF t(2)] obtain j where "k = Suc j" "unwinds cls pair bal ts (take j w)" by blast
    with 4 t(1) bal_none show ?thesis by fastforce
  qed
qed

lemma hit_balanced: "bscan opn cls pair w [a] = Hit k \<Longrightarrow> bal (take k w)"
  using hit_unwinds [of w "[]"] by simp

end

lemma balanced_append: "balanced v \<Longrightarrow> balanced w \<Longrightarrow> balanced (v @ w)"
  by (induction v rule: balanced.induct) (auto intro: balanced.intros)

interpretation forward_text: bracket_text is_open is_close closes balanced
  by unfold_locales (auto intro: balanced.intros)

interpretation backward_text: bracket_text is_close is_open "\<lambda>t c. closes c t" "\<lambda>w. balanced (rev w)"
proof
  fix a b w v
  assume "closes b a" "balanced (rev w)" "balanced (rev v)"
  with balanced_append [OF _ balanced.pair [OF _ _ balanced.none]]
  show "balanced (rev (a # w @ b # v))" by simp
qed (auto intro: balanced.intros balanced_append)

section \<open>A scan of one line, and the loop over the lines\<close>

fun scan_lines ::
  "(string \<Rightarrow> string \<Rightarrow> nat option \<times> string option) \<Rightarrow> string list \<Rightarrow> string \<Rightarrow>
   (nat \<times> string \<times> nat) option" where
  "scan_lines scan [] st = None"
| "scan_lines scan (l # ls) st =
     (if st = [] then None
      else case scan l st of
             (Some p, _) \<Rightarrow> Some (0, l, p)
           | (None, None) \<Rightarrow> None
           | (None, Some st') \<Rightarrow> map_option (\<lambda>(k, r). (Suc k, r)) (scan_lines scan ls st'))"

locale bracket_scan =
  fixes scan :: "string \<Rightarrow> string \<Rightarrow> nat option \<times> string option"
    and order :: "string \<Rightarrow> string"
    and place :: "string \<Rightarrow> nat \<Rightarrow> nat"
    and opn :: "char \<Rightarrow> bool"
    and cls :: "char \<Rightarrow> bool"
    and pair :: "char \<Rightarrow> char \<Rightarrow> bool"
    and angle :: char
  assumes scan_hit: "st \<noteq> [] \<Longrightarrow> last st \<noteq> angle \<Longrightarrow>
      bscan opn cls pair (order l) (filter (\<lambda>c. c \<noteq> angle) st) = Hit k \<Longrightarrow> scan l st = (Some (place l k), None)"
    and scan_miss: "st \<noteq> [] \<Longrightarrow> last st \<noteq> angle \<Longrightarrow>
      bscan opn cls pair (order l) (filter (\<lambda>c. c \<noteq> angle) st) = Miss \<Longrightarrow> scan l st = (None, None)"
    and scan_rest: "st \<noteq> [] \<Longrightarrow> last st \<noteq> angle \<Longrightarrow>
      bscan opn cls pair (order l) (filter (\<lambda>c. c \<noteq> angle) st) = Rest s \<Longrightarrow>
      \<exists>st'. scan l st = (None, Some st') \<and> st' \<noteq> [] \<and> last st' \<noteq> angle \<and>
        filter (\<lambda>c. c \<noteq> angle) st' = s"
begin

lemma scan_lines_hit:
  assumes "st \<noteq> []" "last st \<noteq> angle"
    and "bscan opn cls pair (concat (map order mid)) (filter (\<lambda>c. c \<noteq> angle) st) = Rest s"
    and "bscan opn cls pair (order l) s = Hit k"
  shows "scan_lines scan (mid @ l # ls) st = Some (length mid, l, place l k)"
  using assms
proof (induction mid arbitrary: st)
  case Nil
  then show ?case using scan_hit [of st l k] by simp
next
  case (Cons m mid)
  from Cons.prems(3) obtain s1 where
    s1: "bscan opn cls pair (order m) (filter (\<lambda>c. c \<noteq> angle) st) = Rest s1"
      "bscan opn cls pair (concat (map order mid)) s1 = Rest s"
    by (auto simp: bscan_append_Rest)
  from scan_rest [OF Cons.prems(1,2) s1(1)] obtain st' where
    "scan m st = (None, Some st')" "st' \<noteq> []" "last st' \<noteq> angle"
    "filter (\<lambda>c. c \<noteq> angle) st' = s1" by blast
  with Cons.IH [of st'] Cons.prems(1,4) s1(2) show ?case by simp
qed

text \<open>Whatever is found is found where the automaton finds it.\<close>

lemma scan_lines_found:
  assumes "st \<noteq> []" "last st \<noteq> angle" "scan_lines scan ls st = Some (k, l, p)"
  shows "k < length ls \<and> l = ls ! k \<and> (\<exists>s j. bscan opn cls pair (concat (map order (take k ls)))
      (filter (\<lambda>c. c \<noteq> angle) st) = Rest s \<and> bscan opn cls pair (order l) s = Hit j \<and> p = place l j)"
  using assms
proof (induction ls arbitrary: st k)
  case Nil
  then show ?case by simp
next
  case (Cons m ls)
  show ?case
  proof (cases "bscan opn cls pair (order m) (filter (\<lambda>c. c \<noteq> angle) st)")
    case (Hit j)
    with scan_hit [OF Cons.prems(1,2)] Cons.prems show ?thesis by auto
  next
    case Miss
    with scan_miss [OF Cons.prems(1,2)] Cons.prems show ?thesis by auto
  next
    case (Rest s1)
    from scan_rest [OF Cons.prems(1,2) Rest] obtain st' where
      st': "scan m st = (None, Some st')" "st' \<noteq> []" "last st' \<noteq> angle"
        "filter (\<lambda>c. c \<noteq> angle) st' = s1" by blast
    with Cons.prems obtain j where j: "k = Suc j" "scan_lines scan ls st' = Some (j, l, p)" by auto
    from Cons.IH [OF st'(2,3) j(2)] st'(4) Rest j(1) show ?thesis
      by (auto simp: bscan_append_Rest)
  qed
qed

end

section \<open>The forward scan\<close>

abbreviation plain :: "char \<Rightarrow> string \<Rightarrow> string" where
  "plain a st \<equiv> filter (\<lambda>c. c \<noteq> a) st"

text \<open>A stack whose bottom is not an angle bracket never runs empty when angle brackets are
  dropped.\<close>

definition grounded :: "char \<Rightarrow> string \<Rightarrow> bool" where
  "grounded a st \<longleftrightarrow> st \<noteq> [] \<and> last st \<noteq> a"

lemma grounded_Cons [simp]: "grounded a st \<Longrightarrow> grounded a (c # st)"
  by (simp add: grounded_def)

lemma grounded_plain: "grounded a st \<Longrightarrow> plain a st \<noteq> []"
  unfolding grounded_def filter_empty_conv using last_in_set by blast

lemma grounded_tl: "grounded a (a # ts) \<Longrightarrow> grounded a ts"
  by (auto simp: grounded_def split: if_splits)

lemma grounded_tl_plain: "grounded a (t # ts) \<Longrightarrow> ts \<noteq> [] \<Longrightarrow> grounded a ts"
  by (auto simp: grounded_def)

lemma drop_angle_split:
  "grounded a st \<Longrightarrow> \<exists>t ts. drop_angle a st = t # ts \<and> plain a st = t # plain a ts \<and>
     grounded a (t # ts) \<and> (plain a ts = [] \<longleftrightarrow> ts = []) \<and> t \<noteq> a"
proof (induction st)
  case Nil
  then show ?case by (simp add: grounded_def)
next
  case (Cons c st)
  show ?case
  proof (cases "c = a")
    case True
    with Cons show ?thesis by (auto dest: grounded_tl)
  next
    case False
    with Cons.prems show ?thesis
      by (auto dest: grounded_tl_plain grounded_plain)
  qed
qed

lemma bracket_not_angle:
  "is_open c \<Longrightarrow> c \<noteq> CHR ''<'' \<and> c \<noteq> CHR ''>'' \<and> c \<notin> set '')]}'' \<and> c \<noteq> CHR '';''"
  "is_close c \<Longrightarrow> c \<noteq> CHR ''<'' \<and> c \<noteq> CHR ''>'' \<and> c \<notin> set ''([{'' \<and> c \<noteq> CHR '';''"
  by (auto simp: is_open_def is_close_def)

lemma end_step_open:
  "is_open (line ! i) \<Longrightarrow> end_step line i st = Go (line ! i # st)"
  by (simp add: end_step_def is_open_def)

lemma end_step_close:
  assumes "is_close (line ! i)" "grounded CHR ''<'' st"
  obtains t ts where "plain CHR ''<'' st = t # plain CHR ''<'' ts" "grounded CHR ''<'' (t # ts)"
    "plain CHR ''<'' ts = [] \<longleftrightarrow> ts = []"
    "end_step line i st =
       (if closes t (line ! i) then (if ts = [] then Found else Go ts) else Unclosed)"
proof -
  from drop_angle_split [OF assms(2)] obtain t ts where
    t: "drop_angle CHR ''<'' st = t # ts" "plain CHR ''<'' st = t # plain CHR ''<'' ts"
      "grounded CHR ''<'' (t # ts)" "plain CHR ''<'' ts = [] \<longleftrightarrow> ts = []" by blast
  have "end_step line i st =
      (if closes t (line ! i) then (if ts = [] then Found else Go ts) else Unclosed)"
    using bracket_not_angle(2) [OF assms(1)] assms(1)
    by (simp only: end_step_def Let_def t(1) list.case if_False is_close_def if_True simp_thms)
  with t show thesis by (intro that)
qed

lemma end_step_other:
  assumes "\<not> is_open (line ! i)" "\<not> is_close (line ! i)" "grounded CHR ''<'' st"
  obtains st' where "end_step line i st = Go st'" "grounded CHR ''<'' st'"
    "plain CHR ''<'' st' = plain CHR ''<'' st"
proof -
  obtain t ts where st: "st = t # ts" using assms(3) by (cases st) (auto simp: grounded_def)
  have angle: "ts \<noteq> [] \<and> grounded CHR ''<'' ts" if "t = CHR ''<''"
    using assms(3) st that by (auto simp: grounded_def split: if_splits)
  from drop_angle_split [OF assms(3)] obtain u us where
    u: "drop_angle CHR ''<'' st = u # us" "plain CHR ''<'' st = u # plain CHR ''<'' us"
      "grounded CHR ''<'' (u # us)" "u \<noteq> CHR ''<''"
    by blast
  have "end_step line i st \<in> {Go st, Go (CHR ''<'' # st)} \<or>
      t = CHR ''<'' \<and> end_step line i st = Go ts \<or> end_step line i st = Go (u # us)"
    (is "?P")
  proof (cases "line ! i = CHR '';''")
    case True
    then show ?thesis by (simp add: end_step_def u(1))
  next
    case False
    consider "line ! i = CHR ''<''" | "line ! i = CHR ''>''" | "line ! i \<notin> set ''<>;''"
      using False by auto
    then show ?thesis
      by cases (use assms(1,2) angle in \<open>simp_all add: end_step_def Let_def is_open_def
        is_close_def st\<close>)
  qed
  then show thesis
    using that assms(3) angle st u by auto
qed

lemma FindEnd_refines:
  assumes "grounded CHR ''<'' st" "i \<le> length line"
  shows "case fscan (drop i line) (plain CHR ''<'' st) of
      Hit k \<Rightarrow> FindEndOfExpressionInLine line i st = (Some (i + k + 1), None)
    | Miss \<Rightarrow> FindEndOfExpressionInLine line i st = (None, None)
    | Rest s \<Rightarrow> (\<exists>st'. FindEndOfExpressionInLine line i st = (None, Some st') \<and>
        grounded CHR ''<'' st' \<and> plain CHR ''<'' st' = s)"
  using assms
proof (induction "length line - i" arbitrary: i st)
  case 0
  then show ?case by (subst FindEndOfExpressionInLine.simps) simp
next
  case (Suc n)
  then have i: "i < length line" by simp
  then have d: "drop i line = line ! i # drop (Suc i) line" by (simp add: Cons_nth_drop_Suc)
  let ?F = "FindEndOfExpressionInLine line"
  let ?a = "CHR ''<''"
  have IH: "case shift 1 (fscan (drop (Suc i) line) (plain ?a s)) of
      Hit k \<Rightarrow> ?F (Suc i) s = (Some (i + k + 1), None)
    | Miss \<Rightarrow> ?F (Suc i) s = (None, None)
    | Rest r \<Rightarrow> (\<exists>st'. ?F (Suc i) s = (None, Some st') \<and> grounded ?a st' \<and> plain ?a st' = r)"
    if "grounded ?a s" for s
    using Suc.hyps(1) [of "Suc i" s] Suc.hyps(2) i that
    by (cases "fscan (drop (Suc i) line) (plain ?a s)") auto
  note F = FindEndOfExpressionInLine.simps [of line i st]
  have go: "?F i st = ?F (Suc i) s" if "end_step line i st = Go s" for s
    using i that by (simp add: F)
  consider (opens) "is_open (line ! i)" | (close) "\<not> is_open (line ! i)" "is_close (line ! i)"
    | (other) "\<not> is_open (line ! i)" "\<not> is_close (line ! i)" by blast
  then show ?case
  proof cases
    case opens
    from IH [of "line ! i # st"] bracket_not_angle(1) [OF opens] Suc.prems(1) opens show ?thesis
      unfolding go [OF end_step_open [OF opens]] d by simp
  next
    case close
    obtain t ts where t: "plain ?a st = t # plain ?a ts" "grounded ?a (t # ts)"
      "plain ?a ts = [] \<longleftrightarrow> ts = []" "end_step line i st =
        (if closes t (line ! i) then (if ts = [] then Found else Go ts) else Unclosed)"
      using end_step_close [OF close(2) Suc.prems(1)] by blast
    show ?thesis
    proof (cases "closes t (line ! i) \<and> ts \<noteq> []")
      case True
      with t have step: "end_step line i st = Go ts" by simp
      from IH [of ts] True t close show ?thesis
        unfolding go [OF step] d by (auto dest: grounded_tl_plain)
    next
      case False
      with t close i show ?thesis by (auto simp: F d)
    qed
  next
    case other
    obtain st' where st': "end_step line i st = Go st'" "grounded ?a st'" "plain ?a st' = plain ?a st"
      using end_step_other [OF other Suc.prems(1)] by blast
    with IH [of st'] other show ?thesis unfolding go [OF st'(1)] d by simp
  qed
qed

interpretation forward: bracket_scan "\<lambda>l. FindEndOfExpressionInLine l 0" "\<lambda>l. l" "\<lambda>l k. k + 1"
  is_open is_close closes "CHR ''<''"
proof
  fix st l k s
  assume "st \<noteq> []" "last st \<noteq> CHR ''<''"
  note refines = FindEnd_refines [of st 0 l, unfolded grounded_def drop_0, OF conjI [OF this] le0]
  show "fscan l (plain CHR ''<'' st) = Hit k \<Longrightarrow> FindEndOfExpressionInLine l 0 st = (Some (k + 1), None)"
    and "fscan l (plain CHR ''<'' st) = Miss \<Longrightarrow> FindEndOfExpressionInLine l 0 st = (None, None)"
    and "fscan l (plain CHR ''<'' st) = Rest s \<Longrightarrow>
      \<exists>st'. FindEndOfExpressionInLine l 0 st = (None, Some st') \<and> st' \<noteq> [] \<and>
        last st' \<noteq> CHR ''<'' \<and> plain CHR ''<'' st' = s"
    using refines by auto
qed

section \<open>The backward scan\<close>

text \<open>Where the backward scan skips a character besides the current one, that character is not a
  bracket.\<close>

lemma rx_operator [rx_code]:
  "operator_re = Seq (WordB True) (lits ''operator'' (Seq (Rep True 0 None (Cls True [CSpace True])) Eol))"
  by code_simp

text \<open>What stands before the position at which \<open>operator_re\<close> matches.\<close>

lemma operator_last:
  assumes "Search operator_re s = Some m"
  shows "s \<noteq> [] \<and> (last s = CHR ''r'' \<or> is_space (last s))"
proof -
  from assms obtain k q y where k: "k \<le> length s"
    and y: "y \<in> set (matches operator_re (MS q k (drop k s) []))"
    using search_from_run [of operator_re None 0 s m] by (auto simp: Search_def re_search_def)
  let ?x = "MS q k (drop k s) []"
  from y obtain z where op: "prefix ''operator'' (drop k s)"
    and z: "z \<in> set (matches (Rep True 0 None (Cls True [CSpace True])) (adv 8 ?x))" "at_end z"
    unfolding rx_operator in_Seq in_WordB matches_lits
    by (auto simp: in_Seq in_Eol eval_nat_numeral simp del: matches.simps split: if_splits)
  obtain t where t: "drop k s = ''operator'' @ t" using op by (auto simp: prefix_def)
  have P: "cls_has True [CSpace True] = is_space" by (auto simp: fun_eq_iff)
  from z(1) obtain j where j: "j \<le> length (takeWhile is_space t)" "rest z = drop j t"
    by (auto simp: matches_Rep matches_step star_class P t adv_def less_Suc_eq_le
        simp del: matches.simps upt_Suc)
  have "set t \<subseteq> Collect is_space"
  proof
    fix c assume "c \<in> set t"
    then have "c \<in> set (take j t) \<or> c \<in> set (drop j t)"
      by (metis Un_iff append_take_drop_id set_append)
    then show "c \<in> Collect is_space"
    proof
      assume "c \<in> set (take j t)"
      then have "c \<in> set (takeWhile is_space t)"
        using j(1) by (metis set_take_subset_set_take subsetD takeWhile_eq_take)
      then show ?thesis by (auto dest: set_takeWhileD)
    next
      assume "c \<in> set (drop j t)"
      then have "c = newline" using z(2) j(2) by (auto simp: at_end_def)
      then show ?thesis by (simp add: is_space_def)
    qed
  qed
  moreover obtain u where "s = u @ ''operator'' @ t" using t by (metis append_take_drop_id)
  ultimately show ?thesis
    by (cases "t = []") (auto simp: subset_iff)
qed

lemma rx_ge [rx_code]:
  \<open>rx ''`s>=`s'' = Seq (Cls True [CSpace True]) (lits ''>='' (Cls True [CSpace True]))\<close>
  by code_simp

lemma ge_first:
  \<open>Match (rx ''`s>=`s'') s = Some m \<Longrightarrow> s \<noteq> [] \<and> is_space (hd s)\<close>
  unfolding Match_def re_match_def rx_ge
  by (cases s) (auto dest!: run_matches simp: in_Seq matches_step init_def simp del: matches.simps
      split: if_splits)

lemma not_bracket: "is_space c \<or> c \<in> set ''r-<'' \<Longrightarrow> \<not> is_open c \<and> \<not> is_close c"
  by (auto simp: is_open_def is_close_def is_space_def)

lemma start_step_close:
  "is_close (line ! i) \<Longrightarrow> start_step line i st = (Go (line ! i # st), False)"
  by (simp add: start_step_def is_close_def)

lemma start_step_open:
  assumes "is_open (line ! i)" "grounded CHR ''>'' st"
  obtains t ts where "plain CHR ''>'' st = t # plain CHR ''>'' ts" "grounded CHR ''>'' (t # ts)"
    "plain CHR ''>'' ts = [] \<longleftrightarrow> ts = []"
    "start_step line i st =
       (if closes (line ! i) t then (if ts = [] then Found else Go ts) else Unclosed, False)"
proof -
  from drop_angle_split [OF assms(2)] obtain t ts where
    t: "drop_angle CHR ''>'' st = t # ts" "plain CHR ''>'' st = t # plain CHR ''>'' ts"
      "grounded CHR ''>'' (t # ts)" "plain CHR ''>'' ts = [] \<longleftrightarrow> ts = []" by blast
  have "start_step line i st =
      (if closes (line ! i) t then (if ts = [] then Found else Go ts) else Unclosed, False)"
    using bracket_not_angle(1) [OF assms(1)] assms(1)
    by (simp add: start_step_def Let_def t(1) is_open_def)
  with t show thesis by (intro that)
qed

lemma skip_not_bracket:
  assumes "start_step line i st = (r, True)" "i < length line"
  shows "0 < i \<and> \<not> is_open (line ! (i - 1)) \<and> \<not> is_close (line ! (i - 1))"
proof -
  from assms(1) have i: "0 < i" and "line ! (i - 1) \<in> {CHR ''-'', CHR ''<''} \<or>
      matched (Match (rx ''`s>=`s'') (drop (i - 1) line)) \<or> matched (Search operator_re (take i line))"
    by (auto simp: start_step_def Let_def split: if_splits list.splits)
  moreover have "last (take i line) = line ! (i - 1)" "hd (drop (i - 1) line) = line ! (i - 1)"
    using i assms(2) by (cases i; simp add: take_Suc_conv_app_nth hd_drop_conv_nth)+
  ultimately have "is_space (line ! (i - 1)) \<or> line ! (i - 1) \<in> set ''r-<''"
    by (auto dest!: ge_first operator_last)
  with not_bracket i show ?thesis by blast
qed

lemma start_step_other:
  assumes "\<not> is_open (line ! i)" "\<not> is_close (line ! i)" "grounded CHR ''>'' st"
  obtains st' skip where "start_step line i st = (Go st', skip)" "grounded CHR ''>'' st'"
    "plain CHR ''>'' st' = plain CHR ''>'' st"
proof -
  obtain t ts where st: "st = t # ts" using assms(3) by (cases st) (auto simp: grounded_def)
  have angle: "ts \<noteq> [] \<and> grounded CHR ''>'' ts" if "t = CHR ''>''"
    using assms(3) st that by (auto simp: grounded_def split: if_splits)
  from drop_angle_split [OF assms(3)] obtain u us where
    u: "drop_angle CHR ''>'' st = u # us" "plain CHR ''>'' st = u # plain CHR ''>'' us"
      "grounded CHR ''>'' (u # us)" "u \<noteq> CHR ''>''"
    by blast
  have "fst (start_step line i st) \<in> {Go st, Go (CHR ''>'' # st)} \<or>
      t = CHR ''>'' \<and> fst (start_step line i st) = Go ts \<or> fst (start_step line i st) = Go (u # us)"
    (is "?P")
  proof (cases "line ! i = CHR '';''")
    case True
    then show ?thesis by (simp add: start_step_def u(1))
  next
    case False
    consider "line ! i = CHR ''<''" | "line ! i = CHR ''>''" | "line ! i \<notin> set ''<>;''"
      using False by auto
    then show ?thesis
      by cases (use assms(1,2) angle in \<open>simp_all add: start_step_def Let_def is_open_def
        is_close_def st\<close>)
  qed
  then show thesis
    using that assms(3) angle st u by (cases "start_step line i st") auto
qed

lemma find_start_refines:
  assumes "grounded CHR ''>'' st" "n \<le> length line"
  shows "case rscan (rev (take n line)) (plain CHR ''>'' st) of
      Hit k \<Rightarrow> find_start line n st = (Some (n - Suc k), None)
    | Miss \<Rightarrow> find_start line n st = (None, None)
    | Rest s \<Rightarrow> (\<exists>st'. find_start line n st = (None, Some st') \<and>
        grounded CHR ''>'' st' \<and> plain CHR ''>'' st' = s)"
  using assms
proof (induction n arbitrary: st rule: less_induct)
  case (less n)
  let ?a = "CHR ''>''"
  show ?case
  proof (cases n)
    case 0
    with less.prems show ?thesis by simp
  next
    case (Suc i)
    then have i: "i < length line" using less.prems(2) by simp
    then have d: "rev (take (Suc i) line) = line ! i # rev (take i line)"
      by (simp add: take_Suc_conv_app_nth)
    have IH: "case shift (n - m) (rscan (rev (take m line)) (plain ?a s)) of
        Hit k \<Rightarrow> find_start line m s = (Some (n - Suc k), None)
      | Miss \<Rightarrow> find_start line m s = (None, None)
      | Rest r \<Rightarrow> (\<exists>st'. find_start line m s = (None, Some st') \<and> grounded ?a st' \<and> plain ?a st' = r)"
      if "grounded ?a s" "m < n" for s m
      using less.IH [of m s] that less.prems(2)
      by (cases "rscan (rev (take m line)) (plain ?a s)") (auto simp: algebra_simps)
    have go: "find_start line n st = find_start line (if skip then i - 1 else i) s"
      if "start_step line i st = (Go s, skip)" for s skip
      using that Suc by simp
    consider (opens) "is_open (line ! i)" "\<not> is_close (line ! i)" | (close) "is_close (line ! i)"
      | (other) "\<not> is_open (line ! i)" "\<not> is_close (line ! i)" by blast
    then show ?thesis
    proof cases
      case close
      from IH [of "line ! i # st" i] bracket_not_angle(2) [OF close] less.prems(1) close show ?thesis
        unfolding go [OF start_step_close [OF close]] using Suc d by simp
    next
      case opens
      obtain t ts where t: "plain ?a st = t # plain ?a ts" "grounded ?a (t # ts)"
        "plain ?a ts = [] \<longleftrightarrow> ts = []" "start_step line i st =
          (if closes (line ! i) t then (if ts = [] then Found else Go ts) else Unclosed, False)"
        using start_step_open [OF opens(1) less.prems(1)] by blast
      show ?thesis
      proof (cases "closes (line ! i) t \<and> ts \<noteq> []")
        case True
        with t have step: "start_step line i st = (Go ts, False)" by simp
        from IH [of ts i] True t opens show ?thesis
          unfolding go [OF step] using Suc d by (auto dest: grounded_tl_plain)
      next
        case False
        with t opens Suc d show ?thesis by auto
      qed
    next
      case other
      obtain st' skip where st': "start_step line i st = (Go st', skip)" "grounded ?a st'"
        "plain ?a st' = plain ?a st"
        using start_step_other [OF other less.prems(1)] by blast
      show ?thesis
      proof (cases skip)
        case False
        with IH [of st' i] st' other show ?thesis unfolding go [OF st'(1)] using Suc d by simp
      next
        case True
        with skip_not_bracket [of line i st] st'(1) i obtain j where
          j: "i = Suc j" "\<not> is_open (line ! j)" "\<not> is_close (line ! j)" by (cases i) auto
        then have "rev (take n line) = line ! i # line ! j # rev (take j line)"
          using i Suc d by (simp add: take_Suc_conv_app_nth)
        moreover have eq: "find_start line n st = find_start line j st'"
          using go [OF st'(1)] True j(1) by simp
        moreover have "n - j = Suc (Suc 0)" "j < n" using Suc j(1) by simp_all
        ultimately show ?thesis using IH [of st' j] st' other j(2,3) unfolding eq by simp
      qed
    qed
  qed
qed

interpretation backward: bracket_scan
  "\<lambda>l. FindStartOfExpressionInLine l (int (length l) - 1)" rev "\<lambda>l k. length l - Suc k"
  is_close is_open "\<lambda>t c. closes c t" "CHR ''>''"
proof
  fix st l k s
  assume "st \<noteq> []" "last st \<noteq> CHR ''>''"
  note refines = find_start_refines [of st "length l" l, unfolded grounded_def take_all [OF order.refl],
      OF conjI [OF this] order.refl]
  let ?F = "FindStartOfExpressionInLine l (int (length l) - 1) st"
  have F: "?F = find_start l (length l) st"
    by (simp add: FindStartOfExpressionInLine_def)
  show "rscan (rev l) (plain CHR ''>'' st) = Hit k \<Longrightarrow> ?F = (Some (length l - Suc k), None)"
    and "rscan (rev l) (plain CHR ''>'' st) = Miss \<Longrightarrow> ?F = (None, None)"
    and "rscan (rev l) (plain CHR ''>'' st) = Rest s \<Longrightarrow> \<exists>st'. ?F = (None, Some st') \<and> st' \<noteq> [] \<and>
        last st' \<noteq> CHR ''>'' \<and> plain CHR ''>'' st' = s"
    using refines unfolding F by auto
qed

section \<open>The loops over the lines\<close>

abbreviation scan_end :: "string \<Rightarrow> string \<Rightarrow> nat option \<times> string option" where
  "scan_end \<equiv> \<lambda>l. FindEndOfExpressionInLine l 0"

abbreviation scan_start :: "string \<Rightarrow> string \<Rightarrow> nat option \<times> string option" where
  "scan_start \<equiv> \<lambda>l. FindStartOfExpressionInLine l (int (length l) - 1)"

definition lines_ok :: "CleansedLines \<Rightarrow> bool" where
  "lines_ok c \<longleftrightarrow> length (elided c) = NumLines c"

lemma close_loop_end: "\<exists>line'. close_loop c line n None = Inr (line', NumLines c, None)"
  by (subst close_loop.simps) simp

lemma close_loop_scan:
  assumes "lines_ok c"
  shows "case scan_lines scan_end (drop (Suc n) (elided c)) st of
      Some (k, l, p) \<Rightarrow> close_loop c line n (Some st) = Inr (l, Suc n + k, Some p)
    | None \<Rightarrow> \<exists>line'. close_loop c line n (Some st) = Inr (line', NumLines c, None)"
proof (induction "NumLines c - n" arbitrary: n st line)
  case 0
  then show ?case using assms by (subst close_loop.simps) (simp add: lines_ok_def)
next
  case (Suc d)
  show ?case
  proof (cases "st \<noteq> [] \<and> Suc n < NumLines c")
    case False
    then have "close_loop c line n (Some st) = Inr (line, NumLines c, None)"
      by (subst close_loop.simps) auto
    moreover have "scan_lines scan_end (drop (Suc n) (elided c)) st = None"
      using False assms by (cases "drop (Suc n) (elided c)") (auto simp: lines_ok_def)
    ultimately show ?thesis by simp
  next
    case True
    let ?l = "elided c ! Suc n"
    have n: "Suc n < length (elided c)" using True assms by (simp add: lines_ok_def)
    then have d: "drop (Suc n) (elided c) = ?l # drop (Suc (Suc n)) (elided c)"
      by (simp add: Cons_nth_drop_Suc)
    have py: "py_nth (elided c) (int n + 1) = Inr ?l"
      using py_nth_nat [OF n] by (simp add: add.commute)
    have loop: "close_loop c line n (Some st) = (case scan_end ?l st of
        (Some q, _) \<Rightarrow> Inr (?l, Suc n, Some q) | (None, s) \<Rightarrow> close_loop c ?l (Suc n) s)"
      using True by (subst close_loop.simps) (simp add: py split: prod.split option.split)
    consider q s where "scan_end ?l st = (Some q, s)" | "scan_end ?l st = (None, None)"
      | s where "scan_end ?l st = (None, Some s)" by (metis option.exhaust prod.exhaust)
    then show ?thesis
    proof cases
      case 3
      from Suc.hyps(1) [where n = "Suc n" and st = s and line = ?l] Suc.hyps(2)
      have "case scan_lines scan_end (drop (Suc (Suc n)) (elided c)) s of
          Some (k, l, p) \<Rightarrow> close_loop c ?l (Suc n) (Some s) = Inr (l, Suc (Suc n) + k, Some p)
        | None \<Rightarrow> \<exists>line'. close_loop c ?l (Suc n) (Some s) = Inr (line', NumLines c, None)" by simp
      with 3 True loop d show ?thesis by (auto split: option.splits)
    qed (use True loop d close_loop_end in \<open>simp_all\<close>)
  qed
qed

lemma reverse_loop_end: "\<exists>line'. reverse_loop c line n None = Inr (line', 0, None)"
  by (cases n) simp_all

lemma reverse_loop_scan:
  assumes "n \<le> length (elided c)"
  shows "case scan_lines scan_start (rev (take n (elided c))) st of
      Some (k, l, p) \<Rightarrow> reverse_loop c line n (Some st) = Inr (l, n - Suc k, Some p)
    | None \<Rightarrow> \<exists>line'. reverse_loop c line n (Some st) = Inr (line', 0, None)"
  using assms
proof (induction n arbitrary: st line)
  case 0
  then show ?case by simp
next
  case (Suc n)
  let ?l = "elided c ! n"
  have d: "rev (take (Suc n) (elided c)) = ?l # rev (take n (elided c))"
    using Suc.prems by (simp add: take_Suc_conv_app_nth)
  show ?case
  proof (cases "st = []")
    case False
    then have loop: "reverse_loop c line (Suc n) (Some st) = (case scan_start ?l st of
        (Some q, _) \<Rightarrow> Inr (?l, n, Some q) | (None, s) \<Rightarrow> reverse_loop c ?l n s)"
      using Suc.prems by simp
    consider q s where "scan_start ?l st = (Some q, s)" | "scan_start ?l st = (None, None)"
      | s where "scan_start ?l st = (None, Some s)" by (metis option.exhaust prod.exhaust)
    then show ?thesis
    proof cases
      case 3
      with Suc.IH [where st = s and line = ?l] Suc.prems False loop d show ?thesis by (auto split: option.splits)
    qed (use False loop d reverse_loop_end in \<open>simp_all\<close>)
  qed (use d in simp)
qed

section \<open>Matching brackets\<close>

lemma rx_shift [rx_code]:
  \<open>rx ''<[<=]'' = lits ''<'' (Cls True [CChar CHR ''<'', CChar CHR ''=''])\<close>
  by code_simp

lemma Match_shift: "c \<noteq> CHR ''<'' \<Longrightarrow> Match (rx ''<[<=]'') (c # cs) = None"
  by (simp add: rx_shift Match_def re_match_def run_def matches_lits init_def del: lits.simps)

text \<open>What \<open>CloseExpression\<close> does at an opening bracket, in terms of the automaton: the result on
  the first line, and the call of the loop otherwise.\<close>

lemma CloseExpression_open:
  assumes "lines_ok c" "n < NumLines c" "elided c ! n = u @ a # w" "is_open a"
  shows "case fscan w [a] of
      Hit k \<Rightarrow> CloseExpression c n (length u) = Inr (elided c ! n, n, Some (length u + k + 2))
    | Miss \<Rightarrow> \<exists>line'. CloseExpression c n (length u) = Inr (line', NumLines c, None)
    | Rest s \<Rightarrow> (\<exists>st'. grounded CHR ''<'' st' \<and> plain CHR ''<'' st' = s \<and>
        CloseExpression c n (length u) = close_loop c (elided c ! n) n (Some st'))"
proof -
  let ?l = "u @ a # w"
  have a: "a \<noteq> CHR ''<''" "a \<in> set ''({[<''"
    using bracket_not_angle(1) [OF assms(4)] assms(4) by (auto simp: is_open_def)
  have "FindEndOfExpressionInLine ?l (length u) [] = FindEndOfExpressionInLine ?l (Suc (length u)) [a]"
    using end_step_open [of ?l "length u" "[]"] assms(4)
    by (subst FindEndOfExpressionInLine.simps) simp
  moreover have "py_nth (elided c) (int n) = Inr ?l"
    using assms(1,2,3) by (simp add: lines_ok_def)
  moreover have "py_nth ?l (int (length u)) = Inr a"
    by (simp add: nth_append)
  ultimately have C: "CloseExpression c n (length u) =
      (case FindEndOfExpressionInLine ?l (Suc (length u)) [a] of
         (Some q, _) \<Rightarrow> Inr (?l, n, Some q) | (None, s) \<Rightarrow> close_loop c ?l n s)"
    using a by (auto simp: CloseExpression_def Match_shift)
  have "grounded CHR ''<'' [a]" "plain CHR ''<'' [a] = [a]" using a(1) by (simp_all add: grounded_def)
  from FindEnd_refines [OF this(1), of "Suc (length u)" ?l] this(2)
  show ?thesis
    using close_loop_end [of c ?l n] assms(3) by (auto simp: C split: bres.splits)
qed

lemma ReverseCloseExpression_close:
  assumes "n < length (elided c)" "elided c ! n = w @ b # v" "is_close b"
  shows "case rscan (rev w) [b] of
      Hit k \<Rightarrow> ReverseCloseExpression c n (length w) = Inr (elided c ! n, n, Some (length w - Suc k))
    | Miss \<Rightarrow> \<exists>line'. ReverseCloseExpression c n (length w) = Inr (line', 0, None)
    | Rest s \<Rightarrow> (\<exists>st'. grounded CHR ''>'' st' \<and> plain CHR ''>'' st' = s \<and>
        ReverseCloseExpression c n (length w) = reverse_loop c (elided c ! n) n (Some st'))"
proof -
  let ?l = "w @ b # v"
  have b: "b \<noteq> CHR ''>''" "b \<in> set '')}]>''"
    using bracket_not_angle(2) [OF assms(3)] assms(3) by (auto simp: is_close_def)
  have "FindStartOfExpressionInLine ?l (int (length w)) [] = find_start ?l (length w) [b]"
    using start_step_close [of ?l "length w" "[]"] assms(3)
    by (simp add: FindStartOfExpressionInLine_def nat_add_distrib)
  moreover have "py_nth ?l (int (length w)) = Inr b"
    by (simp add: nth_append)
  ultimately have C: "ReverseCloseExpression c n (length w) =
      (case find_start ?l (length w) [b] of
         (Some q, _) \<Rightarrow> Inr (?l, n, Some q) | (None, s) \<Rightarrow> reverse_loop c ?l n s)"
    using b assms(1,2) by (auto simp: ReverseCloseExpression_def)
  have "grounded CHR ''>'' [b]" "plain CHR ''>'' [b] = [b]" using b(1) by (simp_all add: grounded_def)
  from find_start_refines [OF this(1), of "length w" ?l] this(2)
  show ?thesis
    using reverse_loop_end [of c ?l n] assms(2) by (auto simp: C split: bres.splits)
qed

text \<open>A hit closes the bottom of the stack, and a scan that goes on keeps it.\<close>

lemma bscan_bottom:
  "st \<noteq> [] \<Longrightarrow> case bscan opn cls pair w st of
      Hit k \<Rightarrow> k < length w \<and> pair (last st) (w ! k)
    | Miss \<Rightarrow> True
    | Rest s \<Rightarrow> s \<noteq> [] \<and> last s = last st"
proof (induction w arbitrary: st)
  case Nil
  then show ?case by simp
next
  case (Cons c w)
  have later: "case shift 1 (bscan opn cls pair w s) of
      Hit k \<Rightarrow> k < length (c # w) \<and> pair (last st) ((c # w) ! k)
    | Miss \<Rightarrow> True
    | Rest r \<Rightarrow> r \<noteq> [] \<and> last r = last st" if "s \<noteq> []" "last s = last st" for s
    using Cons.IH [OF that(1)] that(2) by (cases "bscan opn cls pair w s") auto
  from Cons.prems obtain t ts where st: "st = t # ts" by (cases st) auto
  show ?case
    using later [of st] later [of "c # st"] later [of ts]
    by (cases "opn c"; cases "cls c"; cases "pair t c"; cases "ts = []") (simp_all add: st)
qed

lemma slice_concat:
  "n < m \<Longrightarrow> m < length ls \<Longrightarrow> drop (Suc n) ls = map ((!) ls) [Suc n..<m] @ ls ! m # drop (Suc m) ls"
proof -
  assume "n < m" "m < length ls"
  then have "drop (Suc n) ls = take (m - Suc n) (drop (Suc n) ls) @ drop m ls"
    by (metis Suc_leI append_take_drop_id drop_drop le_add_diff_inverse2)
  moreover have "take (m - Suc n) (drop (Suc n) ls) = map ((!) ls) [Suc n..<m]"
    using \<open>n < m\<close> \<open>m < length ls\<close> by (intro nth_equalityI) auto
  ultimately show ?thesis using \<open>m < length ls\<close> by (metis Cons_nth_drop_Suc)
qed

lemma fscan_hit: "closes a b \<Longrightarrow> fscan w s = Rest [a] \<Longrightarrow> fscan (w @ b # v) s = Hit (length w)"
  using closes_cases [of a b] by (simp add: bscan_append)

lemma rscan_hit: "closes a b \<Longrightarrow> rscan w s = Rest [b] \<Longrightarrow> rscan (w @ a # v) s = Hit (length w)"
  using closes_cases [of a b] by (simp add: bscan_append)

lemma CloseExpression_lines:
  assumes "lines_ok c" "n < m" "m < NumLines c"
    and "elided c ! n = u @ a # w0" "elided c ! m = w1 @ b # v" "closes a b"
    and "balanced (w0 @ concat (map ((!) (elided c)) [Suc n..<m]) @ w1)"
  shows "CloseExpression c n (length u) = Inr (elided c ! m, m, Some (length w1 + 1))"
proof -
  let ?mid = "map ((!) (elided c)) [Suc n..<m]"
  from fscan_balanced [OF assms(7), of "[a]"] obtain s0 s1 where
    s: "fscan w0 [a] = Rest s0" "fscan (concat ?mid) s0 = Rest s1" "fscan w1 s1 = Rest [a]"
    by (auto simp: bscan_append_Rest)
  have "is_open a" using closes_cases [OF assms(6)] by simp
  with CloseExpression_open [OF assms(1) _ assms(4)] s(1) assms(2,3) obtain st where
    st: "grounded CHR ''<'' st" "plain CHR ''<'' st = s0"
      "CloseExpression c n (length u) = close_loop c (elided c ! n) n (Some st)" by auto
  have "scan_lines scan_end (drop (Suc n) (elided c)) st =
      Some (length ?mid, elided c ! m, length w1 + 1)"
    using forward.scan_lines_hit [of st ?mid s1 "elided c ! m" "length w1" "drop (Suc m) (elided c)"]
      st(1,2) s(2) fscan_hit [OF assms(6) s(3), of v] slice_concat [of n m "elided c"] assms(1,2,3,5)
    by (simp add: grounded_def lines_ok_def)
  with close_loop_scan [OF assms(1), where n = n and st = st and line = "elided c ! n"] st(3) assms(2) show ?thesis by simp
qed

lemma ReverseCloseExpression_lines:
  assumes "lines_ok c" "n < m" "m < NumLines c"
    and "elided c ! n = u @ a # w0" "elided c ! m = w1 @ b # v" "closes a b"
    and "balanced (w0 @ concat (map ((!) (elided c)) [Suc n..<m]) @ w1)"
  shows "ReverseCloseExpression c m (length w1) = Inr (elided c ! n, n, Some (length u))"
proof -
  let ?mid = "map ((!) (elided c)) [Suc n..<m]"
  have len: "m < length (elided c)" using assms(1,3) by (simp add: lines_ok_def)
  from rscan_balanced [OF assms(7), of "[b]"] obtain s0 s1 where
    s: "rscan (rev w1) [b] = Rest s0" "rscan (rev (concat ?mid)) s0 = Rest s1"
      "rscan (rev w0) s1 = Rest [b]"
    by (auto simp: bscan_append_Rest)
  have "is_close b" using closes_cases [OF assms(6)] by simp
  with ReverseCloseExpression_close [OF len assms(5)] s(1) obtain st where
    st: "grounded CHR ''>'' st" "plain CHR ''>'' st = s0"
      "ReverseCloseExpression c m (length w1) = reverse_loop c (elided c ! m) m (Some st)" by auto
  have "take m (elided c) = take n (elided c) @ elided c ! n # ?mid"
    using slice_concat [of n m "take (Suc m) (elided c)"] len assms(2)
    by (intro nth_equalityI) (auto simp: nth_append nth_Cons' min_def)
  then have "rev (take m (elided c)) = rev ?mid @ elided c ! n # rev (take n (elided c))" by simp
  moreover have "rev (concat ?mid) = concat (map rev (rev ?mid))"
    by (simp add: rev_concat rev_map)
  ultimately have "scan_lines scan_start (rev (take m (elided c))) st =
      Some (length (rev ?mid), elided c ! n, length u)"
    using backward.scan_lines_hit [of st "rev ?mid" s1 "elided c ! n" "length w0"
        "rev (take n (elided c))"]
      st(1,2) s(2) rscan_hit [OF assms(6) s(3), of "rev u"] assms(4)
    by (simp add: grounded_def)
  with reverse_loop_scan [where n = m and c = c and st = st and line = "elided c ! m"] len st(3) assms(2) show ?thesis by simp
qed

lemma matching_on_line:
  assumes "lines_ok c" "n < NumLines c" "elided c ! n = u @ a # w @ b # v" "closes a b" "balanced w"
  shows "CloseExpression c n (length u) = Inr (elided c ! n, n, Some (length u + length w + 2))"
    and "ReverseCloseExpression c n (length u + length w + 1) = Inr (elided c ! n, n, Some (length u))"
proof -
  have "fscan (w @ b # v) [a] = Hit (length w)"
    using fscan_hit [OF assms(4)] fscan_balanced [OF assms(5)] by simp
  with CloseExpression_open [OF assms(1,2,3)] closes_cases [OF assms(4)]
  show "CloseExpression c n (length u) = Inr (elided c ! n, n, Some (length u + length w + 2))"
    by simp
  have "rscan (rev (u @ a # w)) [b] = Hit (length w)"
    using rscan_hit [OF assms(4), of "rev w" "[b]" "rev u"] rscan_balanced [OF assms(5), of "[b]"]
    by simp
  with ReverseCloseExpression_close [of n c "u @ a # w" b v] closes_cases [OF assms(4)] assms(1,2,3)
  show "ReverseCloseExpression c n (length u + length w + 1) = Inr (elided c ! n, n, Some (length u))"
    by (simp add: lines_ok_def)
qed

text \<open>The bracket at position \<open>r\<close> of line \<open>m\<close> matches the one at position \<open>p\<close> of line \<open>n\<close> if it comes
  later, closes it, and the text strictly between them is balanced.\<close>

definition text_between :: "CleansedLines \<Rightarrow> nat \<Rightarrow> nat \<Rightarrow> nat \<Rightarrow> nat \<Rightarrow> string" where
  "text_between c n p m r =
     (if m = n then take (r - Suc p) (drop (Suc p) (elided c ! n))
      else drop (Suc p) (elided c ! n) @ concat (map ((!) (elided c)) [Suc n..<m]) @ take r (elided c ! m))"

definition matching :: "CleansedLines \<Rightarrow> nat \<Rightarrow> nat \<Rightarrow> nat \<Rightarrow> nat \<Rightarrow> bool" where
  "matching c n p m r \<longleftrightarrow> (n < m \<or> n = m \<and> p < r) \<and> m < NumLines c \<and>
     p < length (elided c ! n) \<and> r < length (elided c ! m) \<and>
     closes (elided c ! n ! p) (elided c ! m ! r) \<and> balanced (text_between c n p m r)"

lemma expressions_of_matching:
  assumes "lines_ok c" "matching c n p m r"
  shows "CloseExpression c n p = Inr (elided c ! m, m, Some (Suc r))"
    and "ReverseCloseExpression c m r = Inr (elided c ! n, n, Some p)"
proof -
  have "CloseExpression c n p = Inr (elided c ! m, m, Some (Suc r)) \<and>
    ReverseCloseExpression c m r = Inr (elided c ! n, n, Some p)"
  proof (cases "n = m")
    case True
    let ?l = "elided c ! n"
    from assms(2) True have r: "n < NumLines c" "p < r" "r < length ?l" "closes (?l ! p) (?l ! r)"
      "balanced (take (r - Suc p) (drop (Suc p) ?l))" by (auto simp: matching_def text_between_def)
    have "drop (Suc p) ?l = take (r - Suc p) (drop (Suc p) ?l) @ ?l ! r # drop (Suc r) ?l"
      using r(2,3) id_take_nth_drop [of "r - Suc p" "drop (Suc p) ?l"] by simp
    with id_take_nth_drop [of p ?l] r(2,3)
    have "?l = take p ?l @ ?l ! p # take (r - Suc p) (drop (Suc p) ?l) @ ?l ! r # drop (Suc r) ?l" by simp
    from matching_on_line [OF assms(1) r(1) this r(4,5)] r(2,3) True show ?thesis by simp
  next
    case False
    with assms(2) have m: "n < m" "m < NumLines c" "p < length (elided c ! n)" "r < length (elided c ! m)"
      "closes (elided c ! n ! p) (elided c ! m ! r)"
      "balanced (drop (Suc p) (elided c ! n) @ concat (map ((!) (elided c)) [Suc n..<m]) @ take r (elided c ! m))"
      by (auto simp: matching_def text_between_def)
    note l = id_take_nth_drop [OF m(3)] id_take_nth_drop [OF m(4)]
    from CloseExpression_lines [OF assms(1) m(1,2) l m(5,6)]
      ReverseCloseExpression_lines [OF assms(1) m(1,2) l m(5,6)] m(3,4) show ?thesis by simp
  qed
  then show "CloseExpression c n p = Inr (elided c ! m, m, Some (Suc r))"
    "ReverseCloseExpression c m r = Inr (elided c ! n, n, Some p)" by simp_all
qed

text \<open>A hit of the loop over the lines is a hit of the automaton on the joined lines.\<close>

lemma close_loop_matching:
  assumes "lines_ok c" "elided c ! n = u @ a # w" "fscan w [a] = Rest (plain CHR ''<'' st)"
    and "grounded CHR ''<'' st"
    and "scan_lines scan_end (drop (Suc n) (elided c)) st = Some (k, line, q)"
  shows "\<exists>r. matching c n (length u) (Suc n + k) r \<and> line = elided c ! (Suc n + k) \<and> q = Suc r"
proof -
  let ?ls = "drop (Suc n) (elided c)"
  from forward.scan_lines_found [OF _ _ assms(5)] assms(4) obtain s j where
    k: "k < length ?ls" "line = ?ls ! k" "fscan (concat (take k ?ls)) (plain CHR ''<'' st) = Rest s"
      "fscan line s = Hit j" "q = j + 1" by (auto simp: grounded_def)
  have m: "take k ?ls = map ((!) (elided c)) [Suc n..<Suc n + k]"
    using k(1) by (intro nth_equalityI [where xs = "take k ?ls"]) (auto simp del: upt_Suc)
  from k(3,4) assms(3) have hit: "fscan (w @ concat (take k ?ls) @ line) [a] =
      Hit (length (w @ concat (take k ?ls)) + j)"
    by (simp add: bscan_append)
  with bscan_bottom [where st = "[a]" and opn = is_open and cls = is_close and pair = closes
      and w = "w @ concat (take k ?ls) @ line"]
  have "j < length line" "closes a (line ! j)" by (simp_all add: nth_append)
  moreover have "balanced (w @ concat (take k ?ls) @ take j line)"
    using forward_text.hit_balanced [OF hit] by simp
  ultimately have "matching c n (length u) (Suc n + k) j"
    using k(1,2) assms(1,2) m by (simp add: matching_def text_between_def lines_ok_def)
  with k(1,2,5) show ?thesis by auto
qed

text \<open>Whatever \<open>CloseExpression\<close> finds is the match of the bracket it was called at.\<close>

lemma CloseExpression_result:
  assumes "lines_ok c" "n < NumLines c" "p < length (elided c ! n)" "is_open (elided c ! n ! p)"
  obtains (none) line where "CloseExpression c n p = Inr (line, NumLines c, None)"
  | (some) m r where "CloseExpression c n p = Inr (elided c ! m, m, Some (Suc r))" "matching c n p m r"
proof -
  define u a w where "u = take p (elided c ! n)" and "a = elided c ! n ! p"
    and "w = drop (Suc p) (elided c ! n)"
  have l: "elided c ! n = u @ a # w" and p: "p = length u"
    using assms(3) by (simp_all add: u_def a_def w_def id_take_nth_drop [symmetric])
  note C = CloseExpression_open [OF assms(1,2) l assms(4) [folded a_def]]
  show thesis
  proof (cases "fscan w [a]")
    case (Hit k)
    with bscan_bottom [where st = "[a]" and opn = is_open and cls = is_close and pair = closes and w = w]
    have "k < length w" "closes a (w ! k)" by simp_all
    with forward_text.hit_balanced [OF Hit] have "matching c n p n (Suc (p + k))"
      using l p assms(2) by (simp add: matching_def text_between_def nth_append)
    with Hit C p show thesis by (intro some) simp_all
  next
    case Miss
    with C none p show thesis by auto
  next
    case (Rest s)
    with C obtain st where st: "grounded CHR ''<'' st" "plain CHR ''<'' st = s"
      "CloseExpression c n p = close_loop c (elided c ! n) n (Some st)" by (auto simp: p)
    note S = close_loop_scan [OF assms(1), where n = n and st = st and line = "elided c ! n"]
    show thesis
    proof (cases "scan_lines scan_end (drop (Suc n) (elided c)) st")
      case None
      with S none st(3) show thesis by auto
    next
      case (Some t)
      then obtain k line q where t: "scan_lines scan_end (drop (Suc n) (elided c)) st = Some (k, line, q)"
        by (metis prod_cases3)
      from close_loop_matching [OF assms(1) l _ st(1) t] Rest st(2) p obtain r where
        "matching c n p (Suc n + k) r" "line = elided c ! (Suc n + k)" "q = Suc r" by auto
      with S t st(3) show thesis by (intro some) simp_all
    qed
  qed
qed

text \<open>The same for the backward scan.\<close>

lemma reverse_loop_matching:
  assumes "m < length (elided c)" "lines_ok c" "elided c ! m = w @ b # v"
    and "rscan (rev w) [b] = Rest (plain CHR ''>'' st)" "grounded CHR ''>'' st"
    and "scan_lines scan_start (rev (take m (elided c))) st = Some (k, line, p)"
  shows "matching c (m - Suc k) p m (length w) \<and> line = elided c ! (m - Suc k)"
proof -
  let ?ls = "rev (take m (elided c))"
  from backward.scan_lines_found [OF _ _ assms(6)] assms(5) obtain s j where
    k: "k < length ?ls" "line = ?ls ! k" "rscan (concat (map rev (take k ?ls))) (plain CHR ''>'' st) = Rest s"
      "rscan (rev line) s = Hit j" "p = length line - Suc j" by (auto simp: grounded_def)
  have line: "line = elided c ! (m - Suc k)" "k < m" using k(1,2) assms(1) by (simp_all add: rev_nth)
  have "take k ?ls = rev (map ((!) (elided c)) [Suc (m - Suc k)..<m])"
    using line(2) assms(1) by (intro nth_equalityI [where xs = "take k ?ls"]) (auto simp: rev_nth Suc_diff_Suc)
  then have mid: "rev (concat (map rev (take k ?ls))) = concat (map ((!) (elided c)) [Suc (m - Suc k)..<m])"
    by (simp add: rev_concat rev_map o_def)
  from k(3,4) assms(4) have hit: "rscan (rev w @ concat (map rev (take k ?ls)) @ rev line) [b] =
      Hit (length (rev w @ concat (map rev (take k ?ls))) + j)"
    by (simp add: bscan_append)
  with bscan_bottom [where st = "[b]" and opn = is_close and cls = is_open and pair = "\<lambda>t c. closes c t"
      and w = "rev w @ concat (map rev (take k ?ls)) @ rev line"]
  have j: "j < length line" "closes (line ! p) b" by (auto simp: nth_append rev_nth k(5))
  have "rev (take j (rev line)) = drop (Suc p) line"
    using j(1) by (simp add: take_rev k(5) Suc_diff_Suc)
  then have "balanced (drop (Suc p) line @ concat (map ((!) (elided c)) [Suc (m - Suc k)..<m]) @ w)"
    using backward_text.hit_balanced [OF hit] by (simp add: mid)
  moreover have "m \<noteq> m - Suc k" "p < length line" using j(1) line(2) k(5) by auto
  ultimately show ?thesis
    using j line assms(1-3) by (simp add: matching_def text_between_def lines_ok_def)
qed

lemma ReverseCloseExpression_result:
  assumes "lines_ok c" "m < NumLines c" "r < length (elided c ! m)" "is_close (elided c ! m ! r)"
  obtains (none) line where "ReverseCloseExpression c m r = Inr (line, 0, None)"
  | (some) n p where "ReverseCloseExpression c m r = Inr (elided c ! n, n, Some p)" "matching c n p m r"
proof -
  define w b v where "w = take r (elided c ! m)" and "b = elided c ! m ! r"
    and "v = drop (Suc r) (elided c ! m)"
  have l: "elided c ! m = w @ b # v" and r: "r = length w"
    using assms(3) by (simp_all add: w_def b_def v_def id_take_nth_drop [symmetric])
  have m: "m < length (elided c)" using assms(1,2) by (simp add: lines_ok_def)
  note C = ReverseCloseExpression_close [OF m l assms(4) [folded b_def]]
  show thesis
  proof (cases "rscan (rev w) [b]")
    case (Hit k)
    with bscan_bottom [where st = "[b]" and opn = is_close and cls = is_open
        and pair = "\<lambda>t c. closes c t" and w = "rev w"]
    have k: "k < length w" "closes (w ! (length w - Suc k)) b" by (auto simp: rev_nth)
    with backward_text.hit_balanced [OF Hit] have "matching c m (length w - Suc k) m r"
      using l r assms(2) by (simp add: matching_def text_between_def nth_append take_rev Suc_diff_Suc)
    with Hit C r show thesis by (intro some) simp_all
  next
    case Miss
    with C none r show thesis by auto
  next
    case (Rest s)
    with C obtain st where st: "grounded CHR ''>'' st" "plain CHR ''>'' st = s"
      "ReverseCloseExpression c m r = reverse_loop c (elided c ! m) m (Some st)" by (auto simp: r)
    note S = reverse_loop_scan [OF less_imp_le [OF m], where st = st and line = "elided c ! m"]
    show thesis
    proof (cases "scan_lines scan_start (rev (take m (elided c))) st")
      case None
      with S none st(3) show thesis by auto
    next
      case (Some t)
      then obtain k line p where t: "scan_lines scan_start (rev (take m (elided c))) st = Some (k, line, p)"
        by (metis prod_cases3)
      from reverse_loop_matching [OF m assms(1) l _ st(1) t] Rest st(2) r
      have "matching c (m - Suc k) p m r" "line = elided c ! (m - Suc k)" by auto
      with S t st(3) show thesis by (intro some) simp_all
    qed
  qed
qed

section \<open>Properties\<close>


abbreviation sample_lines :: CleansedLines where
  "sample_lines \<equiv> \<lparr>elided = [''if (a < b &&'', ''    f(x[1]) ||'', ''    b->c >= d) {''],
     lines = [], raw_lines = [], num_lines = 3, lines_without_raw_strings = []\<rparr>"




text \<open>C23: Called at an opening bracket of a line of the file, \<open>CloseExpression\<close> never raises. It
  returns the line \<open>m\<close> and the position \<open>q\<close> exactly when the bracket just before \<open>q\<close> is the match of the
  given one: it comes later, closes it, and the text strictly between the two is balanced. It returns
  the number of lines and no position exactly when there is no such bracket up to the end of the
  file.\<close>

theorem CloseExpression_finds_closing:
  assumes "lines_ok c" "n < NumLines c" "p < length (elided c ! n)" "elided c ! n ! p \<in> set ''([{''"
  shows "(CloseExpression c n p = Inr (line, m, Some q) \<longleftrightarrow>
      line = elided c ! m \<and> 0 < q \<and> matching c n p m (q - 1)) \<and>
    ((\<exists>line. CloseExpression c n p = Inr (line, NumLines c, None)) \<longleftrightarrow> (\<nexists>m r. matching c n p m r))"
proof -
  have iff: "CloseExpression c n p = Inr (elided c ! m, m, Some (Suc r))" if "matching c n p m r" for m r
    using assms(1) that by (rule expressions_of_matching(1))
  have "is_open (elided c ! n ! p)" using assms(4) by (simp add: is_open_def)
  with assms(1-3) show ?thesis
  proof (cases rule: CloseExpression_result)
    case (none line')
    with iff show ?thesis by fastforce
  next
    case (some m' r')
    have "matching c n p m r \<longleftrightarrow> m = m' \<and> r = r'" for m r
      using iff [of m r] some by auto
    moreover have "(q - 1 = r' \<and> 0 < q) \<longleftrightarrow> q = Suc r'" by auto
    ultimately show ?thesis using some(1) by auto
  qed
qed

theorem CloseExpression_finds_closing_witness:
  "CloseExpression sample_lines 1 5 = Inr (''    f(x[1]) ||'', 1, Some 11) \<and>
   matching sample_lines 1 5 1 10 \<and>
   CloseExpression sample_lines 2 15 = Inr (''    b->c >= d) {'', 3, None) \<and>
   (\<nexists>m r. matching sample_lines 2 15 m r)"
proof -
  have p: "lines_ok sample_lines" "1 < NumLines sample_lines" "5 < length (elided sample_lines ! 1)"
    "elided sample_lines ! 1 ! 5 \<in> set ''([{''" "2 < NumLines sample_lines"
    "15 < length (elided sample_lines ! 2)" "elided sample_lines ! 2 ! 15 \<in> set ''([{''"
    by (simp_all add: lines_ok_def NumLines_def)
  have e: "CloseExpression sample_lines 1 5 = Inr (''    f(x[1]) ||'', 1, Some 11)"
    "CloseExpression sample_lines 2 15 = Inr (''    b->c >= d) {'', 3, None)" by code_simp+
  from e(1) CloseExpression_finds_closing [OF p(1-4), of "''    f(x[1]) ||''" 1 11]
  have "matching sample_lines 1 5 1 10" by simp
  moreover have "\<exists>line. CloseExpression sample_lines 2 15 = Inr (line, NumLines sample_lines, None)"
    unfolding e(2) by (simp add: NumLines_def)
  with CloseExpression_finds_closing [OF p(1,5-7)] have "\<nexists>m r. matching sample_lines 2 15 m r" by blast
  ultimately show ?thesis using e by (intro conjI)
qed

text \<open>C24: Called at a closing bracket of a line of the file, \<open>ReverseCloseExpression\<close> never raises. It
  returns the line \<open>n\<close> and the position \<open>p\<close> exactly when the given bracket is the match of the one there,
  and line 0 with no position exactly when the given bracket matches none from the start of the file.\<close>

theorem ReverseCloseExpression_finds_opening:
  assumes "lines_ok c" "m < NumLines c" "r < length (elided c ! m)" "elided c ! m ! r \<in> set '')]}''"
  shows "(ReverseCloseExpression c m r = Inr (line, n, Some p) \<longleftrightarrow> line = elided c ! n \<and> matching c n p m r) \<and>
    ((\<exists>line. ReverseCloseExpression c m r = Inr (line, 0, None)) \<longleftrightarrow> (\<nexists>n p. matching c n p m r))"
proof -
  have iff: "ReverseCloseExpression c m r = Inr (elided c ! n, n, Some p)" if "matching c n p m r" for n p
    using assms(1) that by (rule expressions_of_matching(2))
  have "is_close (elided c ! m ! r)" using assms(4) by (simp add: is_close_def)
  with assms(1-3) show ?thesis
  proof (cases rule: ReverseCloseExpression_result)
    case (none line')
    with iff show ?thesis by fastforce
  next
    case (some n' p')
    have "matching c n p m r \<longleftrightarrow> n = n' \<and> p = p'" for n p
      using iff [of n p] some by auto
    then show ?thesis using some(1) by auto
  qed
qed

theorem ReverseCloseExpression_finds_opening_witness:
  "ReverseCloseExpression sample_lines 2 13 = Inr (''if (a < b &&'', 0, Some 3) \<and>
   matching sample_lines 0 3 2 13 \<and>
   (\<exists>line. ReverseCloseExpression (sample_lines\<lparr>elided := [''a)'', [], []]\<rparr>) 0 1 = Inr (line, 0, None)) \<and>
   (\<nexists>n p. matching (sample_lines\<lparr>elided := [''a)'', [], []]\<rparr>) n p 0 1)"
proof -
  let ?c = "sample_lines\<lparr>elided := [''a)'', [], []]\<rparr>"
  have p: "lines_ok sample_lines" "2 < NumLines sample_lines" "13 < length (elided sample_lines ! 2)"
    "elided sample_lines ! 2 ! 13 \<in> set '')]}''" by (simp_all add: lines_ok_def NumLines_def)
  have q: "lines_ok ?c" "0 < NumLines ?c" "1 < length (elided ?c ! 0)" "elided ?c ! 0 ! 1 \<in> set '')]}''"
    by (simp_all add: lines_ok_def NumLines_def)
  have e: "ReverseCloseExpression sample_lines 2 13 = Inr (''if (a < b &&'', 0, Some 3)"
    "ReverseCloseExpression ?c 0 1 = Inr (''a)'', 0, None)" by code_simp+
  from e(1) ReverseCloseExpression_finds_opening [OF p, of "''if (a < b &&''" 0 3]
  have "matching sample_lines 0 3 2 13" by simp
  moreover have n: "\<exists>line. ReverseCloseExpression ?c 0 1 = Inr (line, 0, None)" unfolding e(2) by simp
  moreover from n ReverseCloseExpression_finds_opening [OF q] have "\<nexists>n p. matching ?c n p 0 1" by blast
  ultimately show ?thesis using e(1) by (intro conjI)
qed

end
