(* ===== verification/Nesting.thy ===== *)
theory Nesting
  imports Expression_Laws
begin

text \<open>
  The nesting of blocks: the classes \<open>_BlockInfo\<close>, \<open>_ExternCInfo\<close>, \<open>_ClassInfo\<close>, \<open>_NamespaceInfo\<close>,
  \<open>_PreprocessorInfo\<close> and \<open>NestingState\<close>. A block is a record with the fields of the base class and a
  \<open>kind\<close> for the derived class. The stack of the code grows at its end; here its top is the head.

  \<open>Update\<close> keeps a reference to the block that was on top before a line and then changes blocks in
  place, so what the reference shows changes with them as long as the block stays on the stack.
  \<open>OnStack i\<close> is a reference to the block at height \<open>i\<close>; when that block is popped, or the whole stack
  is replaced by a copy, the reference keeps the block as it was last (\<open>Detached\<close>).
\<close>

section \<open>Blocks\<close>

datatype asm_state = NO_ASM | INSIDE_ASM | END_ASM | BLOCK_ASM

definition MATCH_ASM :: re where
  \<open>MATCH_ASM = rx (''^`s*(?:asm|_asm|__asm|__asm__)'' @ ''(?:`s+(volatile|__volatile__))?'' @
     ''`s*[{(]'')\<close>

record class_info =
  class_name :: string
  is_derived :: bool
  class_access :: string
  is_struct :: bool
  class_indent :: int
  last_line :: nat

datatype block_kind = PlainBlock | ExternC | ClassBlock class_info | NamespaceBlock string

record BlockInfo =
  starting_linenum :: nat
  seen_open_brace :: bool
  open_parentheses :: int
  inline_asm :: asm_state
  check_namespace_indentation :: bool
  kind :: block_kind

definition new_BlockInfo :: "nat \<Rightarrow> bool \<Rightarrow> BlockInfo" where
  "new_BlockInfo linenum seen = \<lparr>starting_linenum = linenum, seen_open_brace = seen,
     open_parentheses = 0, inline_asm = NO_ASM, check_namespace_indentation = False,
     kind = PlainBlock\<rparr>"

definition IsBlockInfo :: "BlockInfo \<Rightarrow> bool" where
  "IsBlockInfo b \<longleftrightarrow> kind b = PlainBlock"

definition new_ExternCInfo :: "nat \<Rightarrow> BlockInfo" where
  "new_ExternCInfo linenum = (new_BlockInfo linenum True)\<lparr>kind := ExternC\<rparr>"

definition new_NamespaceInfo :: "string option \<Rightarrow> nat \<Rightarrow> BlockInfo" where
  "new_NamespaceInfo name linenum = (new_BlockInfo linenum False)
     \<lparr>kind := NamespaceBlock (case name of None \<Rightarrow> [] | Some n \<Rightarrow> n),
      check_namespace_indentation := True\<rparr>"

text \<open>The loop that looks for the last line of a class: the first line after which as many braces
  were closed as opened.\<close>

fun find_last_line :: "string list \<Rightarrow> nat \<Rightarrow> int \<Rightarrow> nat" where
  "find_last_line [] i depth = 0"
| "find_last_line (line # ls) i depth =
     (let depth = depth + int (str_count ''{'' line) - int (str_count ''}'' line)
      in if depth = 0 then i else find_last_line ls (i + 1) depth)"

definition new_ClassInfo :: "string \<Rightarrow> string \<Rightarrow> CleansedLines \<Rightarrow> nat \<Rightarrow> BlockInfo res" where
  "new_ClassInfo name class_or_struct clean_lines linenum =
     bind_res (py_nth (raw_lines clean_lines) (int linenum)) (\<lambda>raw.
       Inr ((new_BlockInfo linenum False)
         \<lparr>check_namespace_indentation := True,
          kind := ClassBlock \<lparr>class_name = name, is_derived = False,
            class_access = (if class_or_struct = ''struct'' then ''public'' else ''private''),
            is_struct = (class_or_struct = ''struct''),
            class_indent = GetIndentLevel raw,
            last_line = find_last_line (slice linenum (NumLines clean_lines) (elided clean_lines)) linenum 0\<rparr>\<rparr>))"

definition CheckBegin :: "CleansedLines \<Rightarrow> nat \<Rightarrow> BlockInfo \<Rightarrow> BlockInfo res" where
  \<open>CheckBegin clean_lines linenum b =
     (case kind b of
        ClassBlock c \<Rightarrow>
          bind_res (py_nth (elided clean_lines) (int linenum)) (\<lambda>line. Inr (
            if matched (Search (rx ''(^|[^:]):($|[^:])'') line)
            then b\<lparr>kind := ClassBlock (c\<lparr>is_derived := True\<rparr>)\<rparr> else b))
      | _ \<Rightarrow> Inr b)\<close>

definition class_text :: "class_info \<Rightarrow> string" where
  "class_text c = (if is_struct c then ''struct '' else ''class '') @ class_name c"

text \<open>The loop of \<open>_ClassInfo.CheckEnd\<close> over the lines from the last one up.\<close>

fun check_disallow :: "string \<Rightarrow> string \<Rightarrow> (nat \<times> string) list \<Rightarrow> bool \<Rightarrow> report list" where
  \<open>check_disallow filename name [] seen = []\<close>
| \<open>check_disallow filename name ((i, line) # ls) seen =
     (case Search (rx (''`b(DISALLOW_COPY_AND_ASSIGN|DISALLOW_IMPLICIT_CONSTRUCTORS)`('' @ name @ ''`)'')) line of
        Some m \<Rightarrow>
          if seen then [Report filename (int i) ''readability/constructors'' 3
              (gtext m 1 @ '' should be the last thing in the class'')] else []
      | None \<Rightarrow> check_disallow filename name ls
          (if \<not> matched (Match (rx ''^`s*$'') line) then True else seen))\<close>

definition class_CheckEnd :: "string \<Rightarrow> CleansedLines \<Rightarrow> nat \<Rightarrow> nat \<Rightarrow> class_info \<Rightarrow> report list res" where
  \<open>class_CheckEnd filename clean_lines linenum start c =
     bind_res (map_res (\<lambda>i. bind_res (py_nth (elided clean_lines) (int i)) (\<lambda>l. Inr (i, l)))
       (rev [start + 1..<linenum])) (\<lambda>above.
     bind_res (py_nth (elided clean_lines) (int linenum)) (\<lambda>line.
       Inr (check_disallow filename (class_name c) above False @
         (case Match (rx ''^( *)`}'') line of
            None \<Rightarrow> []
          | Some indent \<Rightarrow>
              if int (length (gtext indent 1)) \<noteq> class_indent c
              then [Report filename (int linenum) ''whitespace/indent'' 3
                (''Closing brace should be aligned with beginning of '' @ class_text c)]
              else []))))\<close>

text \<open>\<open>re.escape\<close> of Python 3.7 and later.\<close>

definition re_escape :: "string \<Rightarrow> string" where
  "re_escape s = concat (map (\<lambda>c. if c \<in> set (''()[]{}?*+-|^$.&~# '' @ [backslash, CHR 0x09, newline,
     CHR 0x0B, CHR 0x0C, CHR 0x0D]) then [backslash, c] else [c]) s)"

definition namespace_CheckEnd :: "string \<Rightarrow> CleansedLines \<Rightarrow> nat \<Rightarrow> nat \<Rightarrow> string \<Rightarrow> report list res" where
  \<open>namespace_CheckEnd filename clean_lines linenum start name =
     bind_res (py_nth (raw_lines clean_lines) (int linenum)) (\<lambda>line. Inr (
       if int linenum - int start < 10 \<and>
          \<not> matched (Match (rx ''^`s*};*`s*(//|/`*).*`bnamespace`b'') line) then []
       else if name \<noteq> [] then
         (if \<not> matched (Match (rx (''^`s*};*`s*(//|/`*).*`bnamespace`s+'' @ re_escape name @
                ''[`*/`.```s]*$'')) line)
          then [Report filename (int linenum) ''readability/namespace'' 5
            (''Namespace should be terminated with "// namespace '' @ name @ [dquote])] else [])
       else if \<not> matched (Match (rx ''^`s*};*`s*(//|/`*).*`bnamespace[`*/`.```s]*$'') line) then
         (if matched (Match (rx ''^`s*}.*`b(namespace anonymous|anonymous namespace)`b'') line)
          then [Report filename (int linenum) ''readability/namespace'' 5
            (''Anonymous namespace should be terminated with "// namespace"'' @
             '' or "// anonymous namespace"'')]
          else [Report filename (int linenum) ''readability/namespace'' 5
            ''Anonymous namespace should be terminated with "// namespace"''])
       else []))\<close>

definition CheckEnd :: "string \<Rightarrow> CleansedLines \<Rightarrow> nat \<Rightarrow> BlockInfo \<Rightarrow> report list res" where
  "CheckEnd filename clean_lines linenum b =
     (case kind b of
        ClassBlock c \<Rightarrow> class_CheckEnd filename clean_lines linenum (starting_linenum b) c
      | NamespaceBlock name \<Rightarrow> namespace_CheckEnd filename clean_lines linenum (starting_linenum b) name
      | _ \<Rightarrow> Inr [])"

section \<open>\<open>NestingState\<close>\<close>

record PreprocessorInfo =
  stack_before_if :: "BlockInfo list"
  stack_before_else :: "BlockInfo list"
  seen_else :: bool

datatype top_ref = NoTop | OnStack nat | Detached BlockInfo

record NestingState =
  stack :: "BlockInfo list"
  previous_stack_top :: top_ref
  pp_stack :: "PreprocessorInfo list"

definition new_NestingState :: NestingState where
  "new_NestingState = \<lparr>stack = [], previous_stack_top = NoTop, pp_stack = []\<rparr>"

fun is_namespace :: "block_kind \<Rightarrow> bool" where
  "is_namespace (NamespaceBlock n) = True"
| "is_namespace k = False"

fun is_class :: "block_kind \<Rightarrow> bool" where
  "is_class (ClassBlock c) = True"
| "is_class k = False"

definition SeenOpenBrace :: "NestingState \<Rightarrow> bool" where
  "SeenOpenBrace s \<longleftrightarrow> stack s = [] \<or> seen_open_brace (hd (stack s))"

definition InNamespaceBody :: "NestingState \<Rightarrow> bool" where
  "InNamespaceBody s \<longleftrightarrow> stack s \<noteq> [] \<and> is_namespace (kind (hd (stack s)))"

definition InExternC :: "NestingState \<Rightarrow> bool" where
  "InExternC s \<longleftrightarrow> stack s \<noteq> [] \<and> kind (hd (stack s)) = ExternC"

definition InClassDeclaration :: "NestingState \<Rightarrow> bool" where
  "InClassDeclaration s \<longleftrightarrow> stack s \<noteq> [] \<and> is_class (kind (hd (stack s)))"

definition InAsmBlock :: "NestingState \<Rightarrow> bool" where
  "InAsmBlock s \<longleftrightarrow> stack s \<noteq> [] \<and> inline_asm (hd (stack s)) \<noteq> NO_ASM"

text \<open>The elementary changes: a block changed in place, a push, a pop, and the replacement of the
  whole stack by a copy.\<close>

definition upd_top :: "(BlockInfo \<Rightarrow> BlockInfo) \<Rightarrow> NestingState \<Rightarrow> NestingState" where
  "upd_top f s = (case stack s of [] \<Rightarrow> s | b # bs \<Rightarrow> s\<lparr>stack := f b # bs\<rparr>)"

definition push :: "BlockInfo \<Rightarrow> NestingState \<Rightarrow> NestingState" where
  "push b s = s\<lparr>stack := b # stack s\<rparr>"

definition pop :: "NestingState \<Rightarrow> NestingState" where
  "pop s = (case stack s of [] \<Rightarrow> s
     | b # bs \<Rightarrow> s\<lparr>stack := bs, previous_stack_top :=
         (if previous_stack_top s = OnStack (length bs) then Detached b else previous_stack_top s)\<rparr>)"

definition replace_stack :: "BlockInfo list \<Rightarrow> NestingState \<Rightarrow> NestingState" where
  "replace_stack bs s = s\<lparr>stack := bs, previous_stack_top :=
     (case previous_stack_top s of OnStack i \<Rightarrow> Detached (rev (stack s) ! i) | r \<Rightarrow> r)\<rparr>"

definition UpdatePreprocessor :: "string \<Rightarrow> NestingState \<Rightarrow> NestingState" where
  \<open>UpdatePreprocessor line s =
     (if matched (Match (rx ''^`s*#`s*(if|ifdef|ifndef)`b'') line)
      then s\<lparr>pp_stack := \<lparr>stack_before_if = stack s, stack_before_else = [], seen_else = False\<rparr> # pp_stack s\<rparr>
      else if matched (Match (rx ''^`s*#`s*(else|elif)`b'') line)
      then (case pp_stack s of
              [] \<Rightarrow> s
            | p # ps \<Rightarrow>
                let p = (if \<not> seen_else p then p\<lparr>seen_else := True, stack_before_else := stack s\<rparr> else p)
                in replace_stack (stack_before_if p) (s\<lparr>pp_stack := p # ps\<rparr>))
      else if matched (Match (rx ''^`s*#`s*endif`b'') line)
      then (case pp_stack s of
              [] \<Rightarrow> s
            | p # ps \<Rightarrow>
                (if seen_else p then replace_stack (stack_before_else p) s else s)\<lparr>pp_stack := ps\<rparr>)
      else s)\<close>

text \<open>The counting of parentheses and the inline assembly state of the innermost block.\<close>

definition count_parentheses :: "string \<Rightarrow> BlockInfo \<Rightarrow> BlockInfo" where
  "count_parentheses line b =
     (let depth_change = int (str_count ''('' line) - int (str_count '')'' line);
          b = b\<lparr>open_parentheses := open_parentheses b + depth_change\<rparr>
      in if inline_asm b \<in> {NO_ASM, END_ASM}
         then (if depth_change \<noteq> 0 \<and> open_parentheses b = 1 \<and> matched (re_match MATCH_ASM line)
               then b\<lparr>inline_asm := INSIDE_ASM\<rparr> else b\<lparr>inline_asm := NO_ASM\<rparr>)
         else if inline_asm b = INSIDE_ASM \<and> open_parentheses b = 0
         then b\<lparr>inline_asm := END_ASM\<rparr> else b)"

section \<open>Template arguments\<close>

definition template_token_re :: re where
  \<open>template_token_re = rx ''^[^{};=`[`]`.<>]*(.)''\<close>

lemma template_token_minlen: "0 < minlen template_token_re"
  by code_simp

lemma py_nth_Inr: "py_nth xs (int i) = Inr x \<Longrightarrow> i < length xs \<and> x = xs ! i"
  by (auto simp: py_nth_def split: if_splits)

lemma re_match_text:
  assumes "Match r s = Some m"
  shows "minlen r \<le> length (m_text m) \<and> length (m_text m) \<le> length s"
proof -
  obtain y where y: "y \<in> set (matches r (init s))" "m = mk_mobj (init s) y"
    using assms by (auto simp: Match_def re_match_def dest: run_matches)
  from matches_minlen [OF y(1)] advances_length [OF matches_advances [OF y(1)]] show ?thesis
    by (simp add: y(2) mk_mobj_def init_def)
qed

text \<open>A scan that finds the end of an expression finds it further on.\<close>

lemma FindEnd_after: "FindEndOfExpressionInLine line i st = (Some q, r) \<Longrightarrow> i < q"
proof (induction line i st rule: FindEndOfExpressionInLine.induct)
  case (1 line i st)
  show ?case
  proof (cases "i < length line \<and> (\<exists>st'. end_step line i st = Go st')")
    case True
    then obtain st' where "i < length line" "end_step line i st = Go st'" by blast
    with "1.IH" [of st'] "1.prems" show ?thesis
      by (subst (asm) FindEndOfExpressionInLine.simps) auto
  next
    case False
    with "1.prems" show ?thesis
      by (subst (asm) FindEndOfExpressionInLine.simps) (auto split: if_splits scan.splits)
  qed
qed

lemma close_loop_after: "close_loop c line n st = Inr (l, m, Some q) \<Longrightarrow> n < m"
proof (induction c line n st rule: close_loop.induct)
  case (1 c line n st)
  show ?case
  proof (cases "st \<noteq> None \<and> st \<noteq> Some [] \<and> n + 1 < NumLines c")
    case True
    with "1.prems" obtain l' where l': "py_nth (elided c) (int n + 1) = Inr l'"
      "(case FindEndOfExpressionInLine l' 0 (the st) of
         (Some q', _) \<Rightarrow> Inr (l', n + 1, Some q')
       | (None, s) \<Rightarrow> close_loop c l' (n + 1) s) = Inr (l, m, Some q)"
      by (subst (asm) close_loop.simps) (auto simp: bind_res_Inr_iff)
    obtain e s where es: "FindEndOfExpressionInLine l' 0 (the st) = (e, s)" by fastforce
    show ?thesis
    proof (cases e)
      case None
      with "1.IH" [OF True es [symmetric] None] l'(2) es show ?thesis by simp
    qed (use l'(2) es in auto)
  next
    case False
    with "1.prems" show ?thesis by (subst (asm) close_loop.simps) (simp split: if_splits)
  qed
qed

lemma CloseExpression_after:
  assumes "CloseExpression c n p = Inr (l, m, Some q)"
  shows "n < m \<or> n = m \<and> p < q"
  using assms close_loop_after FindEnd_after
  by (fastforce simp: CloseExpression_def bind_res_Inr_iff split: if_splits prod.splits option.splits)

text \<open>The loop of \<open>InTemplateArgumentList\<close>: each round moves to a later line or further on the
  same line.\<close>

function InTemplateArgumentList :: "CleansedLines \<Rightarrow> nat \<Rightarrow> nat \<Rightarrow> bool res" where
  "InTemplateArgumentList clean_lines linenum p =
     (if linenum < NumLines clean_lines then
        case py_nth (elided clean_lines) (int linenum) of
          Inl e \<Rightarrow> Inl e
        | Inr line \<Rightarrow>
          (case Match template_token_re (drop p line) of
             None \<Rightarrow> InTemplateArgumentList clean_lines (linenum + 1) 0
           | Some m \<Rightarrow>
             let token = gtext m 1; q = p + length (m_text m)
             in if token \<in> {''{'', ''}'', '';''} then Inr False
                else if token \<in> {''>'', ''='', ''['', '']'', ''.''} then Inr True
                else if token \<noteq> ''<'' then
                  (if q + 1 \<ge> length line then InTemplateArgumentList clean_lines (linenum + 1) 0
                   else InTemplateArgumentList clean_lines linenum (q + 1))
                else case CloseExpression clean_lines linenum (q - 1) of
                       Inl e \<Rightarrow> Inl e
                     | Inr (l, end_line, None) \<Rightarrow> Inr False
                     | Inr (l, end_line, Some end_pos) \<Rightarrow>
                         InTemplateArgumentList clean_lines end_line end_pos)
      else Inr False)"
  by pat_completeness auto
termination
proof (relation "measures [\<lambda>(c, n, p). NumLines c - n, \<lambda>(c, n, p). length (elided c ! n) - p]", goal_cases)
  case (4 c n p line m)
  then have "p < length line" "line = elided c ! n"
    using re_match_text [of template_token_re "drop p line" m] template_token_minlen
    by (auto dest: py_nth_Inr)
  with 4 show ?case by simp
next
  case (5 c n p line m x q)
  then have "p < q" "q \<le> length line" "line = elided c ! n"
    using re_match_text [of template_token_re "drop p line" m] template_token_minlen
    by (auto dest: py_nth_Inr)
  note q = this
  obtain l end_line end_pos where "CloseExpression c n (q - 1) = Inr (l, end_line, Some end_pos)"
    and g: "?case \<longleftrightarrow> ((c, end_line, end_pos), c, n, p) \<in> measures
      [\<lambda>(c, n, p). NumLines c - n, \<lambda>(c, n, p). length (elided c ! n) - p]"
    using 5 by metis
  from CloseExpression_after [OF this(1)] show ?case
    unfolding g using q 5(1) by auto
qed auto

declare InTemplateArgumentList.simps [simp del]

section \<open>Update\<close>

text \<open>A pattern that ends in a group up to the end of the line, with the number of characters it
  needs before that group.\<close>

fun last_group :: "re \<Rightarrow> (nat \<times> nat) option" where
  "last_group (Seq r s) =
     (if s = Eol then (case r of Grp n _ \<Rightarrow> Some (n, 0) | _ \<Rightarrow> None)
      else map_option (\<lambda>(n, k). (n, minlen r + k)) (last_group s))"
| "last_group r = None"

lemma last_group_matches:
  "last_group r = Some (n, k) \<Longrightarrow> y \<in> set (matches r x) \<Longrightarrow>
     \<exists>x1 x2. y = capture n x1 x2 \<and> advances x x1 \<and> pos x + k \<le> pos x1"
proof (induction r arbitrary: x k)
  case (Seq r s)
  from Seq.prems(2) obtain z where z: "z \<in> set (matches r x)" "y \<in> set (matches s z)"
    by (auto simp: in_Seq simp del: matches.simps)
  show ?case
  proof (cases "s = Eol")
    case True
    with Seq.prems(1) obtain r' where r: "r = Grp n r'" "k = 0" by (auto split: re.splits)
    with z(1) obtain w where "z = capture n x w" by (auto simp: in_Grp simp del: matches.simps)
    with z(2) True r show ?thesis by (auto simp: in_Eol simp del: matches.simps)
  next
    case False
    with Seq.prems(1) obtain j where j: "last_group s = Some (n, j)" "k = minlen r + j" by auto
    from Seq.IH(2) [OF j(1) z(2)] obtain x1 x2 where
      "y = capture n x1 x2" "advances z x1" "pos z + j \<le> pos x1" by blast
    with matches_advances [OF z(1)] matches_minlen [OF z(1)] j(2) show ?thesis
      by (intro exI [of _ x1] exI [of _ x2]) (auto intro: advances_trans)
  qed
qed auto

lemma last_group_text:
  assumes "Match r s = Some m" "last_group r = Some (n, k)" "0 < n"
  shows "length (gtext m n) + k \<le> length s"
proof -
  obtain y where y: "y \<in> set (matches r (init s))" "m = mk_mobj (init s) y"
    using assms by (auto simp: Match_def re_match_def dest: run_matches)
  from last_group_matches [OF assms(2) y(1)] obtain x1 x2 where
    x: "y = capture n x1 x2" "advances (init s) x1" "k \<le> pos x1" by (auto simp: init_def)
  from advances_length [OF x(2)] x show ?thesis
    using assms(3) by (simp add: y(2) mk_mobj_def gtext_def group_def init_def)
qed

definition namespace_re :: re where
  \<open>namespace_re = rx ''^`s*namespace`b`s*([:`w]+)?(.*)$''\<close>

definition class_decl_re :: re where
  \<open>class_decl_re = rx (''^(`s*(?:template`s*<[`w`s<>,:=]*>`s*)?'' @
     ''(class|struct)`s+(?:[A-Z_]+`s+)*(`w+(?:::`w+)*))'' @ ''(.*)$'')\<close>

definition access_re :: re where
  \<open>access_re = rx (''^(.*)`b(public|private|protected|signals)(`s+(?:slots`s*)?)?'' @
     '':(?:[^:]|$)'')\<close>

definition brace_re :: re where
  \<open>brace_re = rx ''^[^{;)}]*([{;)}])(.*)$''\<close>

lemma last_groups: "last_group namespace_re = Some (2, 9)" "last_group brace_re = Some (2, 1)"
  by code_simp+

text \<open>The loop that consumes namespace declarations at the beginning of the line.\<close>

function namespace_loop :: "nat \<Rightarrow> string \<Rightarrow> NestingState \<Rightarrow> string \<times> NestingState" where
  "namespace_loop linenum line s =
     (case Match namespace_re line of
        None \<Rightarrow> (line, s)
      | Some m \<Rightarrow>
        let new_namespace = new_NamespaceInfo (group m 1) linenum; line = gtext m 2
        in case find_idx ''{'' line of
             Some k \<Rightarrow> namespace_loop linenum (drop (k + 1) line)
               (push (new_namespace\<lparr>seen_open_brace := True\<rparr>) s)
           | None \<Rightarrow> namespace_loop linenum line (push new_namespace s))"
  by pat_completeness auto
termination
  by (relation "measure (\<lambda>(linenum, line, s). length line)")
    (auto dest!: last_group_text [OF _ last_groups(1), simplified])

declare namespace_loop.simps [simp del]

definition class_step :: "CleansedLines \<Rightarrow> nat \<Rightarrow> string \<Rightarrow> NestingState \<Rightarrow> (string \<times> NestingState) res" where
  "class_step clean_lines linenum line s =
     (case Match class_decl_re line of
        None \<Rightarrow> Inr (line, s)
      | Some m \<Rightarrow>
        if stack s = [] \<or> open_parentheses (hd (stack s)) = 0
        then bind_res (InTemplateArgumentList clean_lines linenum (length (gtext m 1))) (\<lambda>inside.
               if \<not> inside
               then bind_res (new_ClassInfo (gtext m 3) (gtext m 2) clean_lines linenum) (\<lambda>b.
                      Inr (gtext m 4, push b s))
               else Inr (line, s))
        else Inr (line, s))"

definition access_step :: "string \<Rightarrow> nat \<Rightarrow> string \<Rightarrow> NestingState \<Rightarrow> report list \<times> NestingState" where
  \<open>access_step filename linenum line s =
     (case stack s of
        [] \<Rightarrow> ([], s)
      | b # bs \<Rightarrow>
        (case kind b of
           ClassBlock c \<Rightarrow>
             (case Match access_re line of
                None \<Rightarrow> ([], s)
              | Some m \<Rightarrow>
                let s = upd_top (\<lambda>b. b\<lparr>kind := ClassBlock (c\<lparr>class_access := gtext m 2\<rparr>)\<rparr>) s;
                    indent = gtext m 1
                in (if int (length indent) \<noteq> class_indent c + 1 \<and> matched (Match (rx ''^`s*$'') indent)
                    then [Report filename (int linenum) ''whitespace/indent'' 3
                      (gtext m 2 @ gtext m 3 @ '': should be indented +1 space inside '' @ class_text c)]
                    else [], s))
         | _ \<Rightarrow> ([], s)))\<close>

text \<open>One round of the loop that consumes braces and semicolons.\<close>

definition brace_step ::
  "string \<Rightarrow> CleansedLines \<Rightarrow> nat \<Rightarrow> string \<Rightarrow> string \<Rightarrow> NestingState \<Rightarrow> (report list \<times> NestingState) res" where
  \<open>brace_step filename clean_lines linenum line token s =
     (if token = ''{'' then
        Inr ([],
          if \<not> SeenOpenBrace s then upd_top (\<lambda>b. b\<lparr>seen_open_brace := True\<rparr>) s
          else if matched (Match (rx ''^extern`s*"[^"]*"`s*`{'') line)
          then push (new_ExternCInfo linenum) s
          else push ((new_BlockInfo linenum True)
            \<lparr>inline_asm := (if matched (re_match MATCH_ASM line) then BLOCK_ASM else NO_ASM)\<rparr>) s)
      else if token = '';'' \<or> token = '')'' then
        Inr ([], if \<not> SeenOpenBrace s then pop s else s)
      else case stack s of
             [] \<Rightarrow> Inr ([], s)
           | b # bs \<Rightarrow> bind_res (CheckEnd filename clean_lines linenum b) (\<lambda>rs. Inr (rs, pop s)))\<close>

function brace_loop ::
  "string \<Rightarrow> CleansedLines \<Rightarrow> nat \<Rightarrow> string \<Rightarrow> NestingState \<Rightarrow> (report list \<times> NestingState) res" where
  "brace_loop filename clean_lines linenum line s =
     (case Match brace_re line of
        None \<Rightarrow> Inr ([], s)
      | Some m \<Rightarrow>
        (case brace_step filename clean_lines linenum line (gtext m 1) s of
           Inl e \<Rightarrow> Inl e
         | Inr (rs, s') \<Rightarrow>
             bind_res (brace_loop filename clean_lines linenum (gtext m 2) s') (\<lambda>(rs', s'').
               Inr (rs @ rs', s''))))"
  by pat_completeness auto
termination
  by (relation "measure (\<lambda>(filename, clean_lines, linenum, line, s). length line)")
    (auto dest!: last_group_text [OF _ last_groups(2), simplified])

declare brace_loop.simps [simp del]

definition begin_step :: "CleansedLines \<Rightarrow> nat \<Rightarrow> NestingState \<Rightarrow> NestingState res" where
  "begin_step clean_lines linenum s =
     (case stack s of
        [] \<Rightarrow> Inr s
      | b # bs \<Rightarrow>
        if \<not> seen_open_brace b
        then bind_res (CheckBegin clean_lines linenum b) (\<lambda>b'. Inr (s\<lparr>stack := b' # bs\<rparr>))
        else Inr s)"

definition Update ::
  "string \<Rightarrow> CleansedLines \<Rightarrow> nat \<Rightarrow> NestingState \<Rightarrow> (report list \<times> NestingState) res" where
  "Update filename clean_lines linenum s =
     bind_res (py_nth (elided clean_lines) (int linenum)) (\<lambda>line.
       let s = s\<lparr>previous_stack_top := (if stack s = [] then NoTop else OnStack (length (stack s) - 1))\<rparr>;
           s = UpdatePreprocessor line s;
           s = upd_top (count_parentheses line) s;
           (line, s) = namespace_loop linenum line s
       in bind_res (class_step clean_lines linenum line s) (\<lambda>(line, s).
          bind_res (begin_step clean_lines linenum s) (\<lambda>s.
            let (rs, s) = access_step filename linenum line s
            in bind_res (brace_loop filename clean_lines linenum line s) (\<lambda>(rs', s).
                 Inr (rs @ rs', s)))))"

definition InnermostClass :: "NestingState \<Rightarrow> BlockInfo option" where
  "InnermostClass s = find (\<lambda>b. is_class (kind b)) (stack s)"

definition completed_report :: "string \<Rightarrow> BlockInfo \<Rightarrow> report list" where
  "completed_report filename b =
     (case kind b of
        ClassBlock c \<Rightarrow> [Report filename (int (starting_linenum b)) ''build/class'' 5
          (''Failed to find complete declaration of class '' @ class_name c)]
      | NamespaceBlock name \<Rightarrow> [Report filename (int (starting_linenum b)) ''build/namespaces'' 5
          (''Failed to find complete declaration of namespace '' @ name)]
      | _ \<Rightarrow> [])"

definition CheckCompletedBlocks :: "string \<Rightarrow> NestingState \<Rightarrow> report list" where
  "CheckCompletedBlocks filename s = concat (map (completed_report filename) (rev (stack s)))"

end
