(* ===== verification/Nesting_Laws.thy ===== *)
theory Nesting_Laws
  imports Nesting
begin

text \<open>
  What the nesting state guarantees: \<open>Update\<close> never raises on a line of the file, the blocks on its
  stacks are well formed, the reference to the previous top stays valid, braces and stack height
  agree, and the branches of an \<open>#if\<close> are seen from the same stack. The locale
  \<open>nesting_invariant\<close> reduces an invariant of \<open>Update\<close> to the elementary changes: a push of a newly
  created block, a pop, an in-place change of the top, the preprocessor stack.
\<close>

section \<open>\<open>Update\<close> never raises\<close>

definition file_ok :: "CleansedLines \<Rightarrow> bool" where
  "file_ok c \<longleftrightarrow> lines_ok c \<and> length (raw_lines c) = NumLines c"

lemma file_ok_new: "new_CleansedLines ls = Inr c \<Longrightarrow> file_ok c \<and> NumLines c = length ls"
  by (rule new_CleansedLines_total [of ls]) (simp add: file_ok_def lines_ok_def NumLines_def)

lemma close_loop_total:
  assumes "lines_ok c"
  shows "\<exists>r. close_loop c line n st = Inr r"
proof (cases st)
  case None
  then show ?thesis using close_loop_end by blast
next
  case (Some s)
  with close_loop_scan [OF assms, where n = n and st = s and line = line] show ?thesis
    by (auto split: option.splits)
qed

lemma CloseExpression_total:
  assumes "lines_ok c" "n < NumLines c" "p < length (elided c ! n)"
  shows "\<exists>r. CloseExpression c n p = Inr r"
proof -
  have "py_nth (elided c) (int n) = Inr (elided c ! n)" "py_nth (elided c ! n) (int p) = Inr (elided c ! n ! p)"
    using assms by (simp_all add: lines_ok_def)
  with close_loop_total [OF assms(1)] show ?thesis
    by (auto simp: CloseExpression_def split: prod.split option.split)
qed

lemma InTemplateArgumentList_total:
  assumes "lines_ok c"
  shows "\<exists>b. InTemplateArgumentList c n p = Inr b"
  using assms
proof (induction c n p rule: InTemplateArgumentList.induct)
  case (1 c n p)
  show ?case
  proof (cases "n < NumLines c")
    case False
    then show ?thesis by (subst InTemplateArgumentList.simps) auto
  next
    case True
    then have line: "py_nth (elided c) (int n) = Inr (elided c ! n)"
      using "1.prems" by (simp add: lines_ok_def)
    show ?thesis
    proof (cases "Match template_token_re (drop p (elided c ! n))")
      case None
      with "1.IH"(1) [OF True line None "1.prems"] True line show ?thesis
        by (subst InTemplateArgumentList.simps) simp
    next
      case (Some m)
      let ?q = "p + length (m_text m)"
      have "0 < ?q" "?q - 1 < length (elided c ! n)"
        using re_match_text [OF Some] template_token_minlen by auto
      then obtain l e q where close: "CloseExpression c n (?q - 1) = Inr (l, e, q)"
        using CloseExpression_total [OF "1.prems" True, of "?q - 1"] by (metis prod_cases3)
      note IH = "1.IH"(2-4) [OF True line Some refl refl]
      show ?thesis
        by (subst InTemplateArgumentList.simps)
          (use True line Some close IH(1,2) IH(3) [OF _ _ _ close refl refl] "1.prems" in
            \<open>auto simp: Let_def split: option.split\<close>)
    qed
  qed
qed

lemma new_ClassInfo_total: "file_ok c \<Longrightarrow> n < NumLines c \<Longrightarrow> \<exists>b. new_ClassInfo name k c n = Inr b"
  by (auto simp: new_ClassInfo_def file_ok_def)

lemma class_step_total: "file_ok c \<Longrightarrow> n < NumLines c \<Longrightarrow> \<exists>r. class_step c n line s = Inr r"
proof -
  assume c: "file_ok c" "n < NumLines c"
  then have "lines_ok c" by (simp add: file_ok_def)
  show ?thesis
  proof (cases "Match class_decl_re line")
    case None
    then show ?thesis by (simp add: class_step_def)
  next
    case (Some m)
    obtain b where "InTemplateArgumentList c n (length (gtext m 1)) = Inr b"
      using InTemplateArgumentList_total [OF \<open>lines_ok c\<close>] by blast
    moreover obtain k where "new_ClassInfo (gtext m 3) (gtext m 2) c n = Inr k"
      using new_ClassInfo_total [OF c] by blast
    ultimately show ?thesis using Some by (simp add: class_step_def)
  qed
qed

lemma CheckBegin_total: "lines_ok c \<Longrightarrow> n < NumLines c \<Longrightarrow> \<exists>b'. CheckBegin c n b = Inr b'"
  by (auto simp: CheckBegin_def lines_ok_def split: block_kind.split)

lemma begin_step_total: "lines_ok c \<Longrightarrow> n < NumLines c \<Longrightarrow> \<exists>s'. begin_step c n s = Inr s'"
  using CheckBegin_total [of c n] by (cases "stack s") (auto simp: begin_step_def bind_res_Inr_iff)

lemma class_CheckEnd_total:
  assumes "lines_ok c" "n < NumLines c"
  shows "\<exists>rs. class_CheckEnd f c n start k = Inr rs"
proof -
  have "map_res (\<lambda>i. bind_res (py_nth (elided c) (int i)) (\<lambda>l. Inr (i, l))) (rev [start + 1..<n]) =
      Inr (map (\<lambda>i. (i, elided c ! i)) (rev [start + 1..<n]))"
    by (rule map_res_total) (use assms in \<open>auto simp: lines_ok_def\<close>)
  moreover have "py_nth (elided c) (int n) = Inr (elided c ! n)" using assms by (simp add: lines_ok_def)
  ultimately show ?thesis by (simp add: class_CheckEnd_def)
qed

lemma CheckEnd_total:
  assumes "file_ok c" "n < NumLines c"
  shows "\<exists>rs. CheckEnd f c n b = Inr rs"
  using assms class_CheckEnd_total [of c n f]
  by (cases "kind b") (auto simp: CheckEnd_def namespace_CheckEnd_def file_ok_def)

lemma brace_step_total:
  "file_ok c \<Longrightarrow> n < NumLines c \<Longrightarrow> \<exists>r. brace_step f c n line token s = Inr r"
  using CheckEnd_total [of c n f "hd (stack s)"]
  by (cases "token = ''{''"; cases "token = '';'' \<or> token = '')''"; cases "stack s")
    (auto simp: brace_step_def)

lemma brace_loop_total:
  "file_ok c \<Longrightarrow> n < NumLines c \<Longrightarrow> \<exists>r. brace_loop f c n line s = Inr r"
proof (induction f c n line s rule: brace_loop.induct)
  case (1 f c n line s)
  show ?case
  proof (cases "Match brace_re line")
    case None
    then show ?thesis by (subst brace_loop.simps) simp
  next
    case (Some m)
    obtain rs s' where st: "brace_step f c n line (gtext m 1) s = Inr (rs, s')"
      using brace_step_total [OF "1.prems"] by (metis prod.exhaust)
    obtain rs' s'' where "brace_loop f c n (gtext m 2) s' = Inr (rs', s'')"
      using "1.IH" [OF Some st refl "1.prems"] by (metis prod.exhaust)
    with Some st show ?thesis by (subst brace_loop.simps) simp
  qed
qed

lemma Update_cases:
  assumes "file_ok c" "n < NumLines c"
  obtains line1 s1 line2 s2 s3 rs s4 rs' s' where
    "namespace_loop n (elided c ! n) (upd_top (count_parentheses (elided c ! n))
       (UpdatePreprocessor (elided c ! n) (s\<lparr>previous_stack_top :=
         (if stack s = [] then NoTop else OnStack (length (stack s) - 1))\<rparr>))) = (line1, s1)"
    "class_step c n line1 s1 = Inr (line2, s2)" "begin_step c n s2 = Inr s3"
    "access_step f n line2 s3 = (rs, s4)" "brace_loop f c n line2 s4 = Inr (rs', s')"
    "Update f c n s = Inr (rs @ rs', s')"
proof -
  let ?line = "elided c ! n"
  have line: "py_nth (elided c) (int n) = Inr ?line" and lines: "lines_ok c"
    using assms by (simp_all add: file_ok_def lines_ok_def)
  obtain line1 s1 where 1: "namespace_loop n ?line (upd_top (count_parentheses ?line)
       (UpdatePreprocessor ?line (s\<lparr>previous_stack_top :=
         (if stack s = [] then NoTop else OnStack (length (stack s) - 1))\<rparr>))) = (line1, s1)"
    by fastforce
  obtain line2 s2 where 2: "class_step c n line1 s1 = Inr (line2, s2)"
    using class_step_total [OF assms] by (metis prod.exhaust)
  obtain s3 where 3: "begin_step c n s2 = Inr s3"
    using begin_step_total [OF lines assms(2)] by blast
  obtain rs s4 where 4: "access_step f n line2 s3 = (rs, s4)" by fastforce
  obtain rs' s' where 5: "brace_loop f c n line2 s4 = Inr (rs', s')"
    using brace_loop_total [OF assms] by (metis prod.exhaust)
  have "Update f c n s = Inr (rs @ rs', s')"
    using line 1 2 3 4 5 by (simp add: Update_def Let_def)
  with 1 2 3 4 5 show thesis by (rule that)
qed

section \<open>Invariants of the nesting state\<close>

text \<open>The blocks \<open>Update\<close> creates at a line, and the changes it makes to a block in place.\<close>

inductive created :: "nat \<Rightarrow> BlockInfo \<Rightarrow> bool" where
  plain: "created n ((new_BlockInfo n True)\<lparr>inline_asm := a\<rparr>)"
| extern: "created n (new_ExternCInfo n)"
| namespace: "created n (new_NamespaceInfo name n)"
| namespace_open: "created n ((new_NamespaceInfo name n)\<lparr>seen_open_brace := True\<rparr>)"
| classes: "new_ClassInfo name ctype c n = Inr b \<Longrightarrow> created n b"

inductive changed :: "BlockInfo \<Rightarrow> BlockInfo \<Rightarrow> bool" where
  same: "changed b b"
| counted: "changed b (count_parentheses line b)"
| opened: "changed b (b\<lparr>seen_open_brace := True\<rparr>)"
| class_info: "kind b = ClassBlock k \<Longrightarrow> changed b (b\<lparr>kind := ClassBlock k'\<rparr>)"

locale nesting_invariant =
  fixes Q :: "nat \<Rightarrow> NestingState \<Rightarrow> bool"
  assumes push: "created n b \<Longrightarrow> Q n s \<Longrightarrow> Q n (push b s)"
    and pop: "Q n s \<Longrightarrow> Q n (pop s)"
    and in_place: "stack s = b # bs \<Longrightarrow> changed b b' \<Longrightarrow> Q n s \<Longrightarrow> Q n (s\<lparr>stack := b' # bs\<rparr>)"
    and preprocessor: "Q n s \<Longrightarrow> Q n (UpdatePreprocessor line s)"
    and remember: "Q n s \<Longrightarrow> Q n (s\<lparr>previous_stack_top :=
      (if stack s = [] then NoTop else OnStack (length (stack s) - 1))\<rparr>)"
begin

lemma upd_top_keeps: "Q n s \<Longrightarrow> (\<And>b. changed b (f b)) \<Longrightarrow> Q n (upd_top f s)"
  by (auto simp: upd_top_def in_place split: list.split)

lemma namespace_loop_keeps: "Q n s \<Longrightarrow> Q n (snd (namespace_loop n line s))"
proof (induction n line s rule: namespace_loop.induct)
  case (1 n line s)
  have "Q n (push (new_NamespaceInfo name n) s)"
    "Q n (push ((new_NamespaceInfo name n)\<lparr>seen_open_brace := True\<rparr>) s)" for name
    using "1.prems" by (simp_all add: push created.intros)
  with "1.IH" "1.prems" show ?case
    by (subst namespace_loop.simps) (auto simp: Let_def split: option.split)
qed

lemma class_step_keeps: "Q n s \<Longrightarrow> class_step c n line s = Inr (line', s') \<Longrightarrow> Q n s'"
  by (auto simp: class_step_def bind_res_Inr_iff push created.intros split: option.splits if_splits)

lemma CheckBegin_changed: "CheckBegin c n b = Inr b' \<Longrightarrow> changed b b'"
  by (auto simp: CheckBegin_def bind_res_Inr_iff intro: changed.intros
      split: block_kind.splits if_splits)

lemma begin_step_keeps: "Q n s \<Longrightarrow> begin_step c n s = Inr s' \<Longrightarrow> Q n s'"
  by (auto simp: begin_step_def bind_res_Inr_iff in_place CheckBegin_changed
      split: list.splits if_splits)

lemma access_step_keeps: "Q n s \<Longrightarrow> Q n (snd (access_step f n line s))"
  by (auto simp: access_step_def Let_def upd_top_def in_place changed.intros
      split: list.split block_kind.split option.split)

lemma brace_step_keeps: "Q n s \<Longrightarrow> brace_step f c n line token s = Inr (rs, s') \<Longrightarrow> Q n s'"
  by (auto simp: brace_step_def bind_res_Inr_iff push pop created.intros
      intro!: upd_top_keeps changed.intros split: if_splits list.splits)

lemma brace_loop_keeps: "Q n s \<Longrightarrow> brace_loop f c n line s = Inr (rs, s') \<Longrightarrow> Q n s'"
proof (induction f c n line s arbitrary: rs rule: brace_loop.induct)
  case (1 f c n line s)
  show ?case
  proof (cases "Match brace_re line")
    case None
    with "1.prems" show ?thesis by (subst (asm) brace_loop.simps) simp
  next
    case (Some m)
    with "1.prems"(2) obtain rs1 s1 rs2 where st: "brace_step f c n line (gtext m 1) s = Inr (rs1, s1)"
      "brace_loop f c n (gtext m 2) s1 = Inr (rs2, s')"
      by (subst (asm) brace_loop.simps) (auto simp: bind_res_Inr_iff split: sum.splits)
    show ?thesis
      by (rule "1.IH" [OF Some st(1) refl brace_step_keeps [OF "1.prems"(1) st(1)] st(2)])
  qed
qed

lemma Update_keeps:
  assumes "file_ok c" "n < NumLines c" "Q n s" "Update f c n s = Inr (rs, s')"
  shows "Q n s'"
proof (rule Update_cases [OF assms(1,2), where s = s and f = f])
  fix line1 s1 line2 s2 s3 rs1 s4 rs2 s5
  assume 1: "namespace_loop n (elided c ! n) (upd_top (count_parentheses (elided c ! n))
       (UpdatePreprocessor (elided c ! n) (s\<lparr>previous_stack_top :=
         (if stack s = [] then NoTop else OnStack (length (stack s) - 1))\<rparr>))) = (line1, s1)"
    and 2: "class_step c n line1 s1 = Inr (line2, s2)" and 3: "begin_step c n s2 = Inr s3"
    and 4: "access_step f n line2 s3 = (rs1, s4)" and 5: "brace_loop f c n line2 s4 = Inr (rs2, s5)"
    and 6: "Update f c n s = Inr (rs1 @ rs2, s5)"
  let ?s0 = "upd_top (count_parentheses (elided c ! n)) (UpdatePreprocessor (elided c ! n)
    (s\<lparr>previous_stack_top := (if stack s = [] then NoTop else OnStack (length (stack s) - 1))\<rparr>))"
  have "Q n ?s0"
    by (intro upd_top_keeps preprocessor remember assms(3) changed.counted)
  from namespace_loop_keeps [OF this, of "elided c ! n"] have "Q n s1" by (simp only: 1 snd_conv)
  then have "Q n s4"
    using access_step_keeps [OF begin_step_keeps [OF class_step_keeps [OF _ 2] 3], of f line2] 4 by simp
  from brace_loop_keeps [OF this 5] assms(4) 6 show ?thesis by simp
qed

end

text \<open>First invariant: only a class or a namespace still waits for its brace, and only these have
  their indentation checked; no block starts after the current line. It holds of the saved stacks
  as well.\<close>

definition wf_block :: "nat \<Rightarrow> BlockInfo \<Rightarrow> bool" where
  "wf_block n b \<longleftrightarrow> starting_linenum b \<le> n \<and>
     (\<not> seen_open_brace b \<longrightarrow> is_class (kind b) \<or> is_namespace (kind b)) \<and>
     (check_namespace_indentation b \<longleftrightarrow> is_class (kind b) \<or> is_namespace (kind b))"

definition all_blocks :: "(BlockInfo \<Rightarrow> bool) \<Rightarrow> NestingState \<Rightarrow> bool" where
  "all_blocks P s \<longleftrightarrow> list_all P (stack s) \<and>
     list_all (\<lambda>p. list_all P (stack_before_if p) \<and> list_all P (stack_before_else p)) (pp_stack s)"

lemma created_wf: "created n b \<Longrightarrow> wf_block n b"
  by (induction rule: created.induct)
    (auto simp: wf_block_def new_BlockInfo_def new_ExternCInfo_def new_NamespaceInfo_def
      new_ClassInfo_def bind_res_Inr_iff)

lemma count_parentheses_frame [frame_simps]:
  "kind (count_parentheses line b) = kind b"
  "starting_linenum (count_parentheses line b) = starting_linenum b"
  "seen_open_brace (count_parentheses line b) = seen_open_brace b"
  "check_namespace_indentation (count_parentheses line b) = check_namespace_indentation b"
  by (simp_all add: count_parentheses_def Let_def)

lemma changed_wf: "changed b b' \<Longrightarrow> wf_block n b \<Longrightarrow> wf_block n b'"
  by (induction rule: changed.induct) (auto simp: wf_block_def frame_simps)

interpretation blocks: nesting_invariant "\<lambda>n. all_blocks (wf_block n)"
proof
  fix n s b bs b' line
  show "created n b \<Longrightarrow> all_blocks (wf_block n) s \<Longrightarrow> all_blocks (wf_block n) (push b s)"
    by (simp add: all_blocks_def push_def created_wf)
  show "all_blocks (wf_block n) s \<Longrightarrow> all_blocks (wf_block n) (pop s)"
    by (cases "stack s") (auto simp: all_blocks_def pop_def)
  show "stack s = b # bs \<Longrightarrow> changed b b' \<Longrightarrow> all_blocks (wf_block n) s \<Longrightarrow>
      all_blocks (wf_block n) (s\<lparr>stack := b' # bs\<rparr>)"
    by (simp add: all_blocks_def changed_wf)
  show "all_blocks (wf_block n) s \<Longrightarrow> all_blocks (wf_block n) (UpdatePreprocessor line s)"
    by (cases "pp_stack s")
      (auto simp: all_blocks_def UpdatePreprocessor_def replace_stack_def Let_def)
qed (simp add: all_blocks_def)

text \<open>Second invariant: a reference to a block on the stack points into the stack.\<close>

definition top_valid :: "NestingState \<Rightarrow> bool" where
  "top_valid s \<longleftrightarrow> (case previous_stack_top s of OnStack i \<Rightarrow> i < length (stack s) | _ \<Rightarrow> True)"

interpretation top: nesting_invariant "\<lambda>n. top_valid"
proof
  fix n s b bs b' line
  show "top_valid s \<Longrightarrow> top_valid (push b s)"
    by (auto simp: top_valid_def push_def split: top_ref.splits)
  show "top_valid s \<Longrightarrow> top_valid (pop s)"
    by (cases "stack s") (auto simp: top_valid_def pop_def split: top_ref.splits)
  show "stack s = b # bs \<Longrightarrow> top_valid s \<Longrightarrow> top_valid (s\<lparr>stack := b' # bs\<rparr>)"
    by (auto simp: top_valid_def split: top_ref.splits)
  show "top_valid s \<Longrightarrow> top_valid (UpdatePreprocessor line s)"
    by (cases "pp_stack s")
      (auto simp: top_valid_def UpdatePreprocessor_def replace_stack_def Let_def split: top_ref.splits)
  show "top_valid (s\<lparr>previous_stack_top :=
      (if stack s = [] then NoTop else OnStack (length (stack s) - 1))\<rparr>)"
    by (simp add: top_valid_def)
qed

section \<open>The states reached in a file\<close>

text \<open>The loop over the lines of a file, with the reports so far.\<close>

inductive reaches :: "string \<Rightarrow> CleansedLines \<Rightarrow> nat \<Rightarrow> NestingState \<Rightarrow> report list \<Rightarrow> bool" for f c where
  start: "reaches f c 0 new_NestingState []"
| line: "reaches f c n s rs \<Longrightarrow> n < NumLines c \<Longrightarrow> Update f c n s = Inr (rs', s') \<Longrightarrow>
    reaches f c (Suc n) s' (rs @ rs')"

lemma reaches_exists: "file_ok c \<Longrightarrow> n \<le> NumLines c \<Longrightarrow> \<exists>s rs. reaches f c n s rs"
proof (induction n)
  case 0
  then show ?case using reaches.start by blast
next
  case (Suc n)
  then obtain s rs where r: "reaches f c n s rs" by auto
  from Suc.prems have n: "n < NumLines c" by simp
  obtain rs' s' where "Update f c n s = Inr (rs', s')"
    using Update_cases [OF Suc.prems(1) n] by metis
  from reaches.line [OF r n this] show ?case by blast
qed

lemma reaches_invariant:
  assumes "reaches f c n s rs" "file_ok c"
  shows "all_blocks (wf_block n) s \<and> top_valid s"
  using assms(1)
proof (induction rule: reaches.induct)
  case start
  show ?case by (simp add: new_NestingState_def all_blocks_def top_valid_def)
next
  case (line n s rs rs' s')
  then have "all_blocks (wf_block n) s'" "top_valid s'"
    using blocks.Update_keeps [OF assms(2) line.hyps(2) _ line.hyps(3)]
      top.Update_keeps [OF assms(2) line.hyps(2) _ line.hyps(3)] by auto
  moreover have "wf_block n b \<Longrightarrow> wf_block (Suc n) b" for b by (simp add: wf_block_def)
  ultimately show ?case by (auto simp: all_blocks_def list_all_iff)
qed

section \<open>Braces and the height of the stack\<close>

abbreviation tokens :: "citem list" where
  "tokens \<equiv> [CChar CHR ''{'', CChar CHR '';'', CChar CHR '')'', CChar CHR ''}'']"

abbreviation is_token :: "char \<Rightarrow> bool" where "is_token c \<equiv> c \<in> set ''{;)}''"

lemma rx_brace [rx_code]:
  "brace_re = Seq Bol (Seq (Rep True 0 None (Cls False tokens))
     (Seq (Grp 1 (Cls True tokens)) (Seq (Grp 2 (Rep True 0 None Any)) Eol)))"
  by code_simp

lemma cls_token:
  "cls_has False tokens = (\<lambda>c. \<not> is_token c)"
  "cls_has True tokens = is_token"
  by (auto simp: cls_has_def fun_eq_iff)

lemma brace_re_matches:
  "matches brace_re (init s) =
     (let k = length (takeWhile (\<lambda>c. \<not> is_token c) s); y = adv k (init s)
      in if k < length s
         then matches (Seq (Grp 2 (Rep True 0 None Any)) Eol) (capture 1 y (adv 1 y)) else [])"
proof -
  let ?r = "Seq (Grp 1 (Cls True tokens)) (Seq (Grp 2 (Rep True 0 None Any)) Eol)"
  let ?k = "length (takeWhile (\<lambda>c. \<not> is_token c) s)"
  have "matches brace_re (init s) = matches (Seq (Rep True 0 None (Cls False tokens)) ?r) (init s)"
    unfolding rx_brace by (simp add: init_def)
  also have "\<dots> = matches ?r (adv (span (\<lambda>c. \<not> is_token c) (init s)) (init s))"
    using matches_run [of False tokens ?r "init s"]
    by (simp only: cls_token) (auto simp: step_adv cls_token)
  also have "span (\<lambda>c. \<not> is_token c) (init s) = ?k" by (simp add: init_def)
  also have "matches ?r (adv ?k (init s)) = (if ?k < length s
      then matches (Seq (Grp 2 (Rep True 0 None Any)) Eol)
        (capture 1 (adv ?k (init s)) (adv 1 (adv ?k (init s)))) else [])"
    using nth_length_takeWhile [of "\<lambda>c. \<not> is_token c" s]
    by (auto simp: step_adv init_def hd_drop_conv_nth cls_token)
  finally show ?thesis by (simp add: Let_def)
qed

lemma Match_brace_None: "\<forall>c \<in> set s. \<not> is_token c \<Longrightarrow> Match brace_re s = None"
  unfolding Match_def re_match_def run_def brace_re_matches
  by (subst takeWhile_eq_all_conv [THEN iffD2]) (auto simp: Let_def)

lemma Match_brace_Some:
  assumes "\<forall>c \<in> set h. \<not> is_token c" "is_token q" "newline \<notin> set t"
  obtains m where "Match brace_re (h @ q # t) = Some m" "gtext m 1 = [q]" "gtext m 2 = t"
proof -
  let ?x = "init (h @ q # t)"
  have h: "takeWhile (\<lambda>c. \<not> is_token c) (h @ q # t) = h"
    using assms(1,2) by (simp add: takeWhile_tail)
  let ?y = "adv (length h) ?x"
  let ?z = "capture 1 ?y (adv 1 ?y)"
  have "rest ?z = t" by (simp add: init_def)
  then have "matches brace_re ?x = [capture 2 ?z (adv (length t) ?z)]"
    using brace_re_matches [of "h @ q # t"] h matches_rest [of ?z 2] assms(3) by (simp add: Let_def)
  then show thesis
    by (intro that [of "mk_mobj ?x (capture 2 ?z (adv (length t) ?z))"])
      (simp_all add: Match_def re_match_def run_def mk_mobj_def gtext_def group_def init_def)
qed

text \<open>The height of the stack after a text, from its braces alone: a closing brace with nothing open
  is ignored.\<close>

fun brace_depth :: "string \<Rightarrow> nat \<Rightarrow> nat" where
  "brace_depth [] d = d"
| "brace_depth (c # cs) d =
     brace_depth cs (if c = CHR ''{'' then d + 1 else if c = CHR ''}'' then d - 1 else d)"

definition all_seen :: "NestingState \<Rightarrow> bool" where
  "all_seen s \<longleftrightarrow> list_all seen_open_brace (stack s)"

lemma brace_depth_plain: "\<forall>c \<in> set h. \<not> is_token c \<Longrightarrow> brace_depth (h @ t) d = brace_depth t d"
  by (induction h) auto

lemma brace_step_depth:
  assumes "all_seen s" "is_token q" "brace_step f c n line [q] s = Inr (rs, s')"
  shows "all_seen s' \<and> length (stack s') =
    (if q = CHR ''{'' then length (stack s) + 1 else if q = CHR ''}'' then length (stack s) - 1
     else length (stack s))"
proof -
  have "SeenOpenBrace s" using assms(1) by (cases "stack s") (auto simp: SeenOpenBrace_def all_seen_def)
  with assms show ?thesis
    by (cases "stack s")
      (auto simp: brace_step_def all_seen_def push_def pop_def bind_res_Inr_iff new_BlockInfo_def
        new_ExternCInfo_def split: if_splits)
qed

lemma brace_loop_depth:
  assumes "all_seen s" "newline \<notin> set line" "brace_loop f c n line s = Inr (rs, s')"
  shows "all_seen s' \<and> length (stack s') = brace_depth line (length (stack s))"
  using assms
proof (induction "length line" arbitrary: line s rs rule: less_induct)
  case less
  show ?case
  proof (cases "\<exists>c \<in> set line. is_token c")
    case False
    then have "Match brace_re line = None" by (intro Match_brace_None) auto
    with less.prems(3) have "s' = s" by (subst (asm) brace_loop.simps) simp
    with less.prems(1) brace_depth_plain [of line "[]"] False show ?thesis by auto
  next
    case True
    obtain h q t where line: "line = h @ q # t" "is_token q" "\<forall>c \<in> set h. \<not> is_token c"
      using split_list_first_prop [OF True] by blast
    then obtain m where m: "Match brace_re line = Some m" "gtext m 1 = [q]" "gtext m 2 = t"
      using Match_brace_Some [of h q t] less.prems(2) by auto
    with less.prems(3) obtain rs1 s1 rs2 where st: "brace_step f c n line [q] s = Inr (rs1, s1)"
      "brace_loop f c n t s1 = Inr (rs2, s')"
      by (subst (asm) brace_loop.simps) (auto simp: bind_res_Inr_iff split: sum.splits)
    from brace_step_depth [OF less.prems(1) line(2) st(1)] less.hyps [of t s1 rs2] st(2) less.prems(2) line(1)
    have "all_seen s' \<and> length (stack s') = brace_depth t (if q = CHR ''{'' then length (stack s) + 1
        else if q = CHR ''}'' then length (stack s) - 1 else length (stack s))" by auto
    then show ?thesis unfolding line(1) brace_depth_plain [OF line(3)] brace_depth.simps .
  qed
qed

section \<open>Preprocessor branches\<close>

abbreviation is_if :: "string \<Rightarrow> bool" where
  \<open>is_if line \<equiv> matched (Match (rx ''^`s*#`s*(if|ifdef|ifndef)`b'') line)\<close>

abbreviation is_else :: "string \<Rightarrow> bool" where
  \<open>is_else line \<equiv> \<not> is_if line \<and> matched (Match (rx ''^`s*#`s*(else|elif)`b'') line)\<close>

abbreviation is_endif :: "string \<Rightarrow> bool" where
  \<open>is_endif line \<equiv> \<not> is_if line \<and> \<not> matched (Match (rx ''^`s*#`s*(else|elif)`b'') line) \<and>
     matched (Match (rx ''^`s*#`s*endif`b'') line)\<close>

lemma UpdatePreprocessor_simps:
  "is_if line \<Longrightarrow> UpdatePreprocessor line s = s\<lparr>pp_stack :=
     \<lparr>stack_before_if = stack s, stack_before_else = [], seen_else = False\<rparr> # pp_stack s\<rparr>"
  "is_else line \<Longrightarrow> pp_stack s = p # ps \<Longrightarrow> UpdatePreprocessor line s =
     replace_stack (stack_before_if p) (s\<lparr>pp_stack := (if \<not> seen_else p
       then p\<lparr>seen_else := True, stack_before_else := stack s\<rparr> else p) # ps\<rparr>)"
  "is_endif line \<Longrightarrow> pp_stack s = p # ps \<Longrightarrow> UpdatePreprocessor line s =
     (if seen_else p then replace_stack (stack_before_else p) s else s)\<lparr>pp_stack := ps\<rparr>"
  by (simp_all add: UpdatePreprocessor_def Let_def)

lemma replace_stack_sel [simp]:
  "stack (replace_stack bs s) = bs" "pp_stack (replace_stack bs s) = pp_stack s"
  by (simp_all add: replace_stack_def)

lemma access_step_stack:
  "length (stack (snd (access_step f n line s))) = length (stack s)"
  "all_seen s \<Longrightarrow> all_seen (snd (access_step f n line s))"
  by (auto simp: access_step_def Let_def upd_top_def all_seen_def
      split: list.splits block_kind.splits option.splits)

section \<open>Properties\<close>

text \<open>C3: The nesting of blocks can be followed through every file: for any lines the
  preprocessing succeeds and \<open>Update\<close>, called for one line after the other, never raises, up to the
  last line. (Every loop of \<open>Update\<close> and the scan for template arguments end.)\<close>

theorem nesting_runs_to_end:
  "\<exists>c s rs. new_CleansedLines ls = Inr c \<and> reaches f c (length ls) s rs"
proof -
  obtain c where c: "new_CleansedLines ls = Inr c" using new_CleansedLines_total by blast
  from file_ok_new [OF c] reaches_exists [of c "length ls" f] c show ?thesis by auto
qed

text \<open>C5: In every state reached in a file, on the stack and on every stack saved at an \<open>#if\<close> or
  \<open>#else\<close>, each block started on a line already read, only classes and namespaces wait for an opening
  brace, and exactly these are marked for the check of namespace indentation; the reference
  \<open>previous_stack_top\<close> is not dangling.\<close>

theorem nesting_state_well_formed:
  assumes "new_CleansedLines ls = Inr c" "reaches f c n s rs"
  shows "(\<forall>b \<in> set (stack s @ concat (map stack_before_if (pp_stack s)) @
            concat (map stack_before_else (pp_stack s))).
      starting_linenum b \<le> n \<and> (seen_open_brace b \<or> is_class (kind b) \<or> is_namespace (kind b)) \<and>
      (check_namespace_indentation b \<longleftrightarrow> is_class (kind b) \<or> is_namespace (kind b))) \<and>
    (\<forall>i. previous_stack_top s = OnStack i \<longrightarrow> i < length (stack s))"
proof -
  have "all_blocks (wf_block n) s" "top_valid s"
    using reaches_invariant [OF assms(2)] file_ok_new [OF assms(1)] by auto
  then show ?thesis
    by (auto simp: all_blocks_def wf_block_def top_valid_def list_all_iff)
qed

abbreviation namespace_line :: CleansedLines where
  "namespace_line \<equiv> \<lparr>elided = [''namespace a''], lines = [''namespace a''], raw_lines = [''namespace a''],
     num_lines = 1, lines_without_raw_strings = [''namespace a'']\<rparr>"

theorem nesting_state_well_formed_witness:
  "\<exists>s rs. new_CleansedLines [''namespace a''] = Inr namespace_line \<and> reaches ''a.h'' namespace_line 1 s rs \<and>
     stack s = [new_NamespaceInfo (Some ''a'') 0] \<and> \<not> seen_open_brace (hd (stack s)) \<and>
     (is_class (kind (hd (stack s))) \<or> is_namespace (kind (hd (stack s))))"
proof -
  let ?s = "\<lparr>stack = [new_NamespaceInfo (Some ''a'') 0], previous_stack_top = NoTop, pp_stack = []\<rparr>"
  have c: "new_CleansedLines [''namespace a''] = Inr namespace_line" by code_simp
  have u: "Update ''a.h'' namespace_line 0 new_NestingState = Inr ([], ?s)" by code_simp
  have r: "reaches ''a.h'' namespace_line 1 ?s ([] @ [])"
    using reaches.line [OF reaches.start _ u] by (simp add: NumLines_def)
  have "\<not> seen_open_brace (hd (stack ?s))" by code_simp
  moreover from this have "is_class (kind (hd (stack ?s))) \<or> is_namespace (kind (hd (stack ?s)))"
    using nesting_state_well_formed [OF c r] by simp
  ultimately show ?thesis using c r by (intro exI [of _ ?s] exI [of _ "[] @ []"]) simp
qed

text \<open>C6: On a line without preprocessor directive, namespace or class declaration, met in a state
  in which no block waits for its brace, \<open>Update\<close> changes the height of the stack by the braces of the
  line and by nothing else; a closing brace with nothing open is ignored.\<close>

theorem Update_follows_braces:
  assumes "file_ok c" "n < NumLines c" "all_seen s" "newline \<notin> set (elided c ! n)"
    and "\<not> is_if (elided c ! n)" "\<not> is_else (elided c ! n)" "\<not> is_endif (elided c ! n)"
    and "\<not> matched (Match namespace_re (elided c ! n))" "\<not> matched (Match class_decl_re (elided c ! n))"
  shows "\<exists>rs s'. Update f c n s = Inr (rs, s') \<and> all_seen s' \<and>
    length (stack s') = brace_depth (elided c ! n) (length (stack s))"
proof (rule Update_cases [OF assms(1,2), where s = s and f = f])
  let ?l = "elided c ! n"
  let ?s0 = "s\<lparr>previous_stack_top := (if stack s = [] then NoTop else OnStack (length (stack s) - 1))\<rparr>"
  fix line1 s1 line2 s2 s3 rs1 s4 rs2 s5
  assume 1: "namespace_loop n ?l (upd_top (count_parentheses ?l) (UpdatePreprocessor ?l ?s0)) = (line1, s1)"
    and 2: "class_step c n line1 s1 = Inr (line2, s2)" and 3: "begin_step c n s2 = Inr s3"
    and 4: "access_step f n line2 s3 = (rs1, s4)" and 5: "brace_loop f c n line2 s4 = Inr (rs2, s5)"
    and 6: "Update f c n s = Inr (rs1 @ rs2, s5)"
  have "UpdatePreprocessor ?l ?s0 = ?s0"
    using assms(5-7) by (auto simp: UpdatePreprocessor_def)
  then have s1: "line1 = ?l" "s1 = upd_top (count_parentheses ?l) ?s0"
    using 1 assms(8) by (auto simp: namespace_loop.simps)
  then have "all_seen s1 \<and> length (stack s1) = length (stack s)"
    using assms(3) by (cases "stack s") (auto simp: all_seen_def upd_top_def frame_simps)
  moreover have "line2 = ?l" "s2 = s1"
    using 2 assms(9) s1 by (auto simp: class_step_def)
  moreover have "s3 = s2"
    using 3 calculation by (cases "stack s2") (auto simp: begin_step_def all_seen_def)
  ultimately have "all_seen s4" "length (stack s4) = length (stack s)" "line2 = ?l"
    using 4 access_step_stack [where f = f and n = n and line = line2 and s = s3] by auto
  with brace_loop_depth [where s = s4 and line = line2, OF _ _ 5] 6 assms(4) show ?thesis by auto
qed

abbreviation brace_line :: CleansedLines where
  "brace_line \<equiv> \<lparr>elided = [''} if (x) { f(); {''], lines = [''} if (x) { f(); {''],
     raw_lines = [''} if (x) { f(); {''], num_lines = 1,
     lines_without_raw_strings = [''} if (x) { f(); {'']\<rparr>"

theorem Update_follows_braces_witness:
  "\<exists>rs s'. Update ''a.cc'' brace_line 0 new_NestingState = Inr (rs, s') \<and> all_seen s' \<and> length (stack s') = 2"
proof -
  let ?l = "''} if (x) { f(); {''"
  have "newline \<notin> set ?l" "\<not> is_if ?l" "\<not> is_else ?l" "\<not> is_endif ?l"
    "\<not> matched (Match namespace_re ?l)" "\<not> matched (Match class_decl_re ?l)" by code_simp+
  moreover have "elided brace_line ! 0 = ?l" by simp
  moreover have "file_ok brace_line" "0 < NumLines brace_line" "all_seen new_NestingState"
    by (simp_all add: file_ok_def lines_ok_def NumLines_def all_seen_def new_NestingState_def)
  ultimately have "\<exists>rs s'. Update ''a.cc'' brace_line 0 new_NestingState = Inr (rs, s') \<and> all_seen s' \<and>
      length (stack s') = brace_depth ?l (length (stack new_NestingState))"
    using Update_follows_braces [of brace_line 0 new_NestingState "''a.cc''"] by simp
  then show ?thesis by (simp add: new_NestingState_def numeral_2_eq_2)
qed

text \<open>C7: The branches of a conditional are seen from the same nesting: at \<open>#else\<close> the stack is again
  what it was at the \<open>#if\<close>, at \<open>#endif\<close> it is what the first branch left, and the stack of conditionals
  is back where it was, provided the lines in between return that stack as they found it.\<close>

theorem preprocessor_branches:
  assumes "is_if l1" "is_else l2" "is_endif l3"
    and "pp_stack s2 = pp_stack (UpdatePreprocessor l1 s1)"
    and "pp_stack s3 = pp_stack (UpdatePreprocessor l2 s2)"
  shows "stack (UpdatePreprocessor l1 s1) = stack s1 \<and>
    stack (UpdatePreprocessor l2 s2) = stack s1 \<and>
    stack (UpdatePreprocessor l3 s3) = stack s2 \<and>
    pp_stack (UpdatePreprocessor l3 s3) = pp_stack s1"
  using assms(4,5)
  by (simp add: UpdatePreprocessor_simps(1) [OF assms(1)] UpdatePreprocessor_simps(2) [OF assms(2)]
      UpdatePreprocessor_simps(3) [OF assms(3)])

theorem preprocessor_branches_witness:
  "stack (UpdatePreprocessor ''#endif'' (push (new_BlockInfo 3 True) (UpdatePreprocessor ''# else''
      (push (new_BlockInfo 1 True) (UpdatePreprocessor ''#ifdef X'' new_NestingState))))) = [new_BlockInfo 1 True]"
proof -
  let ?s2 = "push (new_BlockInfo 1 True) (UpdatePreprocessor ''#ifdef X'' new_NestingState)"
  let ?s3 = "push (new_BlockInfo 3 True) (UpdatePreprocessor ''# else'' ?s2)"
  have l: "is_if ''#ifdef X''" "is_else ''# else''" "is_endif ''#endif''" by code_simp+
  have p: "pp_stack ?s2 = pp_stack (UpdatePreprocessor ''#ifdef X'' new_NestingState)"
    "pp_stack ?s3 = pp_stack (UpdatePreprocessor ''# else'' ?s2)" by (simp_all add: push_def)
  have "stack ?s2 = [new_BlockInfo 1 True]"
    by (simp add: push_def UpdatePreprocessor_simps(1) [OF l(1)] new_NestingState_def)
  with preprocessor_branches [OF l p] show ?thesis by simp
qed

end
