(* ===== verification/File_Path.thy ===== *)
theory File_Path
  imports Cleanse_Laws
begin

text \<open>
  The class \<open>FileInfo\<close> and the functions that turn a file name into a header guard. What they use
  of \<open>os.path\<close> is modelled as CPython implements it on POSIX systems; the file system itself is a
  parameter, a record with the test \<open>os.path.exists\<close> and the current directory. The climb to the
  top of an SVN checkout is a loop without a test for the root directory, so it is a partial
  function: \<open>None\<close> is a run that does not end.
\<close>

section \<open>Functions of \<open>os.path\<close>\<close>

definition path_split :: "string \<Rightarrow> string \<times> string" where
  "path_split p =
     (let i = (case rfind_char CHR ''/'' p of None \<Rightarrow> 0 | Some k \<Rightarrow> k + 1);
          head = take i p; tail = drop i p
      in (if head \<noteq> [] \<and> head \<noteq> replicate (length head) CHR ''/''
          then rev (dropWhile (\<lambda>c. c = CHR ''/'') (rev head)) else head, tail))"

definition dirname :: "string \<Rightarrow> string" where
  "dirname p = fst (path_split p)"

definition splitext :: "string \<Rightarrow> string \<times> string" where
  "splitext p =
     (let sep = (case rfind_char CHR ''/'' p of None \<Rightarrow> 0 | Some k \<Rightarrow> k + 1)
      in case rfind_char CHR ''.'' p of
           None \<Rightarrow> (p, [])
         | Some dot \<Rightarrow>
             if sep \<le> dot \<and> list_ex (\<lambda>c. c \<noteq> CHR ''.'') (slice sep dot p)
             then (take dot p, drop dot p) else (p, []))"

definition path_join :: "string \<Rightarrow> string \<Rightarrow> string" where
  "path_join a b =
     (if startswith b ''/'' then b
      else if a = [] \<or> endswith a ''/'' then a @ b
      else a @ ''/'' @ b)"

definition path_join_all :: "string list \<Rightarrow> string" where
  "path_join_all ps = foldl path_join (hd ps) (tl ps)"

fun norm_comps :: "bool \<Rightarrow> string list \<Rightarrow> string list \<Rightarrow> string list" where
  "norm_comps absolute [] new = new"
| "norm_comps absolute (cmp # comps) new =
     norm_comps absolute comps
       (if cmp = [] \<or> cmp = ''.'' then new
        else if cmp \<noteq> ''..'' \<or> (\<not> absolute \<and> new = []) \<or> (new \<noteq> [] \<and> last new = ''..'')
        then new @ [cmp]
        else butlast new)"

definition normpath :: "string \<Rightarrow> string" where
  "normpath p =
     (if p = [] then ''.''
      else let slashes = (if startswith p ''//'' \<and> \<not> startswith p ''///'' then ''//''
                          else if startswith p ''/'' then ''/'' else []);
               q = slashes @ join ''/'' (norm_comps (slashes \<noteq> []) (split_on CHR ''/'' p) [])
           in if q = [] then ''.'' else q)"

record fs =
  fs_exists :: "string \<Rightarrow> bool"
  fs_cwd :: string

definition abspath :: "fs \<Rightarrow> string \<Rightarrow> string" where
  "abspath f p = normpath (if startswith p ''/'' then p else path_join (fs_cwd f) p)"

fun common_prefix :: "'a list \<Rightarrow> 'a list \<Rightarrow> 'a list" where
  "common_prefix (x # xs) (y # ys) = (if x = y then x # common_prefix xs ys else [])"
| "common_prefix xs ys = []"

definition relpath :: "fs \<Rightarrow> string \<Rightarrow> string \<Rightarrow> string" where
  "relpath f p start =
     (let start_list = filter (\<lambda>x. x \<noteq> []) (split_on CHR ''/'' (abspath f start));
          path_list = filter (\<lambda>x. x \<noteq> []) (split_on CHR ''/'' (abspath f p));
          i = length (common_prefix start_list path_list);
          rel_list = replicate (length start_list - i) ''..'' @ drop i path_list
      in if rel_list = [] then ''.'' else path_join_all rel_list)"

lemma path_split_head_length: "length (dirname p) \<le> length p"
  by (auto simp: dirname_def path_split_def Let_def
      intro: order_trans [OF length_dropWhile_le])

lemma dirname_prefix: "prefix (dirname p) p"
proof -
  let ?i = "case rfind_char CHR ''/'' p of None \<Rightarrow> 0 | Some k \<Rightarrow> k + 1"
  have "prefix (rev (dropWhile P (rev xs))) xs" for P and xs :: string
    by (metis prefixI rev_append rev_rev_ident takeWhile_dropWhile_id)
  then have "prefix (dirname p) (take ?i p)"
    by (simp add: dirname_def path_split_def Let_def)
  then show ?thesis using take_is_prefix prefix_order.trans by blast
qed

lemma dirname_shorter: "dirname p \<noteq> p \<Longrightarrow> length (dirname p) < length p"
  using dirname_prefix [of p] by (metis le_neq_implies_less not_equal_is_parallel parallelD1
      path_split_head_length prefix_order.eq_refl)

lemma path_split_shorter: "(head, tail) = path_split p \<Longrightarrow> head \<noteq> p \<Longrightarrow> length head < length p"
  by (metis dirname_def dirname_shorter fst_conv)

section \<open>\<open>FileInfo\<close>\<close>

definition FullName :: "fs \<Rightarrow> string \<Rightarrow> string" where
  "FullName f filename = replace [backslash] ''/'' (abspath f filename)"

text \<open>The loop that looks for the directory of \<open>--repository\<close>.\<close>

function repository_loop :: "fs \<Rightarrow> string \<Rightarrow> string \<Rightarrow> string \<Rightarrow> string option" where
  "repository_loop f repo fullname root_dir =
     (if fs_exists f root_dir
      then if root_dir = repo then Some (replace [backslash] ''/'' (relpath f fullname root_dir))
           else let one_up_dir = dirname root_dir
                in if one_up_dir = root_dir then None
                   else repository_loop f repo fullname one_up_dir
      else None)"
  by pat_completeness auto
termination
  by (relation "measure (\<lambda>(f, repo, fullname, root_dir). length root_dir)") (auto dest: dirname_shorter)

declare repository_loop.simps [simp del]

partial_function (option) svn_loop :: "fs \<Rightarrow> string \<Rightarrow> string \<Rightarrow> string option" where
  "svn_loop f root_dir one_up_dir =
     (if fs_exists f (path_join one_up_dir ''.svn'')
      then svn_loop f (dirname root_dir) (dirname one_up_dir)
      else Some root_dir)"

declare svn_loop.simps [code]

definition has_vcs :: "fs \<Rightarrow> string \<Rightarrow> bool" where
  "has_vcs f dir \<longleftrightarrow> fs_exists f (path_join dir ''.git'') \<or> fs_exists f (path_join dir ''.hg'') \<or>
     fs_exists f (path_join dir ''.svn'')"

function vcs_loop :: "fs \<Rightarrow> string \<Rightarrow> string \<Rightarrow> string" where
  "vcs_loop f root_dir current_dir =
     (if current_dir \<noteq> dirname current_dir
      then vcs_loop f (if has_vcs f current_dir then current_dir else root_dir) (dirname current_dir)
      else root_dir)"
  by pat_completeness auto
termination
  by (relation "measure (\<lambda>(f, root_dir, current_dir). length current_dir)")
    (auto dest: dirname_shorter [OF not_sym])

declare vcs_loop.simps [simp del]

definition RepositoryName :: "fs \<Rightarrow> string option \<Rightarrow> string \<Rightarrow> string option" where
  "RepositoryName f repo filename =
     (let fullname = FullName f filename in
      if fs_exists f fullname then
        let project_dir = dirname fullname in
        case (case repo of
                None \<Rightarrow> None
              | Some r \<Rightarrow> if r = [] then None
                  else repository_loop f (FullName f r) fullname project_dir) of
          Some name \<Rightarrow> Some name
        | None \<Rightarrow>
          if fs_exists f (path_join project_dir ''.svn'') then
            map_option (\<lambda>root_dir. drop (length (common_prefix root_dir project_dir) + 1) fullname)
              (svn_loop f project_dir (dirname project_dir))
          else
            let root_dir = vcs_loop f project_dir project_dir in
            if has_vcs f root_dir
            then Some (drop (length (common_prefix root_dir project_dir) + 1) fullname)
            else Some fullname
      else Some fullname)"

definition Split :: "fs \<Rightarrow> string option \<Rightarrow> string \<Rightarrow> (string \<times> string \<times> string) option" where
  "Split f repo filename =
     map_option (\<lambda>googlename. case path_split googlename of
         (project, last_part) \<Rightarrow> (project, splitext last_part)) (RepositoryName f repo filename)"

definition BaseName :: "fs \<Rightarrow> string option \<Rightarrow> string \<Rightarrow> string option" where
  "BaseName f repo filename = map_option (fst \<circ> snd) (Split f repo filename)"

definition Extension :: "fs \<Rightarrow> string option \<Rightarrow> string \<Rightarrow> string option" where
  "Extension f repo filename = map_option (snd \<circ> snd) (Split f repo filename)"

definition NoExtension :: "fs \<Rightarrow> string option \<Rightarrow> string \<Rightarrow> string option" where
  "NoExtension f repo filename =
     map_option (\<lambda>(dir, base, ext). join ''/'' [dir, base]) (Split f repo filename)"

definition IsSource :: "fs \<Rightarrow> string \<Rightarrow> world \<Rightarrow> bool option" where
  "IsSource f filename w =
     map_option (\<lambda>e. IsSourceExtension (drop 1 e) w) (Extension f (repository w) filename)"

section \<open>Header guards\<close>

function path_split_loop :: "string \<Rightarrow> string list \<Rightarrow> string list" where
  "path_split_loop path lst =
     (let (head, tail) = path_split path
      in if head = path then lst @ [head]
         else if tail = path then lst @ [tail]
         else path_split_loop head (lst @ [tail]))"
  by pat_completeness auto
termination
  by (relation "measure (\<lambda>(path, lst). length path)") (auto dest: path_split_shorter)

declare path_split_loop.simps [simp del]

definition PathSplitToList :: "string \<Rightarrow> string list" where
  "PathSplitToList path = rev (path_split_loop path [])"

definition StripListPrefix :: "string list \<Rightarrow> string list \<Rightarrow> string list option" where
  "StripListPrefix lst pre = (if take (length pre) lst \<noteq> pre then None else Some (drop (length pre) lst))"

definition FixupPathFromRoot :: "fs \<Rightarrow> string option \<Rightarrow> string \<Rightarrow> string \<Rightarrow> string" where
  "FixupPathFromRoot f root filename file_path_from_root =
     (case root of
        None \<Rightarrow> file_path_from_root
      | Some r \<Rightarrow>
        if r = [] then file_path_from_root
        else case StripListPrefix (PathSplitToList file_path_from_root) (PathSplitToList r) of
               Some (p # ps) \<Rightarrow> path_join_all (p # ps)
             | _ \<Rightarrow>
               (case StripListPrefix (PathSplitToList (FullName f filename))
                       (PathSplitToList (abspath f r)) of
                  Some (p # ps) \<Rightarrow> path_join_all (p # ps)
                | _ \<Rightarrow> file_path_from_root))"

definition guard_text :: "string \<Rightarrow> string" where
  \<open>guard_text path = upper (re_sub (rx ''[^a-zA-Z0-9]'') (\<lambda>_. ''_'') path) @ ''_''\<close>

definition GetHeaderGuardCPPVariable ::
  "fs \<Rightarrow> string option \<Rightarrow> string option \<Rightarrow> string \<Rightarrow> string option" where
  \<open>GetHeaderGuardCPPVariable f repo root filename =
     (let filename = re_sub (rx ''_flymake`.h$'') (\<lambda>_. ''.h'') filename;
          filename = re_sub (rx ''/`.flymake/([^/]*)$'') (\<lambda>m. ''/'' @ gtext m 1) filename;
          filename = replace ''c++'' ''cpp'' (replace ''C++'' ''cpp'' filename)
      in map_option (\<lambda>file_path_from_root.
           guard_text (FixupPathFromRoot f root filename file_path_from_root))
           (RepositoryName f repo filename))\<close>

section \<open>Directories above a file\<close>

function ancestors :: "string \<Rightarrow> string list" where
  "ancestors d = (if dirname d = d then [d] else d # ancestors (dirname d))"
  by pat_completeness auto
termination
  by (relation "measure length") (auto dest: dirname_shorter)

declare ancestors.simps [simp del]

lemma ancestors_prefix: "a \<in> set (ancestors d) \<Longrightarrow> prefix a d"
proof (induction d rule: ancestors.induct)
  case (1 d)
  show ?case
  proof (cases "a = d")
    case False
    with "1.prems" have "dirname d \<noteq> d" "a \<in> set (ancestors (dirname d))"
      by (subst (asm) ancestors.simps; auto split: if_splits)+
    from "1.IH" [OF this] show ?thesis
      using dirname_prefix prefix_order.trans by blast
  qed simp
qed

text \<open>The search for the root of a git, hg or svn checkout climbs to the top: the directory
  furthest up wins, the root directory itself not being asked.\<close>

lemma ancestors_nonempty: "ancestors d \<noteq> []"
  by (subst ancestors.simps) simp

lemma vcs_loop_topmost:
  "vcs_loop f root d = last (root # filter (has_vcs f) (butlast (ancestors d)))"
proof (induction f root d rule: vcs_loop.induct)
  case (1 f root d)
  show ?case
  proof (cases "dirname d = d")
    case True
    then show ?thesis by (subst vcs_loop.simps, subst ancestors.simps) simp
  next
    case False
    then have a: "butlast (ancestors d) = d # butlast (ancestors (dirname d))"
      using ancestors_nonempty [of "dirname d"] by (subst ancestors.simps) simp
    from False 1 have "vcs_loop f root d =
        last ((if has_vcs f d then d else root) # filter (has_vcs f) (butlast (ancestors (dirname d))))"
      by (subst vcs_loop.simps) auto
    then show ?thesis by (simp add: a)
  qed
qed

lemma common_prefix_prefix: "prefix a b \<Longrightarrow> common_prefix a b = a"
  by (induction a b rule: common_prefix.induct) auto

text \<open>The climb along \<open>.svn\<close> directories ends unless it reaches a directory that is its own parent
  and has one.\<close>

lemma svn_loop_returns:
  assumes "\<And>d. dirname d = d \<Longrightarrow> \<not> fs_exists f (path_join d ''.svn'')"
  shows "\<exists>r. svn_loop f root up = Some r"
proof (induction "length up" arbitrary: root up rule: less_induct)
  case less
  show ?case
  proof (cases "fs_exists f (path_join up ''.svn'')")
    case False
    then show ?thesis by (subst svn_loop.simps) simp
  next
    case True
    with assms have "length (dirname up) < length up" using dirname_shorter by blast
    from less [OF this] True show ?thesis by (subst svn_loop.simps) simp
  qed
qed

lemma svn_loop_diverges:
  assumes "fs_exists f (path_join d ''.svn'')" "dirname d = d"
  shows "svn_loop f root d = None"
proof -
  have "svn_loop f' root' up = Some r \<Longrightarrow> f' = f \<longrightarrow> up \<noteq> d" for f' root' up r
    by (erule svn_loop.raw_induct [of "\<lambda>f' root' up r. f' = f \<longrightarrow> up \<noteq> d", rotated])
      (use assms in \<open>auto split: if_splits\<close>)
  then show ?thesis by (metis not_None_eq)
qed

text \<open>So it runs forever exactly if every directory on the way up has a \<open>.svn\<close>.\<close>

lemma svn_loop_None:
  "svn_loop f root up = None \<longleftrightarrow> (\<forall>d\<in>set (ancestors up). fs_exists f (path_join d ''.svn''))"
proof (induction up arbitrary: root rule: ancestors.induct)
  case (1 up)
  consider "\<not> fs_exists f (path_join up ''.svn'')"
    | "fs_exists f (path_join up ''.svn'')" "dirname up = up"
    | "fs_exists f (path_join up ''.svn'')" "dirname up \<noteq> up" by blast
  then show ?case
  proof cases
    case 1
    then show ?thesis by (subst svn_loop.simps, subst ancestors.simps) simp
  next
    case 2
    then show ?thesis by (simp add: svn_loop_diverges ancestors.simps [of up])
  next
    case 3
    with "1" show ?thesis by (subst svn_loop.simps, subst ancestors.simps) simp
  qed
qed

section \<open>Components of a path\<close>

lemma rfind_char_None: "rfind_char c s = None \<longleftrightarrow> c \<notin> set s"
  by (induction s) (auto split: option.splits)

lemma rfind_char_Some:
  "rfind_char c s = Some k \<Longrightarrow> \<exists>u v. s = u @ c # v \<and> k = length u \<and> c \<notin> set v"
proof (induction s arbitrary: k)
  case Nil
  then show ?case by simp
next
  case (Cons d s)
  show ?case
  proof (cases "rfind_char c s")
    case None
    with Cons.prems show ?thesis
      by (intro exI [of _ "[]"] exI [of _ s]) (auto simp: rfind_char_None split: if_splits)
  next
    case (Some j)
    with Cons.IH obtain u v where "s = u @ c # v" "j = length u" "c \<notin> set v" by blast
    with Some Cons.prems show ?thesis by (intro exI [of _ "d # u"] exI [of _ v]) auto
  qed
qed

lemma rfind_char_hit: "c \<notin> set v \<Longrightarrow> rfind_char c (u @ c # v) = Some (length u)"
proof (induction u)
  case Nil
  then show ?case using rfind_char_None [of c v] by simp
qed simp

lemma path_split_loop_acc: "path_split_loop p lst = lst @ path_split_loop p []"
proof (induction "length p" arbitrary: p lst rule: less_induct)
  case less
  obtain h t where ht: "path_split p = (h, t)" by fastforce
  show ?case
  proof (cases "h = p \<or> t = p")
    case True
    with ht show ?thesis by (subst (1 2) path_split_loop.simps) auto
  next
    case False
    then have "length h < length p" using ht path_split_shorter [of h t p] by simp
    from less [OF this, of "lst @ [t]"] less [OF this, of "[t]"] False ht show ?thesis
      by (subst (1 2) path_split_loop.simps) auto
  qed
qed

lemma PathSplitToList_simps:
  "path_split p = (h, t) \<Longrightarrow> PathSplitToList p =
     (if h = p \<or> t = p then [p] else PathSplitToList h @ [t])"
  unfolding PathSplitToList_def
  by (subst path_split_loop.simps) (auto simp: path_split_loop_acc [of h "[t]"])

lemma PathSplitToList_nonempty: "PathSplitToList p \<noteq> []"
proof -
  obtain h t where "path_split p = (h, t)" by fastforce
  then show ?thesis by (simp add: PathSplitToList_simps)
qed

lemma find_idx_drop: "find_idx w s = None \<Longrightarrow> s = u @ w @ v \<Longrightarrow> False"
  using find_idx_None_iff [of w s] by (auto simp: prefix_def dest!: spec [of _ "length u"])

lemma path_split_join:
  assumes "find_idx ''//'' p = None" "path_split p = (h, t)" "h \<noteq> p" "t \<noteq> p"
  shows "path_join h t = p \<and> prefix h p"
proof (cases "rfind_char CHR ''/'' p")
  case None
  with assms show ?thesis by (simp add: path_split_def)
next
  case (Some k)
  then obtain u v where p: "p = u @ CHR ''/'' # v" "k = length u" "CHR ''/'' \<notin> set v"
    using rfind_char_Some by blast
  have v: "\<not> prefix ''/'' v" using p(3) by (auto simp: prefix_def)
  have t: "t = v" using assms(2) Some p by (auto simp: path_split_def Let_def)
  show ?thesis
  proof (cases "u = []")
    case True
    with assms(2,3) Some p v show ?thesis
      by (auto simp: path_split_def path_join_def suffix_def)
  next
    case False
    then obtain u' c where u: "u = u' @ [c]" by (cases u rule: rev_cases) auto
    have "c \<noteq> CHR ''/''"
      using find_idx_drop [OF assms(1), of u' v] p(1) u by auto
    then have "h = u"
      using assms(2) Some p u by (auto simp: path_split_def replicate_append_same [symmetric] Let_def
          dest: arg_cong [of _ _ last])
    with t p v u \<open>c \<noteq> CHR ''/''\<close> show ?thesis by (auto simp: path_join_def suffix_def)
  qed
qed

lemma path_join_all_snoc: "xs \<noteq> [] \<Longrightarrow> path_join_all (xs @ [t]) = path_join (path_join_all xs) t"
  by (cases xs) (auto simp: path_join_all_def)

lemma path_join_all_split: "find_idx ''//'' p = None \<Longrightarrow> path_join_all (PathSplitToList p) = p"
proof (induction "length p" arbitrary: p rule: less_induct)
  case less
  obtain h t where ht: "path_split p = (h, t)" by fastforce
  show ?case
  proof (cases "h = p \<or> t = p")
    case True
    with ht show ?thesis by (simp add: PathSplitToList_simps path_join_all_def)
  next
    case False
    with path_split_join [OF less.prems ht] have "path_join h t = p" "prefix h p" by auto
    moreover have "length h < length p" using False ht path_split_shorter [of h t p] by simp
    moreover have "find_idx ''//'' h = None"
      using less.prems \<open>prefix h p\<close> find_idx_prefix by (auto simp: prefix_def)
    ultimately show ?thesis
      using False less.hyps [of h]
      by (simp add: PathSplitToList_simps [OF ht] path_join_all_snoc PathSplitToList_nonempty)
  qed
qed

section \<open>The text of a header guard\<close>

lemma rx_alnum [rx_code]:
  \<open>rx ''[^a-zA-Z0-9]'' = Cls False [CRange CHR ''a'' CHR ''z'', CRange CHR ''A'' CHR ''Z'',
     CRange CHR ''0'' CHR ''9'']\<close>
  by code_simp

lemma sub_from_class:
  "sub_from (Cls p items) (\<lambda>_. u) must (MS q i s []) =
     concat (map (\<lambda>c. if cls_has p items c then u else [c]) s)"
proof (induction s arbitrary: q i must)
  case Nil
  show ?case by (subst sub_from.simps) (simp add: run_adv_def)
next
  case (Cons c s)
  show ?case
    by (subst sub_from.simps) (auto simp: run_adv_def set_grp_def Cons.IH)
qed

lemma re_sub_class:
  "re_sub (Cls p items) (\<lambda>_. u) s = concat (map (\<lambda>c. if cls_has p items c then u else [c]) s)"
  by (simp add: re_sub_def init_def sub_from_class)

definition guard_char :: "char \<Rightarrow> char" where
  "guard_char c = (if is_alpha_ascii c \<or> is_digit c then upper_char c else CHR ''_'')"

lemma upper_underscore: "upper_char CHR ''_'' = CHR ''_''"
  by code_simp

lemma guard_text_chars: "guard_text p = map guard_char p @ ''_''"
proof -
  have "cls_has False [CRange CHR ''a'' CHR ''z'', CRange CHR ''A'' CHR ''Z'',
      CRange CHR ''0'' CHR ''9''] c \<longleftrightarrow> \<not> (is_alpha_ascii c \<or> is_digit c)" for c
    by (simp add: cls_has_def is_alpha_ascii_def is_digit_def)
  then have "re_sub (rx ''[^a-zA-Z0-9]'') (\<lambda>_. ''_'') p =
      concat (map (\<lambda>c. if is_alpha_ascii c \<or> is_digit c then [c] else ''_'') p)"
    unfolding rx_alnum re_sub_class by (intro arg_cong [of _ _ concat] map_cong) auto
  moreover have "upper (concat (map (\<lambda>c. if is_alpha_ascii c \<or> is_digit c then [c] else ''_'') p)) =
      map guard_char p"
    by (induction p) (auto simp: upper_def guard_char_def upper_underscore)
  ultimately show ?thesis by (simp add: guard_text_def)
qed

definition macro_char :: "char \<Rightarrow> bool" where
  "macro_char c \<longleftrightarrow> in_range CHR ''A'' CHR ''Z'' c \<or> is_digit c \<or> c = CHR ''_''"

lemma guard_char_macro: "macro_char (guard_char c)"
proof (cases "in_range CHR ''a'' CHR ''z'' c")
  case True
  then have "in_range CHR ''A'' CHR ''Z'' (upper_char c)"
    by (auto simp: upper_char_def in_range_def)
  with True show ?thesis by (simp add: guard_char_def macro_char_def is_alpha_ascii_def)
next
  case False
  then show ?thesis by (auto simp: guard_char_def macro_char_def is_alpha_ascii_def upper_char_def)
qed

section \<open>Properties\<close>

text \<open>C34: The header guard suggested for a file is a macro name: only upper-case letters, digits
  and underscores, one for each character of the path it is made from, and an underscore at the
  end.\<close>

theorem header_guard_is_macro_name:
  assumes "GetHeaderGuardCPPVariable f repo root filename = Some g"
  shows "list_all macro_char g \<and>
    (\<exists>path. g = map (\<lambda>c. if is_alpha_ascii c \<or> is_digit c then upper_char c else CHR ''_'') path @ ''_'')"
proof -
  from assms obtain path where "g = map guard_char path @ ''_''"
    by (auto simp: GetHeaderGuardCPPVariable_def Let_def guard_text_chars)
  moreover from this have "list_all macro_char g"
    by (auto simp: list_all_iff guard_char_macro) (simp add: macro_char_def)
  ultimately show ?thesis unfolding guard_char_def by blast
qed

abbreviation sample_fs :: fs where
  "sample_fs \<equiv> \<lparr>fs_exists = (\<lambda>p. p \<in> set [''/w/turtle/src/core/poller.h'', ''/w/turtle/.git'']),
     fs_cwd = ''/w/turtle''\<rparr>"

theorem header_guard_is_macro_name_witness:
  "GetHeaderGuardCPPVariable sample_fs None (Some ''src'') ''src/core/poller.h'' = Some ''CORE_POLLER_H_'' \<and>
   list_all macro_char ''CORE_POLLER_H_''"
proof -
  have g: "GetHeaderGuardCPPVariable sample_fs None (Some ''src'') ''src/core/poller.h'' =
      Some ''CORE_POLLER_H_''" by code_simp
  from header_guard_is_macro_name [OF g] g show ?thesis by simp
qed

text \<open>C18: For an existing file with no \<open>.svn\<close> beside it and no \<open>--repository\<close>, the repository name
  is the path below the topmost directory above it (the root directory excepted) that holds \<open>.git\<close>,
  \<open>.hg\<close> or \<open>.svn\<close>, and the full path when there is none.\<close>

theorem RepositoryName_below_checkout:
  assumes "fs_exists f (FullName f filename)" "dirname (FullName f filename) = dir"
    and "\<not> fs_exists f (path_join dir ''.svn'')" "dirname dir \<noteq> dir"
  shows "RepositoryName f None filename =
    Some (case filter (has_vcs f) (butlast (ancestors dir)) of
            [] \<Rightarrow> FullName f filename
          | r # rs \<Rightarrow> drop (length (last (r # rs)) + 1) (FullName f filename))"
proof -
  let ?rs = "filter (has_vcs f) (butlast (ancestors dir))"
  have name: "RepositoryName f None filename = Some (if has_vcs f (last (dir # ?rs))
      then drop (length (common_prefix (last (dir # ?rs)) dir) + 1) (FullName f filename)
      else FullName f filename)"
    using assms(1-3) by (simp add: RepositoryName_def Let_def vcs_loop_topmost)
  show ?thesis
  proof (cases ?rs)
    case Nil
    have "dir \<in> set (butlast (ancestors dir))"
      using assms(4) ancestors_nonempty [of "dirname dir"] by (subst ancestors.simps) simp
    with Nil have "\<not> has_vcs f dir" by (auto simp: filter_empty_conv)
    with name Nil show ?thesis by simp
  next
    case (Cons r rs)
    have "last (r # rs) \<in> set ?rs" unfolding Cons by (rule last_in_set) simp
    then have "has_vcs f (last (r # rs))" "last (r # rs) \<in> set (ancestors dir)"
      by (auto dest: in_set_butlastD)
    with name Cons ancestors_prefix [of "last (r # rs)" dir] show ?thesis
      by (simp add: common_prefix_prefix)
  qed
qed

theorem RepositoryName_below_checkout_witness:
  "RepositoryName sample_fs None ''src/core/poller.h'' = Some ''src/core/poller.h''"
proof -
  have c: "fs_exists sample_fs (FullName sample_fs ''src/core/poller.h'')"
    "dirname (FullName sample_fs ''src/core/poller.h'') = ''/w/turtle/src/core''"
    "\<not> fs_exists sample_fs (path_join ''/w/turtle/src/core'' ''.svn'')"
    "dirname ''/w/turtle/src/core'' \<noteq> ''/w/turtle/src/core''" by code_simp+
  have "filter (has_vcs sample_fs) (butlast (ancestors ''/w/turtle/src/core'')) = [''/w/turtle'']"
    "FullName sample_fs ''src/core/poller.h'' = ''/w/turtle/src/core/poller.h''" by code_simp+
  with RepositoryName_below_checkout [OF c] show ?thesis by simp
qed

text \<open>C19: The search for the repository name ends, whatever exists in the file system, provided no
  directory that is its own parent (such as the root directory) contains a \<open>.svn\<close>.\<close>

theorem RepositoryName_returns:
  assumes "\<And>d. dirname d = d \<Longrightarrow> \<not> fs_exists f (path_join d ''.svn'')"
  shows "\<exists>name. RepositoryName f repo filename = Some name"
proof -
  have "\<exists>r. svn_loop f root up = Some r" for root up
    using assms by (rule svn_loop_returns)
  then obtain r where "svn_loop f (dirname (FullName f filename)) (dirname (dirname (FullName f filename))) = Some r"
    by blast
  then show ?thesis
    by (auto simp: RepositoryName_def Let_def split: option.split)
qed

theorem RepositoryName_returns_witness:
  "\<exists>name. RepositoryName sample_fs (Some ''src'') ''src/core/poller.h'' = Some name"
proof (rule RepositoryName_returns)
  fix d :: string
  show "\<not> fs_exists sample_fs (path_join d ''.svn'')"
  proof
    assume "fs_exists sample_fs (path_join d ''.svn'')"
    moreover have "suffix ''.svn'' (path_join d ''.svn'')"
      by (auto simp: path_join_def suffix_def)
    ultimately show False by (auto simp: suffix_def append_eq_Cons_conv)
  qed
qed

text \<open>C20: That proviso cannot be dropped. Without \<open>--repository\<close> the search runs forever exactly for
  an existing file whose directory and all directories above it, up to the directory that is its own
  parent, contain a \<open>.svn\<close>: the climb then stays at the top.\<close>

theorem RepositoryName_diverges:
  "RepositoryName f None filename = None \<longleftrightarrow>
     fs_exists f (FullName f filename) \<and>
     (\<forall>d\<in>set (ancestors (dirname (FullName f filename))). fs_exists f (path_join d ''.svn''))"
proof -
  let ?dir = "dirname (FullName f filename)"
  have "RepositoryName f None filename = None \<longleftrightarrow> fs_exists f (FullName f filename) \<and>
      fs_exists f (path_join ?dir ''.svn'') \<and> svn_loop f ?dir (dirname ?dir) = None"
    by (simp add: RepositoryName_def Let_def)
  moreover have "(fs_exists f (path_join ?dir ''.svn'') \<and>
      (\<forall>d\<in>set (ancestors (dirname ?dir)). fs_exists f (path_join d ''.svn''))) \<longleftrightarrow>
      (\<forall>d\<in>set (ancestors ?dir). fs_exists f (path_join d ''.svn''))"
    by (cases "dirname ?dir = ?dir") (simp_all add: ancestors.simps [of ?dir])
  ultimately show ?thesis by (simp add: svn_loop_None)
qed

theorem RepositoryName_diverges_witness:
  "RepositoryName \<lparr>fs_exists = (\<lambda>p. p \<in> {''/w/a/b.h'', ''/w/a/.svn'', ''/w/.svn'', ''/.svn''}), fs_cwd = ''/w''\<rparr>
     None ''a/b.h'' = None \<and>
   RepositoryName \<lparr>fs_exists = (\<lambda>p. p \<in> {''/w/a/b.h'', ''/w/a/.svn'', ''/w/.svn''}), fs_cwd = ''/w''\<rparr>
     None ''a/b.h'' \<noteq> None"
proof -
  have "FullName \<lparr>fs_exists = e, fs_cwd = ''/w''\<rparr> ''a/b.h'' = ''/w/a/b.h''" for e by code_simp
  moreover have "dirname ''/w/a/b.h'' = ''/w/a''" "ancestors ''/w/a'' = [''/w/a'', ''/w'', ''/'']"
    "path_join ''/w/a'' ''.svn'' = ''/w/a/.svn''" "path_join ''/w'' ''.svn'' = ''/w/.svn''"
    "path_join ''/'' ''.svn'' = ''/.svn''" by code_simp+
  ultimately show ?thesis by (simp add: RepositoryName_diverges)
qed

text \<open>C35: Splitting a path into its components and joining them gives the path back, for every path
  without an empty component in its middle.\<close>

theorem PathSplitToList_roundtrip:
  assumes "find_idx ''//'' p = None"
  shows "path_join_all (PathSplitToList p) = p"
  using assms by (rule path_join_all_split)

theorem PathSplitToList_roundtrip_witness:
  "PathSplitToList ''/a/b/c/'' = [''/'', ''a'', ''b'', ''c'', []] \<and>
   path_join_all (PathSplitToList ''/a/b/c/'') = ''/a/b/c/''"
proof -
  have "find_idx ''//'' ''/a/b/c/'' = None" by code_simp
  from PathSplitToList_roundtrip [OF this]
  show ?thesis by (intro conjI) code_simp
qed

end
