(* ===== verification/File_Checks.thy ===== *)
theory File_Checks
  imports File_Path
begin

text \<open>
  The checks that look at a file as a whole: the copyright line, the header guard, the newline at
  the end of the file. A check takes the name of the file and its lines and returns the reports it
  makes; the header guard check also reads NOLINT comments on its way, so it returns the sequence
  of what it does.
\<close>

section \<open>Reports of a check\<close>

abbreviation report_if :: "bool \<Rightarrow> report \<Rightarrow> report list" where
  "report_if b r \<equiv> (if b then [r] else [])"

abbreviation has_text :: "string option \<Rightarrow> bool" where
  "has_text g \<equiv> g \<noteq> None \<and> g \<noteq> Some []"

text \<open>Two of the checks read NOLINT comments ahead of the line the linter is at, before they report:
  such a check returns events, and \<open>perform\<close> carries them out.\<close>

datatype event = Err report | ReadNolint string int

fun perform :: "(report \<Rightarrow> world \<Rightarrow> world res) \<Rightarrow> string \<Rightarrow> event list \<Rightarrow> world \<Rightarrow> world res" where
  "perform error filename [] w = Inr w"
| "perform error filename (Err r # es) w = bind_res (error r w) (perform error filename es)"
| "perform error filename (ReadNolint raw_line linenum # es) w =
     (case ParseNolintSuppressions filename raw_line linenum (error_suppressions w) of
        (d, rs) \<Rightarrow> bind_res (emit error rs (w\<lparr>error_suppressions := d\<rparr>)) (perform error filename es))"

text \<open>What every check promises of its reports: they name the file, a registered category and a
  confidence that does not exceed 5.\<close>

definition good_report :: "string \<Rightarrow> report \<Rightarrow> bool" where
  "good_report filename r \<longleftrightarrow>
     r_filename r = filename \<and> r_category r \<in> set ERROR_CATEGORIES \<and> r_confidence r \<le> 5"

section \<open>Copyright\<close>

text \<open>The search ignores case: the letters of the pattern are ASCII, and on the characters of a
  line this is the search for the lower-case word in the lower-case line.\<close>

definition CheckForCopyright :: "string \<Rightarrow> string list \<Rightarrow> report list" where
  \<open>CheckForCopyright filename ls =
     (if list_ex (\<lambda>line. contains ''copyright'' (lower line)) (slice 1 (min (length ls) 11) ls)
      then []
      else [Report filename 0 ''legal/copyright'' 5
        (''No copyright message found.  '' @
         ''You should have a line: "Copyright [year] <Copyright Owner>"'')])\<close>

section \<open>Header guard\<close>

text \<open>What the loop over the lines collects: the first \<open>#ifndef\<close>, the first \<open>#define\<close> and the
  last \<open>#endif\<close>.\<close>

record guard_scan =
  gs_ifndef :: string
  gs_ifndef_linenum :: nat
  gs_define :: string
  gs_endif :: string
  gs_endif_linenum :: nat

definition guard_line :: "nat \<times> string \<Rightarrow> guard_scan \<Rightarrow> guard_scan" where
  "guard_line p g =
     (case p of (linenum, line) \<Rightarrow>
        let linesplit = split_ws line;
            g = (if length linesplit \<ge> 2 then
                   let g = (if gs_ifndef g = [] \<and> linesplit ! 0 = ''#ifndef''
                            then g\<lparr>gs_ifndef := linesplit ! 1, gs_ifndef_linenum := linenum\<rparr> else g)
                   in if gs_define g = [] \<and> linesplit ! 0 = ''#define''
                      then g\<lparr>gs_define := linesplit ! 1\<rparr> else g
                 else g)
        in if startswith line ''#endif'' then g\<lparr>gs_endif := line, gs_endif_linenum := linenum\<rparr> else g)"

definition scan_guard :: "string list \<Rightarrow> guard_scan" where
  "scan_guard ls = fold guard_line (zip [0..<length ls] ls)
     \<lparr>gs_ifndef = [], gs_ifndef_linenum = 0, gs_define = [], gs_endif = [], gs_endif_linenum = 0\<rparr>"

definition guard_exempt :: "string list \<Rightarrow> bool" where
  \<open>guard_exempt ls \<longleftrightarrow>
     list_ex (\<lambda>l. matched (Search (rx ''//`s*NOLINT`(build/header_guard`)'') l)) ls \<or>
     list_ex (\<lambda>l. matched (Search (rx ''^`s*#pragma`s+once'') l)) ls\<close>

definition line_comment_re :: re where
  \<open>line_comment_re = rx ''^(?:(?:`'(?:`.|[^`'])*`')|(?:"(?:`.|[^"])*")|[^`'"])*//''\<close>

text \<open>The part after the checks of \<open>#ifndef\<close>: the comment on the \<open>#endif\<close> line.\<close>

definition endif_reports :: "string \<Rightarrow> string \<Rightarrow> string list \<Rightarrow> guard_scan \<Rightarrow> report list" where
  \<open>endif_reports filename cppvar ls g =
     (let endif_report = (\<lambda>confidence message.
        Report filename (int (gs_endif_linenum g)) ''build/header_guard'' confidence message)
      in case Match (rx (''#endif`s*//`s*'' @ cppvar @ ''(_)?`b'')) (gs_endif g) of
        Some m \<Rightarrow> report_if (group m 1 = Some ''_'')
          (endif_report 0 (''#endif line should be "#endif  // '' @ cppvar @ ''"''))
      | None \<Rightarrow>
        let no_single_line_comments =
          \<not> list_ex (\<lambda>line. matched (Match line_comment_re line)) (slice 1 (length ls - 1) ls)
        in case (if no_single_line_comments
                 then Match (rx (''#endif`s*/`*`s*'' @ cppvar @ ''(_)?`s*`*/'')) (gs_endif g)
                 else None) of
             Some m \<Rightarrow> report_if (group m 1 = Some ''_'')
               (endif_report 0 (''#endif line should be "#endif  /* '' @ cppvar @ '' */"''))
           | None \<Rightarrow> [endif_report 5 (''#endif line should be "#endif  // '' @ cppvar @ ''"'')])\<close>

definition CheckForHeaderGuard ::
  "fs \<Rightarrow> string option \<Rightarrow> string option \<Rightarrow> string \<Rightarrow> CleansedLines \<Rightarrow> event list res option" where
  "CheckForHeaderGuard f repo root filename clean_lines =
     (let ls = lines_without_raw_strings clean_lines in
      if guard_exempt ls then Some (Inr [])
      else map_option (\<lambda>cppvar.
        let g = scan_guard ls in
        if gs_ifndef g = [] \<or> gs_define g = [] \<or> gs_ifndef g \<noteq> gs_define g then
          Inr [Err (Report filename 0 ''build/header_guard'' 5
            (''No #ifndef header guard found, suggested CPP variable is: '' @ cppvar))]
        else
          bind_res
            (if gs_ifndef g \<noteq> cppvar then
               bind_res (py_nth ls (int (gs_ifndef_linenum g))) (\<lambda>l.
                 Inr [ReadNolint l (int (gs_ifndef_linenum g)),
                   Err (Report filename (int (gs_ifndef_linenum g)) ''build/header_guard''
                     (if gs_ifndef g \<noteq> cppvar @ ''_'' then 5 else 0)
                     (''#ifndef header guard has wrong style, please use: '' @ cppvar))])
             else Inr []) (\<lambda>ifndef_events.
          bind_res (py_nth ls (int (gs_endif_linenum g))) (\<lambda>l.
            Inr (ifndef_events @ ReadNolint l (int (gs_endif_linenum g)) #
              map Err (endif_reports filename cppvar ls g)))))
        (GetHeaderGuardCPPVariable f repo root filename))"

section \<open>Bad characters\<close>

text \<open>The characters of the model are code points up to 255, so a line never contains the replacement
  character U+FFFD and the first test of the loop always fails; what is left is the test for NUL.\<close>

definition CheckForBadCharacters :: "string \<Rightarrow> string list \<Rightarrow> report list" where
  "CheckForBadCharacters filename ls =
     concat (map (\<lambda>(linenum, line).
       report_if (CHR 0x00 \<in> set line)
         (Report filename (int linenum) ''readability/nul'' 5 ''Line contains NUL byte.''))
       (zip [0..<length ls] ls))"

section \<open>Newline at the end of the file\<close>

definition CheckForNewlineAtEOF :: "string \<Rightarrow> string list \<Rightarrow> report list" where
  "CheckForNewlineAtEOF filename ls =
     report_if (length ls < 3 \<or> py_nth ls (- 2) \<noteq> Inr [])
       (Report filename (int (length ls) - 2) ''whitespace/ending_newline'' 5
         ''Could not find a newline character at the end of the file.'')"

end
