(* ===== verification/Line_Checks.thy ===== *)
theory Line_Checks
  imports Nesting_Laws Function_State File_Checks
begin

text \<open>
  Checks of one line against the language rules: multi-line comments and strings, functions that
  are not thread-safe, VLOG, increments of pointers, non-standard constructs and constructors,
  indentation in namespaces, the length of functions, printf, global strings. Each takes the
  cleansed lines and a line number and returns its reports, or the exception it raises.
\<close>

section \<open>Simple checks\<close>

definition CheckForMultilineCommentsAndStrings ::
  "string \<Rightarrow> CleansedLines \<Rightarrow> nat \<Rightarrow> report list res" where
  \<open>CheckForMultilineCommentsAndStrings filename clean_lines linenum =
     bind_res (py_nth (elided clean_lines) (int linenum)) (\<lambda>line.
       let line = replace [backslash, backslash] [] line in Inr (
         report_if (str_count ''/*'' line > str_count ''*/'' line)
           (Report filename (int linenum) ''readability/multiline_comment'' 5
             (''Complex multi-line /*...*/-style comment found. '' @
              ''Lint may give bogus warnings.  '' @
              ''Consider replacing these with //-style comments, '' @
              ''with #if 0...#endif, '' @
              ''or with more clearly structured multi-line comments.'')) @
         report_if ((int (str_count [dquote] line) - int (str_count [backslash, dquote] line)) mod 2 \<noteq> 0)
           (Report filename (int linenum) ''readability/multiline_string'' 5
             (''Multi-line string ("...") found.  This lint script doesn't '' @
              ''do well with such strings, and may give bogus warnings.  '' @
              ''Use C++11 raw strings or concatenation instead.''))))\<close>

definition UNSAFE_FUNC_PREFIX :: string where
  \<open>UNSAFE_FUNC_PREFIX = ''(?:[-+*/=%^&|(<]`s*|>`s+)''\<close>

definition THREADING_LIST :: "(string \<times> string \<times> string) list" where
  \<open>THREADING_LIST = [
     (''asctime('', ''asctime_r('', UNSAFE_FUNC_PREFIX @ ''asctime`([^)]+`)''),
     (''ctime('', ''ctime_r('', UNSAFE_FUNC_PREFIX @ ''ctime`([^)]+`)''),
     (''getgrgid('', ''getgrgid_r('', UNSAFE_FUNC_PREFIX @ ''getgrgid`([^)]+`)''),
     (''getgrnam('', ''getgrnam_r('', UNSAFE_FUNC_PREFIX @ ''getgrnam`([^)]+`)''),
     (''getlogin('', ''getlogin_r('', UNSAFE_FUNC_PREFIX @ ''getlogin`(`)''),
     (''getpwnam('', ''getpwnam_r('', UNSAFE_FUNC_PREFIX @ ''getpwnam`([^)]+`)''),
     (''getpwuid('', ''getpwuid_r('', UNSAFE_FUNC_PREFIX @ ''getpwuid`([^)]+`)''),
     (''gmtime('', ''gmtime_r('', UNSAFE_FUNC_PREFIX @ ''gmtime`([^)]+`)''),
     (''localtime('', ''localtime_r('', UNSAFE_FUNC_PREFIX @ ''localtime`([^)]+`)''),
     (''rand('', ''rand_r('', UNSAFE_FUNC_PREFIX @ ''rand`(`)''),
     (''strtok('', ''strtok_r('', UNSAFE_FUNC_PREFIX @ ''strtok`([^)]+`)''),
     (''ttyname('', ''ttyname_r('', UNSAFE_FUNC_PREFIX @ ''ttyname`([^)]+`)'')]\<close>

definition CheckPosixThreading :: "string \<Rightarrow> CleansedLines \<Rightarrow> nat \<Rightarrow> report list res" where
  "CheckPosixThreading filename clean_lines linenum =
     bind_res (py_nth (elided clean_lines) (int linenum)) (\<lambda>line. Inr (concat (map
       (\<lambda>(single_thread_func, multithread_safe_func, pattern).
          report_if (matched (Search (rx pattern) line))
            (Report filename (int linenum) ''runtime/threadsafe_fn'' 2
              (''Consider using '' @ multithread_safe_func @
               ''...) instead of '' @ single_thread_func @
               ''...) for improved thread safety.'')))
       THREADING_LIST)))"

definition CheckVlogArguments :: "string \<Rightarrow> CleansedLines \<Rightarrow> nat \<Rightarrow> report list res" where
  \<open>CheckVlogArguments filename clean_lines linenum =
     bind_res (py_nth (elided clean_lines) (int linenum)) (\<lambda>line. Inr (
       report_if (matched (Search (rx ''`bVLOG`((INFO|ERROR|WARNING|DFATAL|FATAL)`)'') line))
         (Report filename (int linenum) ''runtime/vlog'' 5
           (''VLOG() should be used with numeric verbosity level.  '' @
            ''Use LOG() if you want symbolic severity levels.''))))\<close>

definition RE_PATTERN_INVALID_INCREMENT :: re where
  \<open>RE_PATTERN_INVALID_INCREMENT = rx ''^`s*`*`w+(`+`+|--);''\<close>

definition CheckInvalidIncrement :: "string \<Rightarrow> CleansedLines \<Rightarrow> nat \<Rightarrow> report list res" where
  "CheckInvalidIncrement filename clean_lines linenum =
     bind_res (py_nth (elided clean_lines) (int linenum)) (\<lambda>line. Inr (
       report_if (matched (re_match RE_PATTERN_INVALID_INCREMENT line))
         (Report filename (int linenum) ''runtime/invalid_increment'' 5
           ''Changing pointer instead of value (or unused value of operator*).'')))"

definition CheckPrintf :: "string \<Rightarrow> CleansedLines \<Rightarrow> nat \<Rightarrow> report list res" where
  \<open>CheckPrintf filename clean_lines linenum =
     bind_res (py_nth (elided clean_lines) (int linenum)) (\<lambda>line. Inr (
       (case Search (rx ''snprintf`s*`(([^,]*),`s*([0-9]*)`s*,'') line of
          Some m \<Rightarrow> report_if (gtext m 2 \<noteq> ''0'')
            (Report filename (int linenum) ''runtime/printf'' 3
              (''If you can, use sizeof('' @ gtext m 1 @ '') instead of '' @ gtext m 2 @
               '' as the 2nd arg '' @ ''to snprintf.''))
        | None \<Rightarrow> []) @
       report_if (matched (Search (rx ''`bsprintf`s*`('') line))
         (Report filename (int linenum) ''runtime/printf'' 5
           ''Never use sprintf. Use snprintf instead.'') @
       (case Search (rx ''`b(strcpy|strcat)`s*`('') line of
          Some m \<Rightarrow> [Report filename (int linenum) ''runtime/printf'' 4
            (''Almost always, snprintf is better than '' @ gtext m 1)]
        | None \<Rightarrow> [])))\<close>

definition CheckGlobalStatic :: "string \<Rightarrow> CleansedLines \<Rightarrow> nat \<Rightarrow> report list res" where
  \<open>CheckGlobalStatic filename clean_lines linenum =
     bind_res (py_nth (elided clean_lines) (int linenum)) (\<lambda>line.
     bind_res (if linenum + 1 < NumLines clean_lines \<and> \<not> matched (Search (rx ''[;({]'') line)
               then bind_res (py_nth (elided clean_lines) (int linenum + 1)) (\<lambda>next. Inr (line @ strip next))
               else Inr line) (\<lambda>line. Inr (
       (case Match (rx (''((?:|static +)(?:|const +))(?::*std::)?string( +const)? +'' @
                ''([a-zA-Z0-9_:]+)`b(.*)'')) line of
          Some m \<Rightarrow>
            if \<not> matched (Search (rx ''`bstring`b(`s+const)?`s*[`*`&]`s*(const`s+)?`w'') line) \<and>
               \<not> matched (Search (rx ''`boperator`W'') line) \<and>
               \<not> matched (Match (rx ''`s*(<.*>)?(::[a-zA-Z0-9_]+)*`s*`(([^"]|$)'') (gtext m 4))
            then if matched (Search (rx ''`bconst`b'') line)
                 then [Report filename (int linenum) ''runtime/string'' 4
                   (''For a static/global string constant, use a C style string '' @
                    ''instead: "'' @ gtext m 1 @ ''char'' @ gtext m 2 @ '' '' @ gtext m 3 @ ''[]".'')]
                 else [Report filename (int linenum) ''runtime/string'' 4
                   ''Static/global string variables are not permitted.'']
            else []
        | None \<Rightarrow> []) @
       report_if (matched (Search (rx ''`b([A-Za-z0-9_]*_)`(`1`)'') line) \<or>
           matched (Search (rx ''`b([A-Za-z0-9_]*_)`(CHECK_NOTNULL`(`1`)`)'') line))
         (Report filename (int linenum) ''runtime/init'' 4
           ''You seem to be initializing a member variable with itself.''))))\<close>

section \<open>Indentation in namespaces\<close>

definition IsMacroDefinition :: "string list \<Rightarrow> nat \<Rightarrow> bool res" where
  \<open>IsMacroDefinition clean_lines linenum =
     bind_res (py_nth clean_lines (int linenum)) (\<lambda>line.
       if matched (Search (rx ''^#define'') line) then Inr True
       else if linenum > 0
       then bind_res (py_nth clean_lines (int linenum - 1)) (\<lambda>prev. Inr (matched (Search (rx ''``$'') prev)))
       else Inr False)\<close>

definition IsForwardClassDeclaration :: "string list \<Rightarrow> nat \<Rightarrow> bool res" where
  \<open>IsForwardClassDeclaration clean_lines linenum =
     bind_res (py_nth clean_lines (int linenum)) (\<lambda>line.
       Inr (matched (Match (rx ''^`s*(`btemplate`b)*.*class`s+`w+;`s*$'') line)))\<close>

definition IsBlockInNameSpace :: "NestingState \<Rightarrow> bool \<Rightarrow> bool" where
  "IsBlockInNameSpace nesting_state is_forward_declaration =
     (if is_forward_declaration
      then length (stack nesting_state) \<ge> 1 \<and> is_namespace (kind (hd (stack nesting_state)))
      else length (stack nesting_state) > 1 \<and>
           check_namespace_indentation (hd (stack nesting_state)) \<and>
           is_namespace (kind (stack nesting_state ! 1)))"

definition ShouldCheckNamespaceIndentation ::
  "NestingState \<Rightarrow> bool \<Rightarrow> string list \<Rightarrow> nat \<Rightarrow> bool res" where
  "ShouldCheckNamespaceIndentation nesting_state is_namespace_indent_item raw_lines_no_comments linenum =
     bind_res (IsForwardClassDeclaration raw_lines_no_comments linenum) (\<lambda>is_forward_declaration.
       if \<not> (is_namespace_indent_item \<or> is_forward_declaration) then Inr False
       else bind_res (IsMacroDefinition raw_lines_no_comments linenum) (\<lambda>m.
         if m then Inr False
         else Inr (IsBlockInNameSpace nesting_state is_forward_declaration)))"

definition CheckItemIndentationInNamespace :: "string \<Rightarrow> string list \<Rightarrow> nat \<Rightarrow> report list res" where
  \<open>CheckItemIndentationInNamespace filename raw_lines_no_comments linenum =
     bind_res (py_nth raw_lines_no_comments (int linenum)) (\<lambda>line. Inr (
       report_if (matched (Match (rx ''^`s+'') line))
         (Report filename (int linenum) ''runtime/indentation_namespace'' 4
           ''Do not indent within a namespace'')))\<close>

text \<open>The test \<open>previous_stack_top == stack[-2]\<close> compares references: it holds when the reference is
  to the second block from the top.\<close>

definition is_namespace_indent_item :: "NestingState \<Rightarrow> bool" where
  "is_namespace_indent_item s \<longleftrightarrow> length (stack s) > 1 \<and> check_namespace_indentation (hd (stack s)) \<and>
     previous_stack_top s = OnStack (length (stack s) - 2) \<and> is_namespace (kind (stack s ! 1))"

definition CheckForNamespaceIndentation ::
  "string \<Rightarrow> NestingState \<Rightarrow> CleansedLines \<Rightarrow> nat \<Rightarrow> report list res" where
  "CheckForNamespaceIndentation filename nesting_state clean_lines line =
     bind_res (ShouldCheckNamespaceIndentation nesting_state (is_namespace_indent_item nesting_state)
       (elided clean_lines) line) (\<lambda>b.
       if b then CheckItemIndentationInNamespace filename (elided clean_lines) line else Inr [])"

section \<open>Function lengths\<close>

datatype body_search = NoBody | NoCount | FunctionBody string

text \<open>The loop that looks for the body of a function from the line of its name on; the joined
  lines are needed for the arguments of a TEST macro.\<close>

fun find_body :: "string list \<Rightarrow> string \<Rightarrow> body_search" where
  "find_body [] joined_line = NoBody"
| "find_body (start_line # ls) joined_line =
     (let joined_line = joined_line @ '' '' @ lstrip start_line
      in if matched (Search (rx ''(;|})'') start_line) then NoCount
         else if matched (Search (rx ''{'') start_line) then FunctionBody joined_line
         else find_body ls joined_line)"

definition starting_func :: "string \<Rightarrow> bool res" where
  \<open>starting_func line =
     (case Match (rx ''(`w(`w|::|`*|`&|`s)*)`('') line of
        None \<Rightarrow> Inr False
      | Some match_result \<Rightarrow>
        bind_res (py_nth (split_ws (gtext match_result 1)) (- 1)) (\<lambda>function_name.
          Inr (function_name = ''TEST'' \<or> function_name = ''TEST_F'' \<or>
            \<not> matched (Match (rx ''[A-Z_]+$'') function_name))))\<close>

definition function_text :: "string \<Rightarrow> string \<Rightarrow> string res" where
  \<open>function_text line joined_line =
     (case Search (rx ''((`w|:)*)`('') line of
        None \<Rightarrow> Inl AttributeError
      | Some m \<Rightarrow>
        let function = gtext m 1
        in Inr (if matched (Match (rx ''TEST'') function)
                then (case Search (rx ''(`(.*`))'') joined_line of
                        Some parameter_regexp \<Rightarrow> function @ gtext parameter_regexp 1
                      | None \<Rightarrow> function)
                else function @ ''()''))\<close>

definition CheckForFunctionLengths ::
  "int \<Rightarrow> string \<Rightarrow> CleansedLines \<Rightarrow> nat \<Rightarrow> FunctionState \<Rightarrow> (report list \<times> FunctionState) res" where
  \<open>CheckForFunctionLengths verbose filename clean_lines linenum function_state =
     bind_res (py_nth (lines clean_lines) (int linenum)) (\<lambda>line.
     bind_res (starting_func line) (\<lambda>starting.
       if starting then
         (case find_body (slice linenum (NumLines clean_lines) (lines clean_lines)) [] of
            NoBody \<Rightarrow> Inr ([Report filename (int linenum) ''readability/fn_size'' 5
              ''Lint failed to find start of function body.''], function_state)
          | NoCount \<Rightarrow> Inr ([], function_state)
          | FunctionBody joined_line \<Rightarrow>
              bind_res (function_text line joined_line) (\<lambda>function.
                Inr ([], Begin function function_state)))
       else if matched (Match (rx ''^`}`s*$'') line)
       then Inr (Check verbose filename (int linenum) function_state, End function_state)
       else if \<not> matched (Match (rx ''^`s*$'') line)
       then Inr ([], Count function_state)
       else Inr ([], function_state)))\<close>

section \<open>Non-standard constructs\<close>

text \<open>Arguments of a constructor are split at commas; pieces with more opening than closing brackets
  are joined with what follows. When nothing follows the code raises.\<close>

definition open_arg :: "string \<Rightarrow> bool" where
  "open_arg a \<longleftrightarrow> str_count ''<'' a > str_count ''>'' a \<or> str_count ''('' a > str_count '')'' a"

fun collapse_arg :: "string \<Rightarrow> string list \<Rightarrow> (string \<times> string list) res" where
  "collapse_arg constructor_arg [] =
     (if open_arg constructor_arg then Inl IndexError else Inr (constructor_arg, []))"
| "collapse_arg constructor_arg (a # args) =
     (if open_arg constructor_arg then collapse_arg (constructor_arg @ '','' @ a) args
      else Inr (constructor_arg, a # args))"

lemma collapse_arg_length: "collapse_arg a as = Inr (b, bs) \<Longrightarrow> length bs \<le> length as"
  by (induction a as rule: collapse_arg.induct) (auto split: if_splits)

function collapse_args :: "string list \<Rightarrow> string list res" where
  "collapse_args [] = Inr []"
| "collapse_args (a # args) =
     (case collapse_arg a args of
        Inl e \<Rightarrow> Inl e
      | Inr (b, rest_args) \<Rightarrow> bind_res (collapse_args rest_args) (\<lambda>bs. Inr (b # bs)))"
  by pat_completeness auto
termination
  by (relation "measure length") (auto dest: collapse_arg_length)

definition explicit_reports ::
  "string \<Rightarrow> nat \<Rightarrow> string \<Rightarrow> bool \<Rightarrow> string list \<Rightarrow> report list" where
  \<open>explicit_reports filename linenum base_classname is_marked_explicit constructor_args =
     (let variadic_args = filter (contains ''&&...'') constructor_args;
          defaulted_args = filter (contains ''='') constructor_args;
          noarg_constructor = (constructor_args = [] \<or>
            length constructor_args = 1 \<and> strip (constructor_args ! 0) = ''void'');
          onearg_constructor =
            (length constructor_args = 1 \<and> \<not> noarg_constructor \<or>
             length constructor_args \<ge> 1 \<and> \<not> noarg_constructor \<and>
               length defaulted_args \<ge> length constructor_args - 1 \<or>
             length constructor_args \<le> 2 \<and> length variadic_args \<ge> 1);
          initializer_list_constructor = (onearg_constructor \<and>
            matched (Search (rx ''`bstd`s*::`s*initializer_list`b'') (constructor_args ! 0)));
          copy_constructor = (onearg_constructor \<and>
            matched (Match (rx (''(const`s+)?'' @ re_escape base_classname @
              ''(`s*<[^>]*>)?(`s+const)?`s*(?:<`w+>`s*)?&'')) (strip (constructor_args ! 0))))
      in if \<not> is_marked_explicit \<and> onearg_constructor \<and> \<not> initializer_list_constructor \<and>
            \<not> copy_constructor
         then if defaulted_args \<noteq> [] \<or> variadic_args \<noteq> []
              then [Report filename (int linenum) ''runtime/explicit'' 5
                (''Constructors callable with one argument '' @
                 ''should be marked explicit.'')]
              else [Report filename (int linenum) ''runtime/explicit'' 5
                ''Single-parameter constructors should be marked explicit.'']
         else if is_marked_explicit \<and> \<not> onearg_constructor
         then report_if noarg_constructor (Report filename (int linenum) ''runtime/explicit'' 5
                ''Zero-parameter constructors should not be marked explicit.'')
         else [])\<close>

definition constructor_reports :: "string \<Rightarrow> nat \<Rightarrow> string \<Rightarrow> NestingState \<Rightarrow> report list res" where
  \<open>constructor_reports filename linenum line nesting_state =
     (case InnermostClass nesting_state of
        None \<Rightarrow> Inr []
      | Some classinfo \<Rightarrow>
        if \<not> seen_open_brace classinfo then Inr []
        else (case kind classinfo of ClassBlock c \<Rightarrow>
            let base_classname = last (split_str ''::'' (class_name c))
            in (case Match (rx (''`s+(?:(?:inline|constexpr)`s+)*(explicit`s+)?'' @
                     ''(?:(?:inline|constexpr)`s+)*'' @ re_escape base_classname @ ''`s*'' @
                     ''`(((?:[^()]|`([^()]*`))*)`)'')) line of
                  None \<Rightarrow> Inr []
                | Some m \<Rightarrow>
                  bind_res (collapse_args (if gtext m 2 = [] then [] else split_on CHR '','' (gtext m 2)))
                    (\<lambda>constructor_args. Inr (explicit_reports filename linenum base_classname
                      (has_text (group m 1)) constructor_args)))
          | _ \<Rightarrow> Inr []))\<close>

definition CheckForNonStandardConstructs ::
  "string \<Rightarrow> CleansedLines \<Rightarrow> nat \<Rightarrow> NestingState \<Rightarrow> report list res" where
  \<open>CheckForNonStandardConstructs filename clean_lines linenum nesting_state =
     bind_res (py_nth (lines clean_lines) (int linenum)) (\<lambda>line.
     bind_res (py_nth (elided clean_lines) (int linenum)) (\<lambda>el.
     bind_res (constructor_reports filename linenum el nesting_state) (\<lambda>constructors. Inr (
       report_if (matched (Search (rx ''printf`s*`(.*".*%[-+ ]?`d*q'') line))
         (Report filename (int linenum) ''runtime/printf_format'' 3
           ''%q in format strings is deprecated.  Use %ll instead.'') @
       report_if (matched (Search (rx ''printf`s*`(.*".*%`d+`$'') line))
         (Report filename (int linenum) ''runtime/printf_format'' 2
           ''%N$ formats are unconventional.  Try rewriting to avoid them.'') @
       report_if (matched (Search (rx ''("|`').*``(%|`[|`(|{)'') (replace [backslash, backslash] [] line)))
         (Report filename (int linenum) ''build/printf_format'' 3
           ''%, [, (, and { are undefined character escapes.  Unescape them.'') @
       report_if (matched (Search (rx (''`b(const|volatile|void|char|short|int|long'' @
              ''|float|double|signed|unsigned'' @
              ''|schar|u?int8|u?int16|u?int32|u?int64)'' @
              ''`s+(register|static|extern|typedef)`b'')) el))
         (Report filename (int linenum) ''build/storage_class'' 5
           (''Storage-class specifier (static, extern, typedef, etc) should be '' @
            ''at the beginning of the declaration.'')) @
       report_if (matched (Match (rx ''`s*#`s*endif`s*[^/`s]+'') el))
         (Report filename (int linenum) ''build/endif_comment'' 5
           ''Uncommented text after #endif is non-standard.  Use a comment.'') @
       report_if (matched (Match (rx ''`s*class`s+(`w+`s*::`s*)+`w+`s*;'') el))
         (Report filename (int linenum) ''build/forward_decl'' 5
           ''Inner-style forward declarations are invalid.  Remove this line.'') @
       report_if (matched (Search (rx ''(`w+|[+-]?`d+(`.`d*)?)`s*(<|>)`?=?`s*(`w+|[+-]?`d+)(`.`d*)?'') el))
         (Report filename (int linenum) ''build/deprecated'' 3
           ''>? and <? (max and min) operators are non-standard and deprecated.'') @
       report_if (matched (Search (rx ''^`s*const`s*string`s*&`s*`w+`s*;'') el))
         (Report filename (int linenum) ''runtime/member_string_references'' 2
           (''const string& members are dangerous. It is much better to use '' @
            ''alternatives, such as pointers or simple constants.'')) @
       constructors))))\<close>

end
