(* ===== verification/Include_State.thy ===== *)
theory Include_State
  imports Lint_State
begin

text \<open>
  The class \<open>_IncludeState\<close>: the headers included so far, grouped by preprocessor branch, and
  the section reached in the required order of includes. The order is a small automaton over
  the kinds of header, whose language is given by \<open>in_order\<close>.
\<close>

section \<open>Kinds of header and sections\<close>

datatype header_type =
    C_SYS_HEADER
  | CPP_SYS_HEADER
  | LIKELY_MY_HEADER
  | POSSIBLE_MY_HEADER
  | OTHER_HEADER

datatype section_name =
    INITIAL_SECTION
  | MY_H_SECTION
  | C_SECTION
  | CPP_SECTION
  | OTHER_H_SECTION

fun section_rank :: "section_name \<Rightarrow> nat" where
  "section_rank INITIAL_SECTION = 0"
| "section_rank MY_H_SECTION = 1"
| "section_rank C_SECTION = 2"
| "section_rank CPP_SECTION = 3"
| "section_rank OTHER_H_SECTION = 4"

lemma section_rank_inject [simp]: "section_rank a = section_rank b \<longleftrightarrow> a = b"
  by (cases a; cases b) auto

instantiation section_name :: linorder
begin

definition less_eq_section_name :: "section_name \<Rightarrow> section_name \<Rightarrow> bool" where
  "a \<le> b \<longleftrightarrow> section_rank a \<le> section_rank b"

definition less_section_name :: "section_name \<Rightarrow> section_name \<Rightarrow> bool" where
  "a < b \<longleftrightarrow> section_rank a < section_rank b"

instance
  by standard (auto simp: less_eq_section_name_def less_section_name_def)

end

fun TYPE_NAMES :: "header_type \<Rightarrow> string" where
  "TYPE_NAMES C_SYS_HEADER = ''C system header''"
| "TYPE_NAMES CPP_SYS_HEADER = ''C++ system header''"
| "TYPE_NAMES LIKELY_MY_HEADER = ''header this file implements''"
| "TYPE_NAMES POSSIBLE_MY_HEADER = ''header this file may implement''"
| "TYPE_NAMES OTHER_HEADER = ''other header''"

fun SECTION_NAMES :: "section_name \<Rightarrow> string" where
  "SECTION_NAMES INITIAL_SECTION =
     ''... nothing. (This can'' @ [squote] @ ''t be an error.)''"
| "SECTION_NAMES MY_H_SECTION = ''a header this file implements''"
| "SECTION_NAMES C_SECTION = ''C system header''"
| "SECTION_NAMES CPP_SECTION = ''C++ system header''"
| "SECTION_NAMES OTHER_H_SECTION = ''other header''"

section \<open>\<open>_IncludeState\<close>\<close>

record IncludeState =
  include_list :: "(string \<times> int) list list"
  include_section :: section_name
  last_header :: string

definition ResetSection :: "string \<Rightarrow> IncludeState \<Rightarrow> IncludeState" where
  "ResetSection directive s =
     (let s = s\<lparr>include_section := INITIAL_SECTION, last_header := []\<rparr>
      in if directive \<in> {''if'', ''ifdef'', ''ifndef''}
         then s\<lparr>include_list := include_list s @ [[]]\<rparr>
         else if directive \<in> {''else'', ''elif''}
         then s\<lparr>include_list := (include_list s)[length (include_list s) - 1 := []]\<rparr>
         else s)"

definition new_IncludeState :: IncludeState where
  "new_IncludeState = ResetSection []
     \<lparr>include_list = [[]], include_section = INITIAL_SECTION, last_header = []\<rparr>"

fun find_in_section :: "string \<Rightarrow> (string \<times> int) list \<Rightarrow> int option" where
  "find_in_section header [] = None"
| "find_in_section header (f # fs) =
     (if fst f = header then Some (snd f) else find_in_section header fs)"

fun find_in_sections :: "string \<Rightarrow> (string \<times> int) list list \<Rightarrow> int" where
  "find_in_sections header [] = - 1"
| "find_in_sections header (section_list # ls) =
     (case find_in_section header section_list of Some l \<Rightarrow> l | None \<Rightarrow> find_in_sections header ls)"

definition FindHeader :: "string \<Rightarrow> IncludeState \<Rightarrow> int" where
  "FindHeader header s = find_in_sections header (include_list s)"

definition SetLastHeader :: "string \<Rightarrow> IncludeState \<Rightarrow> IncludeState" where
  "SetLastHeader header_path s = s\<lparr>last_header := header_path\<rparr>"

definition CanonicalizeAlphabeticalOrder :: "string \<Rightarrow> string" where
  "CanonicalizeAlphabeticalOrder header_path =
     lower (replace ''-'' ''_'' (replace ''-inl.h'' ''.h'' header_path))"

definition IsInAlphabeticalOrder :: "string list \<Rightarrow> int \<Rightarrow> string \<Rightarrow> IncludeState \<Rightarrow> bool res" where
  \<open>IsInAlphabeticalOrder elided linenum header_path s =
     (if last_header s > header_path
      then bind_res (py_nth elided (linenum - 1)) (\<lambda>prev.
        Inr (\<not> matched (Match (rx ''^`s*#`s*include`b'') prev)))
      else Inr True)\<close>

text \<open>The result is the error message, empty when the header is in order, and the new state.\<close>

definition CheckNextIncludeOrder :: "header_type \<Rightarrow> IncludeState \<Rightarrow> string \<times> IncludeState" where
  "CheckNextIncludeOrder header_type s =
     (let error_message = ''Found '' @ TYPE_NAMES header_type @ '' after '' @
            SECTION_NAMES (include_section s);
          last_section = include_section s;
          finish = (\<lambda>sec. ([], if last_section \<noteq> sec
                              then s\<lparr>include_section := sec, last_header := []\<rparr>
                              else s\<lparr>include_section := sec\<rparr>))
      in case header_type of
           C_SYS_HEADER \<Rightarrow>
             if include_section s \<le> C_SECTION then finish C_SECTION
             else (error_message, s\<lparr>last_header := []\<rparr>)
         | CPP_SYS_HEADER \<Rightarrow>
             if include_section s \<le> CPP_SECTION then finish CPP_SECTION
             else (error_message, s\<lparr>last_header := []\<rparr>)
         | LIKELY_MY_HEADER \<Rightarrow>
             if include_section s \<le> MY_H_SECTION then finish MY_H_SECTION
             else finish OTHER_H_SECTION
         | POSSIBLE_MY_HEADER \<Rightarrow>
             if include_section s \<le> MY_H_SECTION then finish MY_H_SECTION
             else finish OTHER_H_SECTION
         | OTHER_HEADER \<Rightarrow> finish OTHER_H_SECTION)"

section \<open>The order of includes\<close>

fun check_order :: "header_type list \<Rightarrow> IncludeState \<Rightarrow> string list" where
  "check_order [] s = []"
| "check_order (t # ts) s =
     (case CheckNextIncludeOrder t s of (m, s') \<Rightarrow> m # check_order ts s')"

abbreviation is_my :: "header_type \<Rightarrow> bool" where
  "is_my t \<equiv> t \<in> {LIKELY_MY_HEADER, POSSIBLE_MY_HEADER}"

abbreviation is_sys :: "header_type \<Rightarrow> bool" where
  "is_sys t \<equiv> t \<in> {C_SYS_HEADER, CPP_SYS_HEADER}"

text \<open>Own headers, then C system headers, then C++ system headers, then no system header.\<close>

definition then_other :: "header_type list \<Rightarrow> bool" where
  "then_other ts \<longleftrightarrow> list_all (Not \<circ> is_sys) ts"

definition then_cpp :: "header_type list \<Rightarrow> bool" where
  "then_cpp ts = then_other (dropWhile (\<lambda>t. t = CPP_SYS_HEADER) ts)"

definition then_c :: "header_type list \<Rightarrow> bool" where
  "then_c ts = then_cpp (dropWhile (\<lambda>t. t = C_SYS_HEADER) ts)"

definition in_order :: "header_type list \<Rightarrow> bool" where
  "in_order ts = then_c (dropWhile is_my ts)"

primrec in_order_from :: "section_name \<Rightarrow> header_type list \<Rightarrow> bool" where
  "in_order_from INITIAL_SECTION = in_order"
| "in_order_from MY_H_SECTION = in_order"
| "in_order_from C_SECTION = then_c"
| "in_order_from CPP_SECTION = then_cpp"
| "in_order_from OTHER_H_SECTION = then_other"

lemmas in_order_defs = in_order_def then_c_def then_cpp_def then_other_def

lemmas section_le = less_eq_section_name_def

lemma check_order_accepts:
  "list_all (\<lambda>m. m = []) (check_order ts s) \<longleftrightarrow> in_order_from (include_section s) ts"
proof (induction ts arbitrary: s)
  case Nil
  show ?case by (cases "include_section s") (auto simp: in_order_defs)
next
  case (Cons t ts)
  show ?case
    by (cases t; cases "include_section s")
      (auto simp: CheckNextIncludeOrder_def Let_def section_le Cons.IH in_order_defs)
qed

lemma CheckNextIncludeOrder_message:
  "fst (CheckNextIncludeOrder t s) \<noteq> [] \<longleftrightarrow>
     t = C_SYS_HEADER \<and> C_SECTION < include_section s \<or>
     t = CPP_SYS_HEADER \<and> CPP_SECTION < include_section s"
  by (cases t) (auto simp: CheckNextIncludeOrder_def Let_def not_le)

lemma CheckNextIncludeOrder_section:
  "include_section s \<le> include_section (snd (CheckNextIncludeOrder t s))"
  "include_list (snd (CheckNextIncludeOrder t s)) = include_list s"
  by (cases t; cases "include_section s"; simp add: CheckNextIncludeOrder_def Let_def section_le)+

section \<open>Finding a header\<close>

definition includes_ok :: "IncludeState \<Rightarrow> bool" where
  "includes_ok s \<longleftrightarrow> include_list s \<noteq> [] \<and> (\<forall>f \<in> set (concat (include_list s)). 0 \<le> snd f)"

lemma find_in_section_map_of: "find_in_section header fs = map_of fs header"
  by (induction fs) auto

lemma find_in_sections_concat:
  "find_in_sections header ls = (case map_of (concat ls) header of Some l \<Rightarrow> l | None \<Rightarrow> - 1)"
  by (induction ls) (auto simp: find_in_section_map_of split: option.splits)

lemma includes_ok_new: "includes_ok new_IncludeState"
  by (simp add: includes_ok_def new_IncludeState_def ResetSection_def Let_def)

lemma includes_ok_ResetSection: "includes_ok s \<Longrightarrow> includes_ok (ResetSection d s)"
  by (auto simp: includes_ok_def ResetSection_def Let_def
      dest!: set_update_subset_insert [THEN subsetD])

section \<open>Properties\<close>



text \<open>C37: \<open>FindHeader\<close> returns the line of the first inclusion of a header over all branches of
  the file, and -1 exactly when the header was not included; the list of branches it searches is
  never empty and \<open>ResetSection\<close> keeps it so.\<close>

theorem FindHeader_first:
  assumes "includes_ok s"
  shows "(FindHeader header s = - 1 \<longleftrightarrow> header \<notin> fst ` set (concat (include_list s))) \<and>
    (\<forall>us l vs. concat (include_list s) = us @ (header, l) # vs \<longrightarrow> header \<notin> fst ` set us \<longrightarrow>
       FindHeader header s = l) \<and> includes_ok (ResetSection directive s)"
proof -
  let ?es = "concat (include_list s)"
  have F: "FindHeader header s = (case map_of ?es header of Some l \<Rightarrow> l | None \<Rightarrow> - 1)"
    by (simp add: FindHeader_def find_in_sections_concat)
  have "0 \<le> l" if "map_of ?es header = Some l" for l
    using assms map_of_SomeD [OF that] unfolding includes_ok_def by fastforce
  then have "FindHeader header s = - 1 \<longleftrightarrow> map_of ?es header = None"
    by (fastforce simp: F split: option.splits)
  then have "FindHeader header s = - 1 \<longleftrightarrow> header \<notin> fst ` set ?es"
    by (simp only: map_of_eq_None_iff)
  moreover have "FindHeader header s = l" if "?es = us @ (header, l) # vs" "header \<notin> fst ` set us" for us l vs
  proof -
    have "map_of us header = None" using that(2) by (simp only: map_of_eq_None_iff) simp
    then show ?thesis by (simp add: F that(1) map_add_def)
  qed
  ultimately show ?thesis using includes_ok_ResetSection [OF assms] by blast
qed

theorem FindHeader_first_witness:
  "includes_ok \<lparr>include_list = [[(''a.h'', 3)], [(''b.h'', 5), (''a.h'', 7)]],
     include_section = C_SECTION, last_header = []\<rparr> \<and>
   FindHeader ''a.h'' \<lparr>include_list = [[(''a.h'', 3)], [(''b.h'', 5), (''a.h'', 7)]],
     include_section = C_SECTION, last_header = []\<rparr> = 3"
proof -
  let ?s = "\<lparr>include_list = [[(''a.h'', 3)], [(''b.h'', 5), (''a.h'', 7)]],
     include_section = C_SECTION, last_header = []\<rparr>"
  have ok: "includes_ok ?s" by (simp add: includes_ok_def)
  have "concat (include_list ?s) = [] @ (''a.h'', 3) # [(''b.h'', 5), (''a.h'', 7)]" by simp
  with FindHeader_first [OF ok, of "''a.h''"] ok show ?thesis by (metis image_empty list.set(1) empty_iff)
qed

end
