(* ===== verification/Include_Checks.thy ===== *)
theory Include_Checks
  imports Include_State File_Checks
begin

text \<open>
  The checks of \<open>#include\<close> lines: the classification of a header and \<open>CheckIncludeLine\<close>. Where the
  code iterates over a set of file extensions, the order of the iteration is a parameter \<open>enum\<close> of
  the definitions: it is not fixed by Python.
\<close>

section \<open>Headers\<close>

definition CPP_HEADERS :: "string list" where
  "CPP_HEADERS = [
     ''algobase.h'', ''algo.h'', ''alloc.h'', ''builtinbuf.h'', ''bvector.h'',
     ''complex.h'', ''defalloc.h'', ''deque.h'', ''editbuf.h'', ''fstream.h'',
     ''function.h'', ''hash_map'', ''hash_map.h'', ''hash_set'', ''hash_set.h'',
     ''hashtable.h'', ''heap.h'', ''indstream.h'', ''iomanip.h'', ''iostream.h'',
     ''istream.h'', ''iterator.h'', ''list.h'', ''map.h'', ''multimap.h'',
     ''multiset.h'', ''ostream.h'', ''pair.h'', ''parsestream.h'', ''pfstream.h'',
     ''procbuf.h'', ''pthread_alloc'', ''pthread_alloc.h'', ''rope'', ''rope.h'',
     ''ropeimpl.h'', ''set.h'', ''slist'', ''slist.h'', ''stack.h'', ''stdiostream.h'',
     ''stl_alloc.h'', ''stl_relops.h'', ''streambuf.h'', ''stream.h'', ''strfile.h'',
     ''strstream.h'', ''tempbuf.h'', ''tree.h'', ''type_traits.h'', ''vector.h'',
     ''algorithm'', ''array'', ''atomic'', ''bitset'', ''chrono'', ''codecvt'',
     ''complex'', ''condition_variable'', ''deque'', ''exception'', ''forward_list'',
     ''fstream'', ''functional'', ''future'', ''initializer_list'', ''iomanip'', ''ios'',
     ''iosfwd'', ''iostream'', ''istream'', ''iterator'', ''limits'', ''list'',
     ''locale'', ''map'', ''memory'', ''mutex'', ''new'', ''numeric'', ''ostream'',
     ''queue'', ''random'', ''ratio'', ''regex'', ''scoped_allocator'', ''set'',
     ''sstream'', ''stack'', ''stdexcept'', ''streambuf'', ''string'', ''strstream'',
     ''system_error'', ''thread'', ''tuple'', ''typeindex'', ''typeinfo'',
     ''type_traits'', ''unordered_map'', ''unordered_set'', ''utility'', ''valarray'',
     ''vector'', ''shared_mutex'', ''any'', ''charconv'', ''codecvt'', ''execution'',
     ''filesystem'', ''memory_resource'', ''optional'', ''string_view'', ''variant'',
     ''cassert'', ''ccomplex'', ''cctype'', ''cerrno'', ''cfenv'', ''cfloat'',
     ''cinttypes'', ''ciso646'', ''climits'', ''clocale'', ''cmath'', ''csetjmp'',
     ''csignal'', ''cstdalign'', ''cstdarg'', ''cstdbool'', ''cstddef'', ''cstdint'',
     ''cstdio'', ''cstdlib'', ''cstring'', ''ctgmath'', ''ctime'', ''cuchar'',
     ''cwchar'', ''cwctype'']"

definition THIRD_PARTY_HEADERS_PATTERN :: re where
  \<open>THIRD_PARTY_HEADERS_PATTERN = rx ''^(?:[^/]*[A-Z][^/]*`.h|lua`.h|lauxlib`.h|lualib`.h)$''\<close>

definition test_suffixes :: "string list" where
  "test_suffixes = [''_test'', ''_regtest'', ''_unittest'']"

definition RE_FIRST_COMPONENT :: re where
  "RE_FIRST_COMPONENT = rx ''^[^-_.]+''"

definition common_suffixes :: "(string set \<Rightarrow> string list) \<Rightarrow> world \<Rightarrow> string list" where
  "common_suffixes enum w =
     map (\<lambda>(test_suffix, ext). dropWhile (\<lambda>c. c = CHR ''_'') test_suffix @ ''.'' @ ext)
       (List.product test_suffixes (enum (GetNonHeaderExtensions w))) @
     map (\<lambda>(suf, ext). suf @ ''.'' @ ext)
       (List.product [''inl'', ''imp'', ''internal''] (enum (GetHeaderExtensions w)))"

definition DropCommonSuffixes :: "(string set \<Rightarrow> string list) \<Rightarrow> world \<Rightarrow> string \<Rightarrow> string" where
  "DropCommonSuffixes enum w filename =
     (case find (\<lambda>suf. endswith filename suf \<and> length filename > length suf \<and>
             filename ! (length filename - length suf - 1) \<in> {CHR ''-'', CHR ''_''})
             (common_suffixes enum w) of
        Some suf \<Rightarrow> take (length filename - length suf - 1) filename
      | None \<Rightarrow> fst (splitext filename))"

text \<open>The comparison with the name of the file, for an include that is not a system header.\<close>

definition classify_own ::
  "(string set \<Rightarrow> string list) \<Rightarrow> world \<Rightarrow> string \<Rightarrow> string \<Rightarrow> header_type" where
  "classify_own enum w repository_name incl =
     (let (target_dir, target_base) = path_split (DropCommonSuffixes enum w repository_name);
          (include_dir, include_base) = path_split (DropCommonSuffixes enum w incl);
          target_dir_pub = replace [backslash] ''/'' (normpath (target_dir @ ''/../public''))
      in if target_base = include_base \<and> (include_dir = target_dir \<or> include_dir = target_dir_pub)
         then LIKELY_MY_HEADER
         else case (re_match RE_FIRST_COMPONENT target_base, re_match RE_FIRST_COMPONENT include_base) of
                (Some t, Some i) \<Rightarrow> if m_text t = m_text i then POSSIBLE_MY_HEADER else OTHER_HEADER
              | _ \<Rightarrow> OTHER_HEADER)"

definition ClassifyInclude ::
  "fs \<Rightarrow> (string set \<Rightarrow> string list) \<Rightarrow> world \<Rightarrow> string \<Rightarrow> string \<Rightarrow> bool \<Rightarrow> header_type option" where
  "ClassifyInclude f enum w filename incl is_system =
     (let is_cpp_h = incl \<in> set CPP_HEADERS;
          is_system = (if is_system \<and> snd (splitext incl) \<in> {''.hpp'', ''.hxx'', ''.h++''} then False
                       else is_system)
      in if is_system then Some (if is_cpp_h then CPP_SYS_HEADER else C_SYS_HEADER)
         else map_option (\<lambda>name. classify_own enum w name incl) (RepositoryName f (repository w) filename))"

section \<open>\<open>CheckIncludeLine\<close>\<close>

text \<open>The extension of the first loop: the first source extension of the header when it is in another
  directory than the file.\<close>

definition foreign_source ::
  "fs \<Rightarrow> (string set \<Rightarrow> string list) \<Rightarrow> world \<Rightarrow> string \<Rightarrow> string \<Rightarrow> string option option" where
  "foreign_source f enum w filename incl =
     (case filter (\<lambda>ext. endswith incl (''.'' @ ext)) (enum (GetNonHeaderExtensions w)) of
        [] \<Rightarrow> Some None
      | ext # _ \<Rightarrow> map_option (\<lambda>name. if dirname name \<noteq> dirname incl then Some ext else None)
          (RepositoryName f (repository w) filename))"

text \<open>The second loop: whether the header is the one that belongs to the file, under some header
  extension.\<close>

fun own_header ::
  "fs \<Rightarrow> world \<Rightarrow> string \<Rightarrow> string \<Rightarrow> string list \<Rightarrow> bool option" where
  "own_header f w filename incl [] = Some False"
| "own_header f w filename incl (ext # exts) =
     (case Extension f (repository w) filename of
        None \<Rightarrow> None
      | Some e \<Rightarrow>
        (case RepositoryName f (repository w)
                (slice_upto (int (length filename) - int (length e)) filename @ ''.'' @ ext) of
           None \<Rightarrow> None
         | Some headername \<Rightarrow>
             if contains headername incl \<or> contains incl headername then Some True
             else own_header f w filename incl exts))"

text \<open>The header is entered in the list of includes and its order is checked.\<close>

definition append_include :: "string \<times> int \<Rightarrow> IncludeState \<Rightarrow> IncludeState res" where
  "append_include p s =
     (if include_list s = [] then Inl IndexError
      else Inr (s\<lparr>include_list := butlast (include_list s) @ [last (include_list s) @ [p]]\<rparr>))"

definition check_order_of ::
  "string \<Rightarrow> CleansedLines \<Rightarrow> nat \<Rightarrow> string \<Rightarrow> string \<Rightarrow> header_type \<Rightarrow> IncludeState \<Rightarrow>
     (report list \<times> IncludeState) res" where
  \<open>check_order_of filename clean_lines linenum incl basename htype include_state =
     bind_res (append_include (incl, int linenum) include_state) (\<lambda>s.
       let (error_message, s) = CheckNextIncludeOrder htype s;
           canonical_include = CanonicalizeAlphabeticalOrder incl
       in bind_res (IsInAlphabeticalOrder (elided clean_lines) (int linenum) canonical_include s) (\<lambda>sorted_ok. Inr (
            report_if (error_message \<noteq> [])
              (Report filename (int linenum) ''build/include_order'' 4
                (error_message @ ''. Should be: '' @ basename @ ''.h, c system, c++ system, other.'')) @
            report_if (\<not> sorted_ok)
              (Report filename (int linenum) ''build/include_alpha'' 4
                (''Include "'' @ incl @ ''" not in alphabetical order'')),
            SetLastHeader canonical_include s)))\<close>

definition process_include ::
  "fs \<Rightarrow> (string set \<Rightarrow> string list) \<Rightarrow> world \<Rightarrow> string \<Rightarrow> CleansedLines \<Rightarrow> nat \<Rightarrow> string \<Rightarrow> bool \<Rightarrow>
     IncludeState \<Rightarrow> (report list \<times> IncludeState) res option" where
  \<open>process_include f enum w filename clean_lines linenum incl is_system include_state =
     (if FindHeader incl include_state \<ge> 0
      then ending (Inr ([Report filename (int linenum) ''build/include'' 4
        ([dquote] @ incl @ ''" already included at '' @ filename @ '':'' @
         str_int (FindHeader incl include_state))], include_state))
      else bind_ro (safe (foreign_source f enum w filename incl)) (\<lambda>foreign.
        case foreign of
          Some ext \<Rightarrow> ending (Inr ([Report filename (int linenum) ''build/include'' 4
            (''Do not include .'' @ ext @ '' files from other packages'')], include_state))
        | None \<Rightarrow>
          bind_ro (safe (own_header f w filename incl (enum (GetHeaderExtensions w)))) (\<lambda>third_src_header.
          if third_src_header \<or> \<not> matched (re_match THIRD_PARTY_HEADERS_PATTERN incl) then
            bind_ro (safe (ClassifyInclude f enum w filename incl is_system)) (\<lambda>htype.
            bind_ro (if fst (CheckNextIncludeOrder htype include_state) \<noteq> []
                     then safe (BaseName f (repository w) filename) else ending (Inr [])) (\<lambda>basename.
              ending (check_order_of filename clean_lines linenum incl basename htype include_state)))
          else ending (Inr ([], include_state)))))\<close>

definition CheckIncludeLine ::
  "fs \<Rightarrow> (string set \<Rightarrow> string list) \<Rightarrow> world \<Rightarrow> string \<Rightarrow> CleansedLines \<Rightarrow> nat \<Rightarrow> IncludeState \<Rightarrow>
     (report list \<times> IncludeState) res option" where
  \<open>CheckIncludeLine f enum w filename clean_lines linenum include_state =
     bind_ro (ending (py_nth (lines clean_lines) (int linenum))) (\<lambda>line.
     bind_ro (case re_search RE_PATTERN_INCLUDE line of
         None \<Rightarrow> ending (Inr ([], include_state))
       | Some m \<Rightarrow> process_include f enum w filename clean_lines linenum (gtext m 2)
           (gtext m 1 = ''<'') include_state) (\<lambda>(rs, s).
       ending (Inr (
         (case Match (rx ''#include`s*"([^/]+`.h)"'') line of
            Some m \<Rightarrow> report_if (\<not> matched (re_match THIRD_PARTY_HEADERS_PATTERN (gtext m 1)))
              (Report filename (int linenum) ''build/include_subdir'' 4
                ''Include the directory when naming .h files'')
          | None \<Rightarrow> []) @ rs, s))))\<close>

end
