(* ===== verification/Spacing_Checks.thy ===== *)
theory Spacing_Checks
  imports Nesting_Laws File_Checks
begin

text \<open>
  The checks of white space: around function calls, comments, blank lines, operators, parentheses,
  commas, braces and the sections of a class. As in the code, the position -1 of a search for a
  bracket is its own case (\<open>None\<close>).
\<close>

section \<open>Function calls\<close>

text \<open>The loop over the four control constructs: what is inside the parentheses of the first that
  occurs, or the whole line.\<close>

definition control_patterns :: "string list" where
  \<open>control_patterns = [''`bif`s*`((.*)`)`s*{'', ''`bfor`s*`((.*)`)`s*{'',
     ''`bwhile`s*`((.*)`)`s*[{;]'', ''`bswitch`s*`((.*)`)`s*{'']\<close>

fun find_fncall :: "string list \<Rightarrow> string \<Rightarrow> string" where
  "find_fncall [] line = line"
| "find_fncall (pattern # ps) line =
     (case Search (rx pattern) line of Some m \<Rightarrow> gtext m 1 | None \<Rightarrow> find_fncall ps line)"

definition CheckSpacingForFunctionCall :: "string \<Rightarrow> CleansedLines \<Rightarrow> nat \<Rightarrow> report list res" where
  \<open>CheckSpacingForFunctionCall filename clean_lines linenum =
     bind_res (py_nth (elided clean_lines) (int linenum)) (\<lambda>line.
       let fncall = find_fncall control_patterns line;
           parens = (\<lambda>confidence message. Report filename (int linenum) ''whitespace/parens'' confidence message)
       in Inr (
         if \<not> matched (Search (rx ''`b(if|for|while|switch|return|new|delete|catch|sizeof)`b'') fncall) \<and>
            \<not> matched (Search (rx '' `([^)]+`)`([^)]*(`)|,$)'') fncall) \<and>
            \<not> matched (Search (rx '' `([^)]+`)`[[^`]]+`]'') fncall)
         then
           (if matched (Search (rx ''`w`s*`(`s(?!`s*``$)'') fncall)
            then [parens 4 ''Extra space after ( in function call'']
            else if matched (Search (rx ''`(`s+(?!(`s*``)|`()'') fncall)
            then [parens 2 ''Extra space after ('']
            else []) @
           (if matched (Search (rx ''`w`s+`('') fncall) \<and>
               \<not> matched (Search (rx ''_{0,2}asm_{0,2}`s+_{0,2}volatile_{0,2}`s+`('') fncall) \<and>
               \<not> matched (Search (rx ''#`s*define|typedef|using`s+`w+`s*='') fncall) \<and>
               \<not> matched (Search (rx ''`w`s+`((`w+::)*`*`w+`)`('') fncall) \<and>
               \<not> matched (Search (rx ''`bcase`s+`('') fncall)
            then [parens (if matched (Search (rx ''`boperator_*`b'') line) then 0 else 4)
              ''Extra space before ( in function call'']
            else []) @
           (if matched (Search (rx ''[^)]`s+`)`s*[^{`s]'') fncall)
            then (if matched (Search (rx ''^`s+`)'') fncall)
                  then [parens 2 ''Closing ) should be moved to the previous line'']
                  else [parens 2 ''Extra space before )''])
            else [])
         else []))\<close>

section \<open>Comments\<close>

definition RE_PATTERN_TODO :: re where
  \<open>RE_PATTERN_TODO = rx ''^//(`s*)TODO(`(.+?`))?:?(`s|$)?''\<close>

text \<open>The constant \<open>string.whitespace\<close>.\<close>

definition whitespace :: string where
  "whitespace = [CHR 0x20, CHR 0x09, CHR 0x0A, CHR 0x0D, CHR 0x0B, CHR 0x0C]"

definition todo_reports :: "string \<Rightarrow> nat \<Rightarrow> string \<Rightarrow> report list" where
  \<open>todo_reports filename linenum comment =
     (case re_match RE_PATTERN_TODO comment of
        None \<Rightarrow> []
      | Some m \<Rightarrow>
        report_if (length (gtext m 1) > 1)
          (Report filename (int linenum) ''whitespace/todo'' 2 ''Too many spaces before TODO'') @
        report_if (\<not> has_text (group m 2))
          (Report filename (int linenum) ''readability/todo'' 2
            (''Missing username in TODO; it should look like '' @
             ''"// TODO(my_username): Stuff."'')) @
        report_if (group m 3 \<noteq> Some '' '' \<and> group m 3 \<noteq> Some [])
          (Report filename (int linenum) ''whitespace/todo'' 2
            ''TODO(my_username) should be followed by a space''))\<close>

definition CheckComment :: "string \<Rightarrow> string \<Rightarrow> nat \<Rightarrow> nat \<Rightarrow> report list" where
  \<open>CheckComment line filename linenum next_line_start =
     (case find_idx ''//'' line of
        None \<Rightarrow> []
      | Some commentpos \<Rightarrow>
        if str_count [dquote] (re_sub (rx ''``.'') (\<lambda>_. []) (take commentpos line)) mod 2 = 0
        then
          report_if (\<not> (matched (Match (rx ''^.*{ *//'') line) \<and> next_line_start = commentpos) \<and>
              (commentpos \<ge> 1 \<and> line ! (commentpos - 1) \<notin> set whitespace \<or>
               commentpos \<ge> 2 \<and> line ! (commentpos - 2) \<notin> set whitespace))
            (Report filename (int linenum) ''whitespace/comments'' 2
              ''At least two spaces is best between code and comments'') @
          todo_reports filename linenum (drop commentpos line) @
          report_if (matched (Match (rx ''//[^ ]*`w'') (drop commentpos line)) \<and>
              \<not> matched (Match (rx ''(///|//`!)(`s+|$)'') (drop commentpos line)))
            (Report filename (int linenum) ''whitespace/comments'' 4
              ''Should have a space between // and comment'')
        else [])\<close>

section \<open>Blank lines, brackets and range-based for\<close>

text \<open>The loop that goes up over the lines of an initializer list; \<open>n\<close> is \<open>search_position + 1\<close>.\<close>

fun above_initializers :: "string list \<Rightarrow> nat \<Rightarrow> nat option" where
  \<open>above_initializers els 0 = None\<close>
| \<open>above_initializers els (Suc i) =
     (if matched (Match (rx '' {6}`w'') (els ! i)) then above_initializers els i else Some i)\<close>

definition blank_line_exception :: "string list \<Rightarrow> nat \<Rightarrow> string \<Rightarrow> bool" where
  \<open>blank_line_exception els linenum prev_line =
     (if matched (Match (rx '' {6}`w'') prev_line)
      then (case above_initializers els (linenum - 1) of
              None \<Rightarrow> False | Some i \<Rightarrow> take 5 (els ! i) = ''    :'')
      else matched (Match (rx '' {4}`w[^`(]*`)`s*(const`s*)?(`{`s*$|:)'') prev_line) \<or>
           matched (Match (rx '' {4}:'') prev_line))\<close>

definition opens_block :: "string \<Rightarrow> bool" where
  "opens_block prev_line =
     (case rfind_char CHR ''{'' prev_line of
        None \<Rightarrow> False | Some prevbrace \<Rightarrow> \<not> contains ''}'' (drop prevbrace prev_line))"

definition blank_line_reports ::
  "string \<Rightarrow> CleansedLines \<Rightarrow> nat \<Rightarrow> report list res" where
  \<open>blank_line_reports filename clean_lines linenum =
     bind_res (py_nth (elided clean_lines) (int linenum - 1)) (\<lambda>prev_line.
     bind_res (if linenum + 1 < NumLines clean_lines
               then bind_res (py_nth (lines_without_raw_strings clean_lines) (int linenum + 1)) (\<lambda>next_line.
                 Inr (report_if (next_line \<noteq> [] \<and> matched (Match (rx ''`s*}'') next_line) \<and>
                     \<not> contains ''} else '' next_line)
                   (Report filename (int linenum) ''whitespace/blank_line'' 3
                     (''Redundant blank line at the end of a code block '' @ ''should be deleted.''))))
               else Inr []) (\<lambda>block_end. Inr (
       report_if (opens_block prev_line \<and>
           \<not> blank_line_exception (elided clean_lines) linenum prev_line)
         (Report filename (int linenum) ''whitespace/blank_line'' 2
           (''Redundant blank line at the start of a code block '' @ ''should be deleted.'')) @
       block_end @
       (case Match (rx ''`s*(public|protected|private):'') prev_line of
          Some m \<Rightarrow> [Report filename (int linenum) ''whitespace/blank_line'' 3
            (''Do not leave a blank line after "'' @ gtext m 1 @ '':"'')]
        | None \<Rightarrow> []))))\<close>

definition CheckSpacing ::
  "string \<Rightarrow> CleansedLines \<Rightarrow> nat \<Rightarrow> NestingState \<Rightarrow> report list res" where
  \<open>CheckSpacing filename clean_lines linenum nesting_state =
     bind_res (py_nth (lines_without_raw_strings clean_lines) (int linenum)) (\<lambda>line.
     bind_res (if IsBlankLine line \<and> \<not> InNamespaceBody nesting_state \<and> \<not> InExternC nesting_state
               then blank_line_reports filename clean_lines linenum else Inr []) (\<lambda>blanks.
     bind_res (if linenum + 1 < NumLines clean_lines
               then bind_res (py_nth (lines_without_raw_strings clean_lines) (int linenum + 1))
                 (\<lambda>next_line. Inr (length next_line - length (lstrip next_line)))
               else Inr 0) (\<lambda>next_line_start.
     bind_res (py_nth (elided clean_lines) (int linenum)) (\<lambda>el. Inr (
       blanks @
       CheckComment line filename linenum next_line_start @
       report_if (matched (Search (rx ''`w`s+`['') el) \<and>
           \<not> matched (Search (rx ''(?:auto&?|delete|return)`s+`['') el))
         (Report filename (int linenum) ''whitespace/braces'' 5 ''Extra space before ['') @
       report_if (matched (Search (rx ''for *`(.*[^:]:[^: ]'') el) \<or>
           matched (Search (rx ''for *`(.*[^: ]:[^:]'') el))
         (Report filename (int linenum) ''whitespace/forcolon'' 2
           ''Missing space around colon in range-based for loop''))))))\<close>

section \<open>Operators\<close>

definition operator_name_re :: re where
  \<open>operator_name_re = rx ''^(.*`boperator`b)(`S+)(`s*`(.*)$''\<close>

lemma rx_operator_name [rx_code]:
  "operator_name_re = Seq Bol (Seq (Grp 1 (Seq (Rep True 0 None Any) (Seq (WordB True)
      (lits ''operator'' (WordB True)))))
      (Seq (Grp 2 (Rep True 1 None (Cls True [CSpace False])))
        (Seq (Grp 3 (Seq (Rep True 0 None (Cls True [CSpace True]))
          (Seq (Lit CHR ''('') (Rep True 0 None Any)))) Eol)))"
  by code_simp

text \<open>The name of the operator is not empty and starts with a character that is not part of a word:
  the word boundary before it demands that.\<close>

lemma operator_word_end:
  assumes "x1 \<in> set (matches (Seq (Rep True 0 None Any) (Seq (WordB True) (lits ''operator'' (WordB True)))) x)"
    and "rest x1 = c # cs"
  shows "\<not> is_word c"
proof -
  from assms(1) obtain x0 where x0: "x1 \<in> set (matches (lits ''operator'' (WordB True)) x0)"
    by (auto simp only: in_matches)
  then have "prefix ''operator'' (rest x0)" "x1 = adv 8 x0" "at_word_boundary x1"
    by (auto simp: matches_lits eval_nat_numeral simp del: lits.simps split: if_splits)
  moreover from this have "prv x1 = Some CHR ''r''"
    by (auto simp: adv_def prefix_def eval_nat_numeral)
  moreover have "is_word CHR ''r''" by code_simp
  ultimately show ?thesis using assms(2) by (simp add: at_word_boundary_def)
qed

lemma operator_name_groups:
  assumes "Match operator_name_re line = Some m"
  obtains c b d where "line = gtext m 1 @ gtext m 2 @ gtext m 3 @ d" "gtext m 2 = c # b" "c \<noteq> CHR ''_''"
proof -
  obtain y where y: "y \<in> set (matches operator_name_re (init line))" "m = mk_mobj (init line) y"
    using assms by (auto simp: Match_def re_match_def dest: run_matches)
  define r1 where "r1 = Seq (Rep True 0 None Any) (Seq (WordB True) (lits ''operator'' (WordB True)))"
  define r3 where "r3 = Seq (Rep True 0 None (Cls True [CSpace True]))
      (Seq (Lit CHR ''('') (Rep True 0 None Any))"
  from y(1) obtain x1 x2 x3 where
    x: "x1 \<in> set (matches r1 (init line))"
      "x2 \<in> set (matches (Rep True 1 None (Cls True [CSpace False])) (capture 1 (init line) x1))"
      "x3 \<in> set (matches r3 (capture 2 (capture 1 (init line) x1) x2))"
    and y': "y = capture 3 (capture 2 (capture 1 (init line) x1) x2) x3"
    unfolding rx_operator_name r1_def [symmetric] r3_def [symmetric] by (auto simp only: in_matches)
  obtain a where a: "line = a @ rest x1" "pos x1 = length a"
    using matches_advances [OF x(1)] by (auto simp: advances_def)
  obtain u where u: "rest x1 = u @ rest x2" "pos x2 = pos x1 + length u"
    using matches_advances [OF x(2)] by (auto simp: advances_def)
  obtain t where t: "rest x2 = t @ rest x3" "pos x3 = pos x2 + length t"
    using matches_advances [OF x(3)] by (auto simp: advances_def)
  have "grp x1 = []" "grp x2 = grp (capture 1 (init line) x1)"
      "grp x3 = grp (capture 2 (capture 1 (init line) x1) x2)"
    using matches_grp [OF _ x(1)] matches_grp [OF _ x(2)] matches_grp [OF _ x(3)]
    by (simp_all add: r1_def r3_def)
  then have "m_groups m = [(3, pos x2, t), (2, pos x1, u), (1, 0, a)]"
    using a u t by (simp add: y(2) y' mk_mobj_def)
  then have g: "gtext m 1 = a" "gtext m 2 = u" "gtext m 3 = t"
    by (simp_all add: gtext_def group_def)
  have "u \<noteq> []" using matches_minlen [OF x(2)] u(2) by auto
  then obtain c b where c: "u = c # b" by (cases u) auto
  moreover have "is_word CHR ''_''" by code_simp
  ultimately have "c \<noteq> CHR ''_''" using operator_word_end [OF x(1) [unfolded r1_def]] u(1) by auto
  then show ?thesis using that [of "rest x3" c b, unfolded g] a(1) u(1) t(1) c by simp
qed

text \<open>The loop that masks the names of operators; each round leaves fewer characters that are not
  underscores.\<close>

function mask_operators :: "string \<Rightarrow> string" where
  "mask_operators line =
     (case Match operator_name_re line of
        Some m \<Rightarrow> mask_operators (gtext m 1 @ replicate (length (gtext m 2)) CHR ''_'' @ gtext m 3)
      | None \<Rightarrow> line)"
  by pat_completeness auto
termination
proof (relation "measure (\<lambda>line. length (filter (\<lambda>c. c \<noteq> CHR ''_'') line))", goal_cases)
  case (2 line m)
  obtain c b d where l: "line = gtext m 1 @ gtext m 2 @ gtext m 3 @ d" "gtext m 2 = c # b" "c \<noteq> CHR ''_''"
    using operator_name_groups [OF 2] .
  have "filter (\<lambda>c. c \<noteq> CHR ''_'') (replicate n CHR ''_'') = []" for n
    by (simp add: filter_empty_conv)
  moreover have "length (filter (\<lambda>c. c \<noteq> CHR ''_'') line) = length (filter (\<lambda>c. c \<noteq> CHR ''_'')
      (gtext m 1 @ gtext m 2 @ gtext m 3 @ d))"
    by (rule arg_cong [OF l(1)])
  ultimately show ?case using l(2,3) by simp
qed simp

declare mask_operators.simps [simp del]

text \<open>\<open>str.isdigit\<close>, on the characters up to 255.\<close>

definition isdigit :: "string \<Rightarrow> bool" where
  "isdigit s \<longleftrightarrow> s \<noteq> [] \<and>
     list_all (\<lambda>c. is_digit c \<or> c \<in> set [CHR 0xB2, CHR 0xB3, CHR 0xB9]) s"

definition angle_reports ::
  "string \<Rightarrow> CleansedLines \<Rightarrow> nat \<Rightarrow> string \<Rightarrow> report list res" where
  \<open>angle_reports filename clean_lines linenum line =
     (let missing = (\<lambda>e. Report filename (int linenum) ''whitespace/operators'' 3
        (''Missing spaces around '' @ e))
      in case Search (rx ''[^<>=!`s](==|!=|<=|>=|`|`|)[^<>=!`s,;`)]'') line of
           Some m \<Rightarrow> Inr [missing (gtext m 1)]
         | None \<Rightarrow>
           if matched (Match (rx ''#.*include'') line) then Inr []
           else
             bind_res (case Match (rx ''^(.*[^`s<])<[^`s=<,]'') line of
                 None \<Rightarrow> Inr []
               | Some m \<Rightarrow> bind_res (CloseExpression clean_lines linenum (length (gtext m 1)))
                   (\<lambda>(l, n, end_pos). Inr (report_if (end_pos = None) (missing ''<'')))) (\<lambda>less.
             bind_res (case Match (rx ''^(.*[^-`s>])>[^`s=>,]'') line of
                 None \<Rightarrow> Inr []
               | Some m \<Rightarrow> bind_res (ReverseCloseExpression clean_lines linenum (length (gtext m 1)))
                   (\<lambda>(l, n, start_pos). Inr (report_if (start_pos = None) (missing ''>'')))) (\<lambda>greater.
             Inr (less @ greater))))\<close>

definition CheckOperatorSpacing :: "string \<Rightarrow> CleansedLines \<Rightarrow> nat \<Rightarrow> report list res" where
  \<open>CheckOperatorSpacing filename clean_lines linenum =
     bind_res (py_nth (elided clean_lines) (int linenum)) (\<lambda>elided_line.
       let line = mask_operators elided_line in
       bind_res (angle_reports filename clean_lines linenum line) (\<lambda>angles. Inr (
         report_if ((matched (Search (rx ''[`w.]='') line) \<or> matched (Search (rx ''=[`w.]'') line)) \<and>
             \<not> matched (Search (rx ''`b(if|while|for) '') line) \<and>
             \<not> matched (Search (rx ''(>=|<=|==|!=|&=|`^=|`|=|`+=|`*=|`/=|`%=)'') line) \<and>
             \<not> matched (Search (rx ''operator='') line))
           (Report filename (int linenum) ''whitespace/operators'' 4 ''Missing spaces around ='') @
         angles @
         (case Search (rx ''(operator|[^`s(<])(?:L|UL|LL|ULL|l|ul|ll|ull)?<<([^`s,=<])'') line of
            None \<Rightarrow> []
          | Some m \<Rightarrow> report_if (\<not> (isdigit (gtext m 1) \<and> isdigit (gtext m 2)) \<and>
                \<not> (gtext m 1 = ''operator'' \<and> gtext m 2 = '';''))
              (Report filename (int linenum) ''whitespace/operators'' 3 ''Missing spaces around <<'')) @
         report_if (matched (Search (rx ''>>[a-zA-Z_]'') line))
           (Report filename (int linenum) ''whitespace/operators'' 3 ''Missing spaces around >>'') @
         (case Search (rx ''(!`s|~`s|[`s]--[`s;]|[`s]`+`+[`s;])'') line of
            None \<Rightarrow> []
          | Some m \<Rightarrow> [Report filename (int linenum) ''whitespace/operators'' 4
              (''Extra space for operator '' @ gtext m 1)]))))\<close>

section \<open>Parentheses and commas\<close>

definition CheckParenthesisSpacing :: "string \<Rightarrow> CleansedLines \<Rightarrow> nat \<Rightarrow> report list res" where
  \<open>CheckParenthesisSpacing filename clean_lines linenum =
     bind_res (py_nth (elided clean_lines) (int linenum)) (\<lambda>line. Inr (
       (case Search (rx '' (if`(|for`(|while`(|switch`()'') line of
          None \<Rightarrow> []
        | Some m \<Rightarrow> [Report filename (int linenum) ''whitespace/parens'' 5
            (''Missing space before ( in '' @ gtext m 1)]) @
       (case Search (rx (''`b(if|for|while|switch)`s*'' @
                ''`(([ ]*)(.).*[^ ]+([ ]*)`)`s*{`s*$'')) line of
          None \<Rightarrow> []
        | Some m \<Rightarrow>
          report_if (length (gtext m 2) \<noteq> length (gtext m 4) \<and>
              \<not> (gtext m 3 = '';'' \<and> length (gtext m 2) = 1 + length (gtext m 4) \<or>
                 gtext m 2 = [] \<and> matched (Search (rx ''`bfor`s*`(.*; `)'') line)))
            (Report filename (int linenum) ''whitespace/parens'' 5
              (''Mismatching spaces inside () in '' @ gtext m 1)) @
          report_if (length (gtext m 2) \<notin> {0, 1})
            (Report filename (int linenum) ''whitespace/parens'' 5
              (''Should have zero or one spaces inside ( and ) in '' @ gtext m 1)))))\<close>

definition CheckCommaSpacing :: "string \<Rightarrow> CleansedLines \<Rightarrow> nat \<Rightarrow> report list res" where
  \<open>CheckCommaSpacing filename clean_lines linenum =
     bind_res (py_nth (elided clean_lines) (int linenum)) (\<lambda>line.
     bind_res (if matched (Search (rx '',[^,`s]'') (ReplaceAll (rx ''`boperator`s*,`s*`('') ''F('' line))
               then bind_res (py_nth (lines_without_raw_strings clean_lines) (int linenum)) (\<lambda>raw_line.
                 Inr (matched (Search (rx '',[^,`s]'') raw_line)))
               else Inr False) (\<lambda>comma. Inr (
       report_if comma
         (Report filename (int linenum) ''whitespace/comma'' 3 ''Missing space after ,'') @
       report_if (matched (Search (rx '';[^`s};``)/]'') line))
         (Report filename (int linenum) ''whitespace/semicolon'' 3 ''Missing space after ;''))))\<close>

section \<open>Braces\<close>

definition TYPES :: re where
  \<open>TYPES = rx (''^(?:'' @
     ''(char(16_t|32_t)?)|wchar_t|'' @
     ''bool|short|int|long|signed|unsigned|float|double|'' @
     ''(ptrdiff_t|size_t|max_align_t|nullptr_t)|'' @
     ''(u?int(_fast|_least)?(8|16|32|64)_t)|'' @
     ''(u?int(max|ptr)_t)|'' @
     '')$'')\<close>

text \<open>The inner loop of \<open>_IsType\<close> goes up from the last line of a block head to the start of the
  enclosing block; \<open>n\<close> is \<open>first_line + 1\<close>.\<close>

fun template_line :: "string list \<Rightarrow> nat \<Rightarrow> nat \<Rightarrow> nat option res" where
  "template_line els next_block_start 0 = Inr None"
| "template_line els next_block_start (Suc first_line) =
     (if first_line < next_block_start then Inr None
      else bind_res (py_nth els (int first_line)) (\<lambda>l.
        if contains ''template'' l then Inr (Some first_line)
        else template_line els next_block_start first_line))"

text \<open>The loop over the stack, from the innermost block outwards.\<close>

fun typename_in_blocks :: "string list \<Rightarrow> re \<Rightarrow> BlockInfo list \<Rightarrow> bool res" where
  "typename_in_blocks els typename_pattern [] = Inr False"
| "typename_in_blocks els typename_pattern (b # bs) =
     (if is_namespace (kind b) then Inr False
      else let last_line = starting_linenum b;
               next_block_start = (case bs of [] \<Rightarrow> 0 | b' # _ \<Rightarrow> starting_linenum b')
           in bind_res (template_line els next_block_start (Suc last_line)) (\<lambda>t.
                case t of
                  None \<Rightarrow> typename_in_blocks els typename_pattern bs
                | Some first_line \<Rightarrow>
                    if list_ex (\<lambda>l. matched (Search typename_pattern l)) (slice first_line (last_line + 1) els)
                    then Inr True
                    else typename_in_blocks els typename_pattern bs))"

definition IsType :: "CleansedLines \<Rightarrow> NestingState \<Rightarrow> string \<Rightarrow> bool res" where
  \<open>IsType clean_lines nesting_state expr =
     (let token = (case Match (rx ''^.*(`b`S+)$'') expr of Some m \<Rightarrow> gtext m 1 | None \<Rightarrow> expr)
      in if matched (re_match TYPES token) then Inr True
         else typename_in_blocks (elided clean_lines)
           (rx_text ''`b(?:typename|class|struct)`s+'' (re_escape token) ''`b'')
           (stack nesting_state))\<close>

text \<open>The text after the brace that closes the one at \<open>p\<close>, with up to two more lines.\<close>

definition trailing_text :: "CleansedLines \<Rightarrow> nat \<Rightarrow> nat \<Rightarrow> string res" where
  "trailing_text clean_lines linenum p =
     bind_res (CloseExpression clean_lines linenum p) (\<lambda>(endline, endlinenum, endpos).
     bind_res (map_res (\<lambda>i. py_nth (elided clean_lines) (int i))
       [endlinenum + 1..<min (endlinenum + 3) (NumLines clean_lines - 1)]) (\<lambda>following.
       Inr ((case endpos of None \<Rightarrow> [] | Some e \<Rightarrow> drop e endline) @ concat following)))"

definition CheckBracesSpacing ::
  "string \<Rightarrow> CleansedLines \<Rightarrow> nat \<Rightarrow> NestingState \<Rightarrow> report list res" where
  \<open>CheckBracesSpacing filename clean_lines linenum nesting_state =
     bind_res (py_nth (elided clean_lines) (int linenum)) (\<lambda>line.
     bind_res (case Match (rx ''^(.*[^ ({>]){'') line of
         None \<Rightarrow> Inr False
       | Some m \<Rightarrow>
           bind_res (trailing_text clean_lines linenum (length (gtext m 1))) (\<lambda>trailing.
             if matched (Match (rx ''^[`s}]*[{.;,)<>`]:]'') trailing) then Inr False
             else bind_res (IsType clean_lines nesting_state (gtext m 1)) (\<lambda>b. Inr (\<not> b))))
       (\<lambda>missing. Inr (
         report_if missing
           (Report filename (int linenum) ''whitespace/braces'' 5 ''Missing space before {'') @
         report_if (matched (Search (rx ''}else'') line))
           (Report filename (int linenum) ''whitespace/braces'' 5 ''Missing space before else'') @
         (if matched (Search (rx '':`s*;`s*$'') line)
          then [Report filename (int linenum) ''whitespace/semicolon'' 5
            ''Semicolon defining empty statement. Use {} instead.'']
          else if matched (Search (rx ''^`s*;`s*$'') line)
          then [Report filename (int linenum) ''whitespace/semicolon'' 5
            (''Line contains only semicolon. If this should be an empty statement, '' @
             ''use {} instead.'')]
          else report_if (matched (Search (rx ''`s+;`s*$'') line) \<and> \<not> matched (Search (rx ''`bfor`b'') line))
            (Report filename (int linenum) ''whitespace/semicolon'' 5
              (''Extra space before last semicolon. If this should be an empty '' @
               ''statement, use {} instead.''))))))\<close>

definition IsDecltype :: "CleansedLines \<Rightarrow> nat \<Rightarrow> nat \<Rightarrow> bool res" where
  \<open>IsDecltype clean_lines linenum column =
     bind_res (ReverseCloseExpression clean_lines linenum column) (\<lambda>(txt, n, start_col). Inr (
       case start_col of
         None \<Rightarrow> False
       | Some s \<Rightarrow> matched (Search (rx ''`bdecltype`s*$'') (take s txt))))\<close>

section \<open>Sections of a class\<close>

definition CheckSectionSpacing ::
  "string \<Rightarrow> CleansedLines \<Rightarrow> BlockInfo \<Rightarrow> class_info \<Rightarrow> nat \<Rightarrow> report list res" where
  \<open>CheckSectionSpacing filename clean_lines b c linenum =
     (if int (last_line c) - int (starting_linenum b) \<le> 24 \<or> linenum \<le> starting_linenum b then Inr []
      else bind_res (py_nth (lines clean_lines) (int linenum)) (\<lambda>line.
        case Match (rx ''`s*(public|protected|private):'') line of
          None \<Rightarrow> Inr []
        | Some m \<Rightarrow>
          bind_res (py_nth (lines clean_lines) (int linenum - 1)) (\<lambda>prev_line.
            if \<not> IsBlankLine prev_line \<and>
               \<not> matched (Search (rx ''`b(class|struct)`b'') prev_line) \<and>
               \<not> matched (Search (rx ''``$'') prev_line)
            then let end_class_head =
                   (case find (\<lambda>i. matched (Search (rx ''`{`s*$'') (lines clean_lines ! i)))
                          [starting_linenum b..<linenum] of
                      Some i \<Rightarrow> i | None \<Rightarrow> starting_linenum b)
                 in Inr (report_if (int end_class_head < int linenum - 1)
                   (Report filename (int linenum) ''whitespace/blank_line'' 3
                     ([dquote] @ gtext m 1 @ '':" should be preceded by a blank line'')))
            else Inr [])))\<close>

fun GetPreviousNonBlankLine :: "CleansedLines \<Rightarrow> nat \<Rightarrow> (string \<times> int) res" where
  "GetPreviousNonBlankLine clean_lines 0 = Inr ([], - 1)"
| "GetPreviousNonBlankLine clean_lines (Suc prevlinenum) =
     bind_res (py_nth (elided clean_lines) (int prevlinenum)) (\<lambda>prevline.
       if \<not> IsBlankLine prevline then Inr (prevline, int prevlinenum)
       else GetPreviousNonBlankLine clean_lines prevlinenum)"

end
