(* ===== verification/Style_Checks.thy ===== *)
theory Style_Checks
  imports Spacing_Checks
begin

text \<open>
  The checks behind \<open>CheckStyle\<close>: braces and single-statement bodies, semicolons after a block,
  empty bodies, CHECK macros, alternative tokens, indentation and line length. \<open>CheckStyle\<close> runs
  them and the checks of white space on a line.
\<close>

section \<open>Braces\<close>

text \<open>\<open>line[p:]\<close> for a position that may be -1: the last character.\<close>

definition from_pos :: "nat option \<Rightarrow> string \<Rightarrow> string" where
  "from_pos p line = (case p of Some k \<Rightarrow> drop k line | None \<Rightarrow> drop (length line - 1) line)"

text \<open>The width of a line in columns. None of the characters up to 255 is wide, combining, or
  changed by the normal form NFC, so each counts as one.\<close>

definition GetLineWidth :: "string \<Rightarrow> nat" where
  "GetLineWidth line = length line"

definition braces_on_own_line :: "int \<Rightarrow> string \<Rightarrow> CleansedLines \<Rightarrow> nat \<Rightarrow> string \<Rightarrow> report list res" where
  \<open>braces_on_own_line max_length filename clean_lines linenum line =
     bind_res (GetPreviousNonBlankLine clean_lines linenum) (\<lambda>(prevline, n). Inr (
       report_if (matched (Match (rx ''`s*{`s*$'') line) \<and>
           \<not> matched (Search (rx ''[,;:}{(]`s*$'') prevline) \<and>
           \<not> matched (Match (rx ''`s*#'') prevline) \<and>
           \<not> (int (GetLineWidth prevline) > max_length - 2 \<and> contains ''[]'' prevline))
         (Report filename (int linenum) ''whitespace/braces'' 4
           ''{ should almost always be at the end of the previous line'') @
       report_if (matched (Match (rx ''`s*else`b`s*(?:if`b|`{|$)'') line) \<and>
           matched (Match (rx ''`s*}`s*$'') prevline))
         (Report filename (int linenum) ''whitespace/newline'' 4
           ''An else should appear on the same line as the preceding }'')))\<close>

definition else_braces :: "string \<Rightarrow> CleansedLines \<Rightarrow> nat \<Rightarrow> string \<Rightarrow> report list res" where
  \<open>else_braces filename clean_lines linenum line =
     (let one_side = Report filename (int linenum) ''readability/braces'' 5
        ''If an else has a brace on one side, it should have it on both''
      in if matched (Search (rx ''else if`s*`('') line)
         then let brace_on_left = matched (Search (rx ''}`s*else if`s*`('') line)
              in case find_idx ''else if'' line of
                   None \<Rightarrow> Inr []
                 | Some p \<Rightarrow>
                   (case find_from ''('' line p of
                      None \<Rightarrow> Inr []
                    | Some q \<Rightarrow>
                      if q > 0 then
                        bind_res (CloseExpression clean_lines linenum q) (\<lambda>(endline, n, endpos).
                          let brace_on_right = contains ''{'' (from_pos endpos endline)
                          in Inr (report_if (brace_on_left \<noteq> brace_on_right) one_side))
                      else Inr [])
         else Inr (report_if (matched (Search (rx ''}`s*else[^{]*$'') line) \<or>
                matched (Match (rx ''[^}]*else`s*{'') line)) one_side))\<close>

text \<open>The loop that looks for the line with the first semicolon at or after a position.\<close>

fun semicolon_line :: "string list \<Rightarrow> nat \<Rightarrow> nat \<Rightarrow> nat option" where
  "semicolon_line [] endlinenum endpos = None"
| "semicolon_line (l # ls) endlinenum endpos =
     (if contains '';'' (drop endpos l) then Some endlinenum
      else semicolon_line ls (endlinenum + 1) 0)"

definition body_reports ::
  "string \<Rightarrow> string list \<Rightarrow> nat \<Rightarrow> string \<Rightarrow> bool \<Rightarrow> nat \<Rightarrow> report list" where
  \<open>body_reports filename els linenum line has_if endlinenum =
     (let endline = els ! endlinenum;
          endpos = (case find_idx '';'' endline of Some p \<Rightarrow> p | None \<Rightarrow> length endline - 1);
          multiple = Report filename (int linenum) ''readability/braces'' 4
            ''If/else bodies with multiple statements require braces''
      in if \<not> matched (Match (rx '';[`s}]*(``?)$'') (drop endpos endline))
         then report_if (\<not> matched (Match (rx ''^[^{};]*`[[^`[`]]*`][^{}]*`{[^{}]*`}`s*`)*[;,]`s*$'') endline))
           multiple
         else if endlinenum < length els - 1
         then let next_line = els ! (endlinenum + 1);
                  next_indent = GetIndentLevel next_line;
                  if_indent = GetIndentLevel line
              in if has_if \<and> matched (Match (rx ''`s*else`b'') next_line) \<and> next_indent \<noteq> if_indent
                 then [Report filename (int linenum) ''readability/braces'' 4
                   (''Else clause should be indented at the same level as if. '' @
                    ''Ambiguous nested if/else chains require braces.'')]
                 else report_if (next_indent > if_indent) multiple
         else [])\<close>

definition single_statement :: "string \<Rightarrow> CleansedLines \<Rightarrow> nat \<Rightarrow> string \<Rightarrow> report list res" where
  \<open>single_statement filename clean_lines linenum line =
     (case Search (rx ''`b(if`s*`(|else`b)'') line of
        None \<Rightarrow> Inr []
      | Some if_else_match \<Rightarrow>
        if matched (Match (rx ''`s*#'') line) then Inr []
        else
          let if_match = Search (rx ''`bif`s*`('') line; els = elided clean_lines
          in bind_res (case if_match of
                 None \<Rightarrow> Inr (line, linenum, Some (m_end if_else_match))
               | Some m \<Rightarrow> CloseExpression clean_lines linenum (m_end m - 1))
               (\<lambda>(endline, endlinenum, endpos).
                 let after = from_pos endpos endline
                 in if matched (Match (rx ''`s*{'') after) \<or>
                       (matched (Match (rx ''`s*$'') after) \<and> endlinenum < length els - 1 \<and>
                        matched (Match (rx ''`s*{'') (els ! (endlinenum + 1))))
                    then Inr []
                    else case semicolon_line (drop endlinenum els) endlinenum
                                (case endpos of Some p \<Rightarrow> p | None \<Rightarrow> 0) of
                           None \<Rightarrow> Inr []
                         | Some n \<Rightarrow> Inr (body_reports filename els linenum line (matched if_match) n)))\<close>

definition CheckBraces :: "int \<Rightarrow> string \<Rightarrow> CleansedLines \<Rightarrow> nat \<Rightarrow> report list res" where
  \<open>CheckBraces max_length filename clean_lines linenum =
     bind_res (py_nth (elided clean_lines) (int linenum)) (\<lambda>line.
     bind_res (braces_on_own_line max_length filename clean_lines linenum line) (\<lambda>own_line.
     bind_res (else_braces filename clean_lines linenum line) (\<lambda>else_rs.
     bind_res (single_statement filename clean_lines linenum line) (\<lambda>single. Inr (
       own_line @ else_rs @
       report_if (matched (Search (rx ''`belse [^`s{]'') line) \<and>
           \<not> matched (Search (rx ''`belse if`b'') line))
         (Report filename (int linenum) ''whitespace/newline'' 4
           ''Else clause should never be on same line as else (use 2 lines)'') @
       report_if (matched (Match (rx ''`s*do [^`s{]'') line))
         (Report filename (int linenum) ''whitespace/newline'' 4
           ''do/while clauses should not be on a single line'') @
       single)))))\<close>

section \<open>Semicolons after blocks\<close>

definition safe_macros :: "string list" where
  "safe_macros = [''TEST'', ''TEST_F'', ''MATCHER'', ''MATCHER_P'', ''TYPED_TEST'',
     ''EXCLUSIVE_LOCKS_REQUIRED'', ''SHARED_LOCKS_REQUIRED'',
     ''LOCKS_EXCLUDED'', ''INTERFACE_DEF'']"

text \<open>Whether the text before the parentheses in front of a brace rules out the check.\<close>

definition not_a_block :: "string \<Rightarrow> bool" where
  \<open>not_a_block line_prefix \<longleftrightarrow>
     (case Search (rx ''`b([A-Z_][A-Z0-9_]*)`s*$'') line_prefix of
        Some macro \<Rightarrow> gtext macro 1 \<notin> set safe_macros | None \<Rightarrow> False) \<or>
     (case Match (rx ''^(.*`])`s*$'') line_prefix of
        Some func \<Rightarrow> \<not> matched (Search (rx ''`boperator`s*`[`s*`]'') (gtext func 1)) | None \<Rightarrow> False) \<or>
     matched (Search (rx ''`b(?:struct|union)`s+alignas`s*$'') line_prefix) \<or>
     matched (Search (rx ''`bdecltype$'') line_prefix) \<or>
     matched (Search (rx ''`s+=`s*$'') line_prefix)\<close>

text \<open>The position of the brace to check, if one of the cases applies.\<close>

definition block_brace :: "CleansedLines \<Rightarrow> nat \<Rightarrow> string \<Rightarrow> nat option res" where
  \<open>block_brace clean_lines linenum line =
     (case Match (rx ''^(.*`)`s*)`{'') line of
        Some m \<Rightarrow>
          (case rfind_char CHR '')'' (gtext m 1) of
             None \<Rightarrow> Inr None
           | Some closing_brace_pos \<Rightarrow>
             bind_res (ReverseCloseExpression clean_lines linenum closing_brace_pos) (\<lambda>(l, n, p).
               if (case p of None \<Rightarrow> False | Some q \<Rightarrow> not_a_block (take q l)) then Inr None
               else if n > 1 then
                 bind_res (py_nth (elided clean_lines) (int n - 1)) (\<lambda>above.
                   Inr (if matched (Search (rx ''`]`s*$'') above) then None else Some (length (gtext m 1))))
               else Inr (Some (length (gtext m 1)))))
      | None \<Rightarrow>
          (case Match (rx ''^(.*(?:else|`)`s*const)`s*)`{'') line of
             Some m \<Rightarrow> Inr (Some (length (gtext m 1)))
           | None \<Rightarrow>
             bind_res (GetPreviousNonBlankLine clean_lines linenum) (\<lambda>(prevline, n). Inr (
               if prevline \<noteq> [] \<and> matched (Search (rx ''[;{}]`s*$'') prevline)
               then map_option (\<lambda>m. length (gtext m 1)) (Match (rx ''^(`s*)`{'') line)
               else None))))\<close>

definition CheckTrailingSemicolon :: "string \<Rightarrow> CleansedLines \<Rightarrow> nat \<Rightarrow> event list res" where
  \<open>CheckTrailingSemicolon filename clean_lines linenum =
     bind_res (py_nth (elided clean_lines) (int linenum)) (\<lambda>line.
     bind_res (block_brace clean_lines linenum line) (\<lambda>brace.
       case brace of
         None \<Rightarrow> Inr []
       | Some b \<Rightarrow>
         bind_res (CloseExpression clean_lines linenum b) (\<lambda>(endline, endlinenum, endpos).
           case endpos of
             None \<Rightarrow> Inr []
           | Some e \<Rightarrow>
             if matched (Match (rx ''^`s*;'') (drop e endline)) then
               bind_res (py_nth (raw_lines clean_lines) (int endlinenum - 1)) (\<lambda>l1.
               bind_res (py_nth (raw_lines clean_lines) (int endlinenum)) (\<lambda>l2. Inr
                 [ReadNolint l1 (int endlinenum - 1), ReadNolint l2 (int endlinenum),
                  Err (Report filename (int endlinenum) ''readability/braces'' 4
                    ''You don't need a ; after a }'')]))
             else Inr [])))\<close>

section \<open>Empty bodies\<close>

definition EMPTY_CONDITIONAL_BODY_PATTERN :: re where
  \<open>EMPTY_CONDITIONAL_BODY_PATTERN = rx ''^`s*$''\<close>

text \<open>The loop that looks for the opening brace of a conditional: the text it is in and its line.
  The lists are the lines that follow.\<close>

fun find_opening :: "string \<Rightarrow> nat \<Rightarrow> string list \<Rightarrow> (string \<times> nat) option" where
  \<open>find_opening fragment n ls =
     (if matched (Search (rx ''^`s*`{'') fragment) then Some (fragment, n)
      else if matched (Search (rx ''^(?!`s*$)'') fragment) then None
      else case ls of [] \<Rightarrow> None | l # ls' \<Rightarrow> find_opening l (n + 1) ls')\<close>

text \<open>The loop that looks for an else clause.\<close>

fun no_else :: "string \<Rightarrow> string list \<Rightarrow> bool" where
  \<open>no_else fragment ls =
     (if matched (Search (rx ''^`s*$|^(?=`s*else)'') fragment)
      then if matched (Search (rx ''^(?=`s*else)'') fragment) then False
           else case ls of [] \<Rightarrow> True | l # ls' \<Rightarrow> no_else l ls'
      else True)\<close>

declare find_opening.simps [simp del] no_else.simps [simp del]

definition empty_if :: "CleansedLines \<Rightarrow> string \<Rightarrow> nat \<Rightarrow> nat \<Rightarrow> bool res" where
  "empty_if clean_lines end_line end_linenum end_pos =
     (case find_opening (drop end_pos end_line) end_linenum (drop (end_linenum + 1) (elided clean_lines)) of
        None \<Rightarrow> Inr False
      | Some (fragment, opening_linenum) \<Rightarrow>
        bind_res (py_nth (elided clean_lines) (int opening_linenum)) (\<lambda>opening_line.
        let opening_pos = (case find_idx ''{'' fragment of Some p \<Rightarrow> p | None \<Rightarrow> 0) +
              (if opening_linenum = end_linenum then end_pos else 0)
        in bind_res (CloseExpression clean_lines opening_linenum opening_pos)
          (\<lambda>(closing_line, closing_linenum, closing_pos).
            case closing_pos of
              None \<Rightarrow> Inr False
            | Some k \<Rightarrow>
              bind_res (py_nth (raw_lines clean_lines) (int opening_linenum)) (\<lambda>raw_line.
                if raw_line \<noteq> CleanseComments raw_line then Inr False
                else
                  let body =
                    (if closing_linenum > opening_linenum
                     then join [newline]
                       (map (\<lambda>c. [c]) (drop (opening_pos + 1) opening_line) @
                        slice (opening_linenum + 1) closing_linenum (raw_lines clean_lines) @
                        [take (k - 1) (elided clean_lines ! closing_linenum)])
                     else slice (opening_pos + 1) (k - 1) opening_line)
                  in Inr (matched (re_search EMPTY_CONDITIONAL_BODY_PATTERN body) \<and>
                       no_else (drop k closing_line) (drop (closing_linenum + 1) (elided clean_lines)))))))"

definition CheckEmptyBlockBody :: "string \<Rightarrow> CleansedLines \<Rightarrow> nat \<Rightarrow> report list res" where
  \<open>CheckEmptyBlockBody filename clean_lines linenum =
     bind_res (py_nth (elided clean_lines) (int linenum)) (\<lambda>line.
       case Match (rx ''`s*(for|while|if)`s*`('') line of
         None \<Rightarrow> Inr []
       | Some m \<Rightarrow>
         (case find_idx ''('' line of
            None \<Rightarrow> Inr []
          | Some p \<Rightarrow>
            bind_res (CloseExpression clean_lines linenum p) (\<lambda>(end_line, end_linenum, end_pos).
              case end_pos of
                None \<Rightarrow> Inr []
              | Some e \<Rightarrow>
                bind_res (if gtext m 1 = ''if'' then empty_if clean_lines end_line end_linenum e
                          else Inr False) (\<lambda>no_body. Inr (
                  report_if (matched (Match (rx '';'') (drop e end_line)))
                    (if gtext m 1 = ''if''
                     then Report filename (int end_linenum) ''whitespace/empty_conditional_body'' 5
                       ''Empty conditional bodies should use {}''
                     else Report filename (int end_linenum) ''whitespace/empty_loop_body'' 5
                       ''Empty loop bodies should use {} or continue'') @
                  report_if no_body
                    (Report filename (int end_linenum) ''whitespace/empty_if_body'' 4
                      ''If statement had no body and no else clause''))))))\<close>

section \<open>CHECK macros\<close>

definition CHECK_MACROS :: "string list" where
  "CHECK_MACROS = [''DCHECK'', ''CHECK'', ''EXPECT_TRUE'', ''ASSERT_TRUE'',
     ''EXPECT_FALSE'', ''ASSERT_FALSE'']"

definition CHECK_REPLACEMENT :: "(string \<times> string) \<rightharpoonup> string" where
  "CHECK_REPLACEMENT = map_of (
     concat (map (\<lambda>(op, replacement).
         [((''DCHECK'', op), ''DCHECK_'' @ replacement),
          ((''CHECK'', op), ''CHECK_'' @ replacement),
          ((''EXPECT_TRUE'', op), ''EXPECT_'' @ replacement),
          ((''ASSERT_TRUE'', op), ''ASSERT_'' @ replacement)])
       [(''=='', ''EQ''), (''!='', ''NE''), (''>='', ''GE''), (''>'', ''GT''), (''<='', ''LE''), (''<'', ''LT'')]) @
     concat (map (\<lambda>(op, inv_replacement).
         [((''EXPECT_FALSE'', op), ''EXPECT_'' @ inv_replacement),
          ((''ASSERT_FALSE'', op), ''ASSERT_'' @ inv_replacement)])
       [(''=='', ''NE''), (''!='', ''EQ''), (''>='', ''LT''), (''>'', ''LE''), (''<='', ''GT''), (''<'', ''GE'')]))"

fun find_check_macro :: "string list \<Rightarrow> string \<Rightarrow> (string \<times> nat) option" where
  \<open>find_check_macro [] line = None\<close>
| \<open>find_check_macro (macro # macros) line =
     (if contains macro line
      then (case Match (rx (''^(.*`b'' @ macro @ ''`s*)`('')) line of
              None \<Rightarrow> find_check_macro macros line
            | Some m \<Rightarrow> Some (macro, length (gtext m 1)))
      else find_check_macro macros line)\<close>

definition FindCheckMacro :: "string \<Rightarrow> (string \<times> nat) option" where
  "FindCheckMacro line = find_check_macro CHECK_MACROS line"

definition check_token_re :: re where
  \<open>check_token_re = rx (''^`s*(<<|<<=|>>|>>=|->`*|->|&&|`|`||'' @
     ''==|!=|>=|>|<=|<|`()(.*)$'')\<close>

definition check_operand_re :: re where
  \<open>check_operand_re = rx ''^([^-=!<>()&|]+)(.*)$''\<close>

definition check_char_re :: re where
  \<open>check_char_re = rx ''^(`s*`S)(.*)$''\<close>

lemma check_last_groups: "last_group check_token_re = Some (2, 1)"
    "last_group check_operand_re = Some (2, 1)" "last_group check_char_re = Some (2, 1)"
  by code_simp+

lemma check_texts:
  "Match check_token_re s = Some m \<Longrightarrow> length (gtext m 2) < length s"
  "Match check_operand_re s = Some m \<Longrightarrow> length (gtext m 2) < length s"
  "Match check_char_re s = Some m \<Longrightarrow> length (gtext m 2) < length s"
  using last_group_text [OF _ check_last_groups(1)] last_group_text [OF _ check_last_groups(2)]
    last_group_text [OF _ check_last_groups(3)] by (fastforce simp: Suc_le_eq)+

text \<open>The loop that splits the expression: \<open>None\<close> is the early return, otherwise the left side, the
  operator and the right side (the operator is empty when none was found).\<close>

function check_operands :: "string \<Rightarrow> string \<Rightarrow> (string \<times> string \<times> string) option" where
  "check_operands expression lhs =
     (if expression = [] then Some (lhs, [], [])
      else case Match check_token_re expression of
        Some m \<Rightarrow>
          let token = gtext m 1
          in if token = ''('' then
               (case FindEndOfExpressionInLine (gtext m 2) 0 ''('' of
                  (None, _) \<Rightarrow> None
                | (Some e, _) \<Rightarrow> check_operands (drop e (gtext m 2)) (lhs @ ''('' @ take e (gtext m 2)))
             else if token \<in> {''&&'', ''||''} then None
             else if token \<in> {''<<'', ''<<='', ''>>'', ''>>='', ''->*'', ''->''}
             then check_operands (gtext m 2) (lhs @ token)
             else Some (lhs, token, gtext m 2)
      | None \<Rightarrow>
          (case Match check_operand_re expression of
             Some m \<Rightarrow> check_operands (gtext m 2) (lhs @ gtext m 1)
           | None \<Rightarrow>
             (case Match check_char_re expression of
                Some m \<Rightarrow> check_operands (gtext m 2) (lhs @ gtext m 1)
              | None \<Rightarrow> Some (lhs, [], []))))"
  by pat_completeness auto
termination
  by (relation "measure (length \<circ> fst)") (auto dest!: check_texts)

declare check_operands.simps [simp del]

definition check_expression :: "CleansedLines \<Rightarrow> nat \<Rightarrow> nat \<Rightarrow> string \<Rightarrow> nat \<Rightarrow> nat \<Rightarrow> string" where
  "check_expression clean_lines linenum start_pos final_line end_line end_pos =
     (let line = elided clean_lines ! linenum
      in if linenum = end_line then slice (start_pos + 1) (end_pos - 1) line
         else drop (start_pos + 1) line @ concat (slice (linenum + 1) end_line (elided clean_lines)) @
           take (end_pos - 1) final_line)"

definition match_constant :: re where
  \<open>match_constant = rx ''^([-+]?(`d+|0[xX][0-9a-fA-F]+)[lLuU]{0,3}|".*"|`'.*`')$''\<close>

definition CheckCheck :: "string \<Rightarrow> CleansedLines \<Rightarrow> nat \<Rightarrow> report list res" where
  \<open>CheckCheck filename clean_lines linenum =
     bind_res (py_nth (elided clean_lines) (int linenum)) (\<lambda>line.
       case FindCheckMacro line of
         None \<Rightarrow> Inr []
       | Some (check_macro, start_pos) \<Rightarrow>
         bind_res (CloseExpression clean_lines linenum start_pos) (\<lambda>(last_line, end_line, end_pos).
           case end_pos of
             None \<Rightarrow> Inr []
           | Some e \<Rightarrow>
             if \<not> matched (Match (rx ''`s*;'') (drop e last_line)) then Inr []
             else (case check_operands (check_expression clean_lines linenum start_pos last_line end_line e) [] of
                 None \<Rightarrow> Inr []
               | Some (lhs, operator, rhs) \<Rightarrow>
                 if lhs = [] \<or> operator = [] \<or> rhs = [] then Inr []
                 else if contains ''&&'' rhs \<or> contains ''||'' rhs then Inr []
                 else if matched (Match match_constant (strip lhs)) \<or>
                    matched (Match match_constant (strip rhs))
                 then (case CHECK_REPLACEMENT (check_macro, operator) of
                         None \<Rightarrow> Inl KeyError
                       | Some replacement \<Rightarrow> Inr [Report filename (int linenum) ''readability/check'' 2
                           (''Consider using '' @ replacement @ '' instead of '' @ check_macro @ ''(a '' @
                            operator @ '' b)'')])
                 else Inr [])))\<close>

section \<open>Alternative tokens\<close>

definition ALT_TOKEN_REPLACEMENT :: "(string \<times> string) list" where
  "ALT_TOKEN_REPLACEMENT = [
     (''and'', ''&&''), (''bitor'', ''|''), (''or'', ''||''), (''xor'', ''^''), (''compl'', ''~''),
     (''bitand'', ''&''), (''and_eq'', ''&=''), (''or_eq'', ''|=''), (''xor_eq'', ''^=''),
     (''not'', ''!''), (''not_eq'', ''!='')]"

definition ALT_TOKEN_REPLACEMENT_PATTERN :: re where
  "ALT_TOKEN_REPLACEMENT_PATTERN =
     rx (''[ =()]('' @ join ''|'' (map fst ALT_TOKEN_REPLACEMENT) @ '')(?=[ (]|$)'')"

definition CheckAltTokens :: "string \<Rightarrow> CleansedLines \<Rightarrow> nat \<Rightarrow> report list res" where
  \<open>CheckAltTokens filename clean_lines linenum =
     bind_res (py_nth (elided clean_lines) (int linenum)) (\<lambda>line.
       if matched (Match (rx ''^`s*#'') line) then Inr []
       else if contains ''/*'' line \<or> contains ''*/'' line then Inr []
       else map_res (\<lambda>m.
         case map_of ALT_TOKEN_REPLACEMENT (gtext m 1) of
           None \<Rightarrow> Inl KeyError
         | Some token \<Rightarrow> Inr (Report filename (int linenum) ''readability/alt_tokens'' 2
             (''Use operator '' @ token @ '' instead of '' @ gtext m 1)))
         (re_finditer ALT_TOKEN_REPLACEMENT_PATTERN line))\<close>

section \<open>\<open>CheckStyle\<close>\<close>

definition indent_reports ::
  "string \<Rightarrow> nat \<Rightarrow> string \<Rightarrow> string \<Rightarrow> string \<Rightarrow> string \<Rightarrow> report list" where
  \<open>indent_reports filename linenum line prev cleansed_line raw_line =
     (let initial_spaces = length (takeWhile (\<lambda>c. c = CHR '' '') line)
      in report_if (CHR 0x09 \<in> set line)
           (Report filename (int linenum) ''whitespace/tab'' 1 ''Tab found; better to use spaces'') @
         report_if (\<not> matched (Search (rx ''[",=><] *$'') prev) \<and>
             (initial_spaces = 1 \<or> initial_spaces = 3) \<and>
             \<not> matched (Match (rx ''`s*`w+`s*:`s*``?$'') cleansed_line) \<and>
             \<not> (raw_line \<noteq> line \<and> matched (Match (rx ''^`s*""'') line)))
           (Report filename (int linenum) ''whitespace/indent'' 3
             (''Weird number of spaces at line-start.  '' @
              ''Are you using a 2-space indent?'')) @
         report_if (line \<noteq> [] \<and> is_space (last line))
           (Report filename (int linenum) ''whitespace/end_of_line'' 4
             ''Line ends in whitespace.  Consider deleting these extra spaces.''))\<close>

text \<open>Whether a line is part of the header guard; \<open>None\<close> when the search for the name of the guard
  does not end.\<close>

definition is_header_guard :: "fs \<Rightarrow> world \<Rightarrow> string \<Rightarrow> string \<Rightarrow> string \<Rightarrow> bool option" where
  "is_header_guard f w filename file_extension line =
     (if IsHeaderExtension file_extension w
      then map_option (\<lambda>cppvar.
          startswith line (''#ifndef '' @ cppvar) \<or>
          startswith line (''#define '' @ cppvar) \<or>
          startswith line (''#endif  // '' @ cppvar))
        (GetHeaderGuardCPPVariable f (repository w) (root_flag w) filename)
      else Some False)"

definition length_reports :: "int \<Rightarrow> string \<Rightarrow> nat \<Rightarrow> string \<Rightarrow> bool \<Rightarrow> report list" where
  \<open>length_reports max_length filename linenum line is_guard =
     report_if (\<not> startswith line ''#include'' \<and> \<not> is_guard \<and>
         \<not> matched (Match (rx ''^`s*//.*http(s?)://`S*$'') line) \<and>
         \<not> matched (Match (rx ''^`s*//`s*[^`s]*$'') line) \<and>
         \<not> matched (Match (rx ''^// `$Id:.*#[0-9]+ `$$'') line) \<and>
         \<not> matched (Match (rx ''^`s*/// [@``](copydoc|copydetails|copybrief) .*$'') line) \<and>
         int (GetLineWidth line) > max_length)
       (Report filename (int linenum) ''whitespace/line_length'' 2
         (''Lines should be <= '' @ str_int max_length @ '' characters long''))\<close>

definition command_reports :: "string \<Rightarrow> nat \<Rightarrow> string \<Rightarrow> string \<Rightarrow> string \<Rightarrow> report list" where
  \<open>command_reports filename linenum line cleansed_line prevline =
     report_if (str_count '';'' cleansed_line > 1 \<and>
         \<not> matched (Match (rx ''^[^{};]*`[[^`[`]]*`][^{}]*`{[^{}`n`r]*`}'') line) \<and>
         \<not> contains ''for'' cleansed_line \<and>
         (\<not> contains ''for'' prevline \<or> contains '';'' prevline) \<and>
         \<not> ((contains ''case '' cleansed_line \<or> contains ''default:'' cleansed_line) \<and>
            contains ''break;'' cleansed_line))
       (Report filename (int linenum) ''whitespace/newline'' 0
         ''More than one command on the same line'')\<close>

definition line_style_reports ::
  "world \<Rightarrow> string \<Rightarrow> CleansedLines \<Rightarrow> nat \<Rightarrow> string \<Rightarrow> bool \<Rightarrow> report list res" where
  "line_style_reports w filename clean_lines linenum line is_guard =
     bind_res (if linenum > 0 then py_nth (lines_without_raw_strings clean_lines) (int linenum - 1)
               else Inr []) (\<lambda>prev.
     bind_res (py_nth (elided clean_lines) (int linenum)) (\<lambda>cleansed_line.
     bind_res (py_nth (raw_lines clean_lines) (int linenum)) (\<lambda>raw_line.
     bind_res (GetPreviousNonBlankLine clean_lines linenum) (\<lambda>(prevline, n). Inr (
       indent_reports filename linenum line prev cleansed_line raw_line @
       length_reports (line_length w) filename linenum line is_guard @
       command_reports filename linenum line cleansed_line prevline)))))"

text \<open>Running several checks one after the other.\<close>

fun seq_res :: "'a list res list \<Rightarrow> 'a list res" where
  "seq_res [] = Inr []"
| "seq_res (r # rs) = bind_res r (\<lambda>xs. bind_res (seq_res rs) (\<lambda>ys. Inr (xs @ ys)))"

abbreviation errs :: "report list res \<Rightarrow> event list res" where
  "errs r \<equiv> bind_res r (\<lambda>rs. Inr (map Err rs))"

definition CheckStyle ::
  "fs \<Rightarrow> world \<Rightarrow> string \<Rightarrow> CleansedLines \<Rightarrow> nat \<Rightarrow> string \<Rightarrow> NestingState \<Rightarrow> event list res option" where
  "CheckStyle f w filename clean_lines linenum file_extension nesting_state =
     (case py_nth (lines_without_raw_strings clean_lines) (int linenum) of
        Inl e \<Rightarrow> Some (Inl e)
      | Inr line \<Rightarrow>
        map_option (\<lambda>is_guard. seq_res [
          errs (line_style_reports w filename clean_lines linenum line is_guard),
          errs (CheckBraces (line_length w) filename clean_lines linenum),
          CheckTrailingSemicolon filename clean_lines linenum,
          errs (CheckEmptyBlockBody filename clean_lines linenum),
          errs (CheckSpacing filename clean_lines linenum nesting_state),
          errs (CheckOperatorSpacing filename clean_lines linenum),
          errs (CheckParenthesisSpacing filename clean_lines linenum),
          errs (CheckCommaSpacing filename clean_lines linenum),
          errs (CheckBracesSpacing filename clean_lines linenum nesting_state),
          errs (CheckSpacingForFunctionCall filename clean_lines linenum),
          errs (CheckCheck filename clean_lines linenum),
          errs (CheckAltTokens filename clean_lines linenum),
          errs (case InnermostClass nesting_state of
              None \<Rightarrow> Inr []
            | Some b \<Rightarrow> (case kind b of
                  ClassBlock c \<Rightarrow> CheckSectionSpacing filename clean_lines b c linenum
                | _ \<Rightarrow> Inr []))])
        (is_header_guard f w filename file_extension line))"

end
