(* ===== verification/Language_Checks.thy ===== *)
theory Language_Checks
  imports Line_Checks Include_Checks Style_Checks
begin

text \<open>
  \<open>CheckLanguage\<close> and the checks of a line beside it: casts, format strings, memset, namespaces,
  variable-length arrays, non-const references, make_pair, redundant virtual and override, and the
  C++11 and C++14 features.
\<close>

section \<open>Casts\<close>

definition ExpectingFunctionArgs :: "CleansedLines \<Rightarrow> nat \<Rightarrow> bool res" where
  \<open>ExpectingFunctionArgs clean_lines linenum =
     bind_res (py_nth (elided clean_lines) (int linenum)) (\<lambda>line.
       if matched (Match (rx ''^`s*MOCK_(CONST_)?METHOD`d+(_T)?`('') line) then Inr True
       else if linenum \<ge> 2 then
         bind_res (py_nth (elided clean_lines) (int linenum - 1)) (\<lambda>l1.
         bind_res (py_nth (elided clean_lines) (int linenum - 2)) (\<lambda>l2. Inr (
           matched (Match (rx ''^`s*MOCK_(?:CONST_)?METHOD`d+(?:_T)?`((?:`S+,)?`s*$'') l1) \<or>
           matched (Match (rx ''^`s*MOCK_(?:CONST_)?METHOD`d+(?:_T)?`(`s*$'') l2) \<or>
           matched (Search (rx ''`bstd::m?function`s*`<`s*$'') l1))))
       else Inr False)\<close>

text \<open>The context of a cast: the text before it on its line, and up to four lines above.\<close>

definition cast_context :: "CleansedLines \<Rightarrow> nat \<Rightarrow> string \<Rightarrow> string res" where
  "cast_context clean_lines linenum context =
     bind_res (map_res (\<lambda>i. py_nth (elided clean_lines) (int i)) [max 1 (linenum - 4)..<linenum])
       (\<lambda>above. Inr (concat above @ context))"

definition CheckCStyleCast ::
  "string \<Rightarrow> CleansedLines \<Rightarrow> nat \<Rightarrow> string \<Rightarrow> string \<Rightarrow> report list res" where
  \<open>CheckCStyleCast filename clean_lines linenum cast_type pattern =
     bind_res (py_nth (elided clean_lines) (int linenum)) (\<lambda>line.
       case Search (rx pattern) line of
         None \<Rightarrow> Inr []
       | Some m \<Rightarrow>
         let context = take (group_start m 1 - 1) line
         in if matched (Match (rx ''.*`b(?:sizeof|alignof|alignas|[_A-Z][_A-Z0-9]*)`s*$'') context)
            then Inr []
            else bind_res (cast_context clean_lines linenum context) (\<lambda>context.
              if matched (Match (rx ''.*`b[_A-Z][_A-Z0-9]*`s*`((?:`([^()]*`)|[^()])*$'') context)
              then Inr []
              else if endswith context '' operator++'' \<or> endswith context '' operator--'' then Inr []
              else if matched (Match (rx ''^`s*(?:;|const`b|throw`b|final`b|override`b|[=>{),]|->)'')
                        (drop (m_end m) line))
              then Inr []
              else Inr [Report filename (int linenum) ''readability/casting'' 4
                (''Using C-style cast.  Use '' @ cast_type @ ''<'' @ gtext m 1 @ ''>(...) instead'')]))\<close>

text \<open>Function-style casts to the basic types; the result is \<open>None\<close> when the check of the whole
  line ends here.\<close>

definition function_cast :: "string \<Rightarrow> nat \<Rightarrow> string \<Rightarrow> bool \<Rightarrow> report list option" where
  \<open>function_cast filename linenum line expecting_function =
     (case Search (rx (''(`bnew`s+(?:const`s+)?|`S<`s*(?:const`s+)?)?`b'' @
              ''(int|float|double|bool|char|int32|uint32|int64|uint64)'' @
              ''(`([^)].*)'')) line of
        None \<Rightarrow> Some []
      | Some m \<Rightarrow>
        if expecting_function then Some []
        else
          let matched_type = gtext m 2; matched_funcptr = gtext m 3
          in if matched (Match (rx ''`([^()]+`)`s*`['') matched_funcptr) then None
             else Some (report_if (group m 1 = None \<and>
                 \<not> (matched_funcptr \<noteq> [] \<and>
                    (matched (Match (rx ''`((?:[^() ]+::`s*`*`s*)?[^() ]+`)`s*`('') matched_funcptr) \<or>
                     startswith matched_funcptr ''(*)'')) \<and>
                 \<not> matched (Match (rx (''`s*using`s+`S+`s*=`s*'' @ matched_type)) line) \<and>
                 \<not> matched (Search (rx (''new`(`S+`)`s*'' @ matched_type)) line))
               (Report filename (int linenum) ''readability/casting'' 4
                 (''Using deprecated casting style.  '' @ ''Use static_cast<'' @ matched_type @
                  ''>(...) instead''))))\<close>

text \<open>Whether the address is taken of something that is reached through a cast.\<close>

definition parenthesis_error :: "CleansedLines \<Rightarrow> nat \<Rightarrow> string \<Rightarrow> bool res" where
  \<open>parenthesis_error clean_lines linenum line =
     (case Match (rx ''^(.*&(?:static|dynamic|down|reinterpret)_cast`b)<'') line of
        None \<Rightarrow> Inr False
      | Some m \<Rightarrow>
        bind_res (CloseExpression clean_lines linenum (length (gtext m 1))) (\<lambda>(l1, y1, x1).
          case x1 of
            None \<Rightarrow> Inr False
          | Some x1 \<Rightarrow>
            bind_res (py_nth (elided clean_lines) (int y1)) (\<lambda>line1.
            bind_res (py_nth line1 (int x1)) (\<lambda>c.
              if c \<noteq> CHR ''('' then Inr False
              else bind_res (CloseExpression clean_lines y1 x1) (\<lambda>(l2, y2, x2).
                case x2 of
                  None \<Rightarrow> Inr False
                | Some x2 \<Rightarrow>
                  bind_res (py_nth (elided clean_lines) (int y2)) (\<lambda>line2.
                  bind_res (if y2 < NumLines clean_lines - 1
                            then py_nth (elided clean_lines) (int y2 + 1) else Inr []) (\<lambda>next_line.
                    Inr (matched (Match (rx ''`s*(?:->|`[)'') (drop x2 line2 @ next_line)))))))))) \<close>

definition address_of_cast :: "string \<Rightarrow> CleansedLines \<Rightarrow> nat \<Rightarrow> string \<Rightarrow> report list res" where
  \<open>address_of_cast filename clean_lines linenum line =
     (if matched (Search (rx (''(?:[^`w]&`(([^)*][^)]*)`)[`w(])|'' @
             ''(?:[^`w]&(static|dynamic|down|reinterpret)_cast`b)'')) line)
      then bind_res (parenthesis_error clean_lines linenum line) (\<lambda>b. Inr [
        if b then Report filename (int linenum) ''readability/casting'' 4
          (''Are you taking an address of something dereferenced '' @
           ''from a cast?  Wrapping the dereferenced expression in '' @
           ''parentheses will make the binding more obvious'')
        else Report filename (int linenum) ''runtime/casting'' 4
          (''Are you taking an address of a cast?  '' @
           ''This is dangerous: could be a temp var.  '' @
           ''Take the address before doing the cast, rather than after'')])
      else Inr [])\<close>

definition CheckCasts :: "string \<Rightarrow> CleansedLines \<Rightarrow> nat \<Rightarrow> report list res" where
  \<open>CheckCasts filename clean_lines linenum =
     bind_res (py_nth (elided clean_lines) (int linenum)) (\<lambda>line.
     bind_res (ExpectingFunctionArgs clean_lines linenum) (\<lambda>expecting_function.
       case function_cast filename linenum line expecting_function of
         None \<Rightarrow> Inr []
       | Some function_casts \<Rightarrow>
         bind_res (if \<not> expecting_function
                   then CheckCStyleCast filename clean_lines linenum ''static_cast''
                     ''`((int|float|double|bool|char|u?int(16|32|64))`)''
                   else Inr []) (\<lambda>static_casts.
         bind_res (CheckCStyleCast filename clean_lines linenum ''const_cast''
                     ''`((char`s?`*+`s?)`)`s*"'') (\<lambda>const_casts.
         bind_res (if const_casts \<noteq> [] then Inr []
                   else CheckCStyleCast filename clean_lines linenum ''reinterpret_cast''
                     ''`((`w+`s?`*+`s?)`)'') (\<lambda>reinterpret_casts.
         bind_res (address_of_cast filename clean_lines linenum line) (\<lambda>address.
           Inr (function_casts @ static_casts @ const_casts @ reinterpret_casts @ address)))))))\<close>

section \<open>Text inside brackets\<close>

fun close_punctuation :: "char \<Rightarrow> char option" where
  "close_punctuation c =
     (if c = CHR ''('' then Some CHR '')'' else if c = CHR ''{'' then Some CHR ''}''
      else if c = CHR ''['' then Some CHR '']'' else None)"

text \<open>The loop over the text; the stack of expected brackets has its top at the head, and the result
  is the position where it became empty.\<close>

fun inside_loop :: "string \<Rightarrow> nat \<Rightarrow> string \<Rightarrow> nat option" where
  "inside_loop txt p [] = Some p"
| "inside_loop [] p (t # ts) = None"
| "inside_loop (c # cs) p (t # ts) =
     (if c = t then inside_loop cs (p + 1) ts
      else if c \<in> set '')}]'' then None
      else case close_punctuation c of
             Some d \<Rightarrow> inside_loop cs (p + 1) (d # t # ts)
           | None \<Rightarrow> inside_loop cs (p + 1) (t # ts))"

text \<open>The pattern may ignore case: its letters are lower-case ASCII, and it is then searched in the
  lower-case text.\<close>

definition search_ci :: "re \<Rightarrow> string \<Rightarrow> mobj option" where
  "search_ci r s = re_search r (lower s)"

definition GetTextInside :: "string \<Rightarrow> re \<Rightarrow> string option res" where
  "GetTextInside txt start_pattern =
     (case search_ci start_pattern txt of
        None \<Rightarrow> Inr None
      | Some m \<Rightarrow>
        let start_position = m_end m
        in if start_position = 0 then Inl AssertionError
           else case close_punctuation (txt ! (start_position - 1)) of
                  None \<Rightarrow> Inl AssertionError
                | Some d \<Rightarrow>
                  (case inside_loop (drop start_position txt) start_position [d] of
                     None \<Rightarrow> Inr None
                   | Some p \<Rightarrow> Inr (Some (slice start_position (p - 1) txt))))"

section \<open>\<open>CheckLanguage\<close>\<close>

definition format_reports :: "string \<Rightarrow> nat \<Rightarrow> string \<Rightarrow> report list res" where
  \<open>format_reports filename linenum line =
     bind_res (GetTextInside line (rx ''`b(string)?printf`s*`('')) (\<lambda>printf_args.
       case printf_args of
         None \<Rightarrow> Inr []
       | Some args \<Rightarrow>
         if args = [] then Inr []
         else case Match (rx ''([`w.`->()]+)$'') args of
           None \<Rightarrow> Inr []
         | Some m \<Rightarrow>
           if gtext m 1 = ''__VA_ARGS__'' then Inr []
           else case search_ci (rx ''`b((?:string)?printf)`s*`('') line of
             None \<Rightarrow> Inl AttributeError
           | Some fn \<Rightarrow>
             let function_name = slice (group_start fn 1) (group_start fn 1 + length (gtext fn 1)) line
             in Inr [Report filename (int linenum) ''runtime/printf'' 4
               (''Potential format string bug. Do '' @ function_name @ ''("%s", '' @ gtext m 1 @
                '') instead.'')])\<close>

text \<open>The loop over the tokens of an array size.\<close>

fun const_size :: "string list \<Rightarrow> bool \<Rightarrow> bool" where
  \<open>const_size [] skip_next = True\<close>
| \<open>const_size (token # toks) skip_next =
     (if skip_next then const_size toks False
      else if matched (Search (rx ''sizeof`(.+`)'') token) then const_size toks False
      else if matched (Search (rx ''arraysize`(`w+`)'') token) then const_size toks False
      else let token = dropWhile (\<lambda>c. c = CHR ''('') token;
               token = rev (dropWhile (\<lambda>c. c = CHR '')'') (rev token))
           in if token = [] \<or> matched (Match (rx ''`d+'') token) \<or>
                 matched (Match (rx ''0[xX][0-9a-fA-F]+'') token) \<or>
                 matched (Match (rx ''k[A-Z0-9]`w*'') token) \<or>
                 matched (Match (rx ''(.+::)?k[A-Z0-9]`w*'') token) \<or>
                 matched (Match (rx ''(.+::)?[A-Z][A-Z0-9_]*'') token)
              then const_size toks False
              else if startswith token ''sizeof'' then const_size toks True
              else False)\<close>

definition array_reports :: "string \<Rightarrow> nat \<Rightarrow> string \<Rightarrow> report list" where
  \<open>array_reports filename linenum line =
     (case Match (rx ''`s*(.+::)?(`w+) [a-z]`w*`[(.+)];'') line of
        None \<Rightarrow> []
      | Some m \<Rightarrow>
        report_if (gtext m 2 \<noteq> ''return'' \<and> gtext m 2 \<noteq> ''delete'' \<and> \<not> contains '']'' (gtext m 3) \<and>
            \<not> const_size (re_split (rx ''`s|`+|`-|`*|`/|<<|>>]'') (gtext m 3)) False)
          (Report filename (int linenum) ''runtime/arrays'' 1
            (''Do not use variable-length arrays.  Use an appropriately named '' @
             ''('k' followed by CamelCase) compile-time constant for the size.'')))\<close>

definition memset_reports :: "string \<Rightarrow> nat \<Rightarrow> string \<Rightarrow> report list" where
  \<open>memset_reports filename linenum line =
     (case Search (rx ''memset`s*`(([^,]*),`s*([^,]*),`s*0`s*`)'') line of
        None \<Rightarrow> []
      | Some m \<Rightarrow>
        report_if (\<not> matched (Match (rx (''^'' @ [squote, squote] @ ''|-?[0-9]+|0x[0-9A-Fa-f]$'')) (gtext m 2)))
          (Report filename (int linenum) ''runtime/memset'' 4
            (''Did you mean "memset('' @ gtext m 1 @ '', 0, '' @ gtext m 2 @ '')"?'')))\<close>

definition int_reports :: "string \<Rightarrow> nat \<Rightarrow> string \<Rightarrow> report list" where
  \<open>int_reports filename linenum line =
     (if matched (Search (rx ''`bshort port`b'') line)
      then report_if (\<not> matched (Search (rx ''`bunsigned short port`b'') line))
        (Report filename (int linenum) ''runtime/int'' 4
          ''Use "unsigned short" for ports, not "short"'')
      else case Search (rx ''`b(short|long(?! +double)|long long)`b'') line of
             Some m \<Rightarrow> [Report filename (int linenum) ''runtime/int'' 4
               (''Use int16/int64/etc, rather than the C type '' @ gtext m 1)]
           | None \<Rightarrow> [])\<close>

definition using_reports :: "string \<Rightarrow> nat \<Rightarrow> string \<Rightarrow> report list" where
  \<open>using_reports filename linenum line =
     (if matched (Search (rx ''`busing namespace`b'') line)
      then [Report filename (int linenum)
        (if matched (Search (rx ''`bliterals`b'') line) then ''build/namespaces_literals''
         else ''build/namespaces'') 5
        (''Do not use namespace using-directives.  '' @ ''Use using-declarations instead.'')]
      else [])\<close>

text \<open>The checks that follow once the line is known not to be an include.\<close>

definition language_reports ::
  "world \<Rightarrow> string \<Rightarrow> CleansedLines \<Rightarrow> nat \<Rightarrow> string \<Rightarrow> string \<Rightarrow> report list res" where
  \<open>language_reports w filename clean_lines linenum file_extension line =
     seq_res [
       CheckCasts filename clean_lines linenum,
       CheckGlobalStatic filename clean_lines linenum,
       CheckPrintf filename clean_lines linenum,
       Inr (int_reports filename linenum line),
       Inr (report_if (matched (Search (rx ''`boperator`s*&`s*`(`s*`)'') line))
         (Report filename (int linenum) ''runtime/operator'' 4
           ''Unary operator& is dangerous.  Do not use it.'')),
       Inr (report_if (matched (Search (rx ''`}`s*if`s*`('') line))
         (Report filename (int linenum) ''readability/braces'' 4
           ''Did you mean "else if"? If not, start a new line for "if".'')),
       format_reports filename linenum line,
       Inr (memset_reports filename linenum line),
       Inr (using_reports filename linenum line),
       Inr (array_reports filename linenum line),
       Inr (report_if (IsHeaderExtension file_extension w \<and>
           matched (Search (rx ''`bnamespace`s*{'') line) \<and> last line \<noteq> backslash)
         (Report filename (int linenum) ''build/namespaces'' 4
           (''Do not use unnamed namespaces in header files.  See '' @
            ''https://google-styleguide.googlecode.com/svn/trunk/cppguide.xml#Namespaces'' @
            '' for more information.'')))]\<close>

definition CheckLanguage ::
  "fs \<Rightarrow> (string set \<Rightarrow> string list) \<Rightarrow> world \<Rightarrow> string \<Rightarrow> CleansedLines \<Rightarrow> nat \<Rightarrow> string \<Rightarrow> IncludeState \<Rightarrow>
     (report list \<times> IncludeState) res option" where
  \<open>CheckLanguage f enum w filename clean_lines linenum file_extension include_state =
     bind_ro (ending (py_nth (elided clean_lines) (int linenum))) (\<lambda>line.
       if line = [] then ending (Inr ([], include_state))
       else if matched (re_search RE_PATTERN_INCLUDE line)
       then CheckIncludeLine f enum w filename clean_lines linenum include_state
       else
         let s = (case Match (rx ''^`s*#`s*(if|ifdef|ifndef|elif|else|endif)`b'') line of
                    Some m \<Rightarrow> ResetSection (gtext m 1) include_state | None \<Rightarrow> include_state)
         in ending (bind_res (language_reports w filename clean_lines linenum file_extension line)
              (\<lambda>rs. Inr (rs, s))))\<close>

section \<open>Non-const references\<close>

definition RE_PATTERN_IDENT :: string where
  \<open>RE_PATTERN_IDENT = ''[_a-zA-Z]`w*''\<close>

definition RE_PATTERN_TYPE :: string where
  \<open>RE_PATTERN_TYPE =
     ''(?:const`s+)?(?:typename`s+|class`s+|struct`s+|union`s+|enum`s+)?'' @
     ''(?:`w|'' @
     ''`s*<(?:<(?:<[^<>]*>|[^<>])*>|[^<>])*>|'' @
     ''::)+''\<close>

definition RE_PATTERN_REF_PARAM :: re where
  \<open>RE_PATTERN_REF_PARAM = rx (
     ''('' @ RE_PATTERN_TYPE @ ''(?:`s*(?:`bconst`b|[*]))*`s*'' @
     ''&`s*'' @ RE_PATTERN_IDENT @ '')`s*(?:=[^,()]+)?[,)]'')\<close>

definition RE_PATTERN_CONST_REF_PARAM :: re where
  \<open>RE_PATTERN_CONST_REF_PARAM = rx (
     ''(?:.*`s*`bconst`s*&`s*'' @ RE_PATTERN_IDENT @
     ''|const`s+'' @ RE_PATTERN_TYPE @ ''`s*&`s*'' @ RE_PATTERN_IDENT @ '')'')\<close>

definition RE_PATTERN_REF_STREAM_PARAM :: re where
  \<open>RE_PATTERN_REF_STREAM_PARAM = rx (
     ''(?:.*stream`s*&`s*'' @ RE_PATTERN_IDENT @ '')'')\<close>

text \<open>The loops of the next two functions go up from the line, over ten lines at most; the argument
  is the list of line numbers still to look at.\<close>

definition ten_lines_up :: "nat \<Rightarrow> nat list" where
  "ten_lines_up linenum = rev [linenum - 9..<linenum + 1]"

fun derived_function :: "CleansedLines \<Rightarrow> nat list \<Rightarrow> bool res" where
  \<open>derived_function clean_lines [] = Inr False\<close>
| \<open>derived_function clean_lines (i # is) =
     bind_res (py_nth (elided clean_lines) (int i)) (\<lambda>l.
       case Match (rx ''^([^()]*`w+)`('') l of
         None \<Rightarrow> derived_function clean_lines is
       | Some m \<Rightarrow>
         bind_res (CloseExpression clean_lines i (length (gtext m 1))) (\<lambda>(line, n, closing_paren). Inr (
           case closing_paren of
             None \<Rightarrow> False
           | Some p \<Rightarrow> matched (Search (rx ''`boverride`b'') (drop p line)))))\<close>

definition IsDerivedFunction :: "CleansedLines \<Rightarrow> nat \<Rightarrow> bool res" where
  "IsDerivedFunction clean_lines linenum = derived_function clean_lines (ten_lines_up linenum)"

fun out_of_line_method :: "CleansedLines \<Rightarrow> nat list \<Rightarrow> bool res" where
  \<open>out_of_line_method clean_lines [] = Inr False\<close>
| \<open>out_of_line_method clean_lines (i # is) =
     bind_res (py_nth (elided clean_lines) (int i)) (\<lambda>l.
       if matched (Match (rx ''^([^()]*`w+)`('') l)
       then Inr (matched (Match (rx ''^[^()]*`w+::`w+`('') l))
       else out_of_line_method clean_lines is)\<close>

definition IsOutOfLineMethodDefinition :: "CleansedLines \<Rightarrow> nat \<Rightarrow> bool res" where
  "IsOutOfLineMethodDefinition clean_lines linenum =
     out_of_line_method clean_lines (ten_lines_up linenum)"

text \<open>The loop of \<open>IsInitializerList\<close> goes up to line 2. On the first line a function body that opens
  there is cut off.\<close>

fun initializer_list :: "CleansedLines \<Rightarrow> nat \<Rightarrow> nat list \<Rightarrow> bool res" where
  \<open>initializer_list clean_lines linenum [] = Inr False\<close>
| \<open>initializer_list clean_lines linenum (i # is) =
     bind_res (py_nth (elided clean_lines) (int i)) (\<lambda>l.
       let line = (if i = linenum
                   then (case Match (rx ''^(.*)`{`s*$'') l of Some m \<Rightarrow> gtext m 1 | None \<Rightarrow> l)
                   else l)
       in if matched (Search (rx ''`s:`s*`w+[({]'') line) then Inr True
          else if matched (Search (rx ''`}`s*,`s*$'') line) then Inr True
          else if matched (Search (rx ''[{};]`s*$'') line) then Inr False
          else initializer_list clean_lines linenum is)\<close>

definition IsInitializerList :: "CleansedLines \<Rightarrow> nat \<Rightarrow> bool res" where
  "IsInitializerList clean_lines linenum =
     initializer_list clean_lines linenum (rev [2..<linenum + 1])"

text \<open>The line, joined with the previous ones when a type is split over lines.\<close>

definition join_split_type :: "CleansedLines \<Rightarrow> nat \<Rightarrow> string \<Rightarrow> string res" where
  \<open>join_split_type clean_lines linenum line =
     (if linenum > 1 then
        bind_res (py_nth (elided clean_lines) (int linenum - 1)) (\<lambda>above.
          let previous =
            (if matched (Match (rx ''`s*::(?:[`w<>]|::)+`s*&`s*`S'') line)
             then Search (rx ''`b((?:const`s*)?(?:[`w<>]|::)+[`w<>])`s*$'') above
             else if matched (Match (rx ''`s*[a-zA-Z_]([`w<>]|::)+`s*&`s*`S'') line)
             then Search (rx ''`b((?:const`s*)?(?:[`w<>]|::)+::)`s*$'') above
             else None)
          in case previous of
               Some m \<Rightarrow> Inr (gtext m 1 @ lstrip line)
             | None \<Rightarrow>
               (case rfind_char CHR ''>'' line of
                  None \<Rightarrow> Inr line
                | Some endpos \<Rightarrow>
                  bind_res (ReverseCloseExpression clean_lines linenum endpos) (\<lambda>(l, startline, startpos).
                    if startpos \<noteq> None \<and> startline < linenum
                    then Inr (concat (map strip (slice startline (linenum + 1) (elided clean_lines))))
                    else Inr line)))
      else Inr line)\<close>

text \<open>What \<open>previous_stack_top\<close> refers to.\<close>

definition previous_top :: "NestingState \<Rightarrow> BlockInfo option" where
  "previous_top s =
     (case previous_stack_top s of
        NoTop \<Rightarrow> None | OnStack i \<Rightarrow> Some (rev (stack s) ! i) | Detached b \<Rightarrow> Some b)"

text \<open>The loop that looks for an initializer list in the lines above.\<close>

fun colon_above :: "string list \<Rightarrow> bool" where
  \<open>colon_above [] = False\<close>
| \<open>colon_above (previous_line # ls) =
     (if \<not> matched (Search (rx ''[),]`s*$'') previous_line) then False
      else if matched (Match (rx ''^`s*:`s+`S'') previous_line) then True
      else colon_above ls)\<close>

definition whitelisted_functions :: re where
  \<open>whitelisted_functions = rx (''(?:[sS]wap(?:<`w:+>)?|'' @
     ''operator`s*[<>][<>]|'' @
     ''static_assert|COMPILE_ASSERT'' @
     '')`s*`('')\<close>

definition whitelisted :: "CleansedLines \<Rightarrow> nat \<Rightarrow> string \<Rightarrow> bool" where
  \<open>whitelisted clean_lines linenum line \<longleftrightarrow>
     matched (Search whitelisted_functions line) \<or>
     \<not> matched (Search (rx ''`S+`([^)]*$'') line) \<and>
       list_ex (\<lambda>i. linenum > i \<and>
         matched (Search whitelisted_functions (elided clean_lines ! (linenum - i - 1)))) [0, 1]\<close>

definition reference_reports :: "string \<Rightarrow> nat \<Rightarrow> string \<Rightarrow> report list" where
  \<open>reference_reports filename linenum line =
     (let decls = ReplaceAll (rx ''{[^}]*}'') '' '' line
      in concat (map (\<lambda>parameter.
           report_if (\<not> matched (Match RE_PATTERN_CONST_REF_PARAM parameter) \<and>
               \<not> matched (Match RE_PATTERN_REF_STREAM_PARAM parameter))
             (Report filename (int linenum) ''runtime/references'' 2
               (''Is this a non-const reference? '' @
                ''If so, make const or use a pointer: '' @
                ReplaceAll (rx '' *<'') ''<'' parameter)))
         (map (\<lambda>m. gtext m 1) (re_finditer RE_PATTERN_REF_PARAM decls))))\<close>

definition CheckForNonConstReference ::
  "string \<Rightarrow> CleansedLines \<Rightarrow> nat \<Rightarrow> NestingState \<Rightarrow> report list res" where
  \<open>CheckForNonConstReference filename clean_lines linenum nesting_state =
     bind_res (py_nth (elided clean_lines) (int linenum)) (\<lambda>line.
       if CHR ''&'' \<notin> set line then Inr []
       else bind_res (IsDerivedFunction clean_lines linenum) (\<lambda>derived.
         if derived then Inr []
         else bind_res (IsOutOfLineMethodDefinition clean_lines linenum) (\<lambda>out_of_line.
           if out_of_line then Inr []
           else bind_res (join_split_type clean_lines linenum line) (\<lambda>line.
             if (case previous_top nesting_state of
                   None \<Rightarrow> False
                 | Some b \<Rightarrow> \<not> (is_class (kind b) \<or> is_namespace (kind b)))
             then Inr []
             else if linenum > 0 \<and>
               colon_above (rev (slice (max 1 (linenum - 9)) linenum (elided clean_lines)))
             then Inr []
             else if matched (Search (rx ''```s*$'') line) then Inr []
             else bind_res (IsInitializerList clean_lines linenum) (\<lambda>in_list.
               if in_list then Inr []
               else if whitelisted clean_lines linenum line then Inr []
               else Inr (reference_reports filename linenum line))))))\<close>

section \<open>Deduction, virtual and override\<close>

definition RE_PATTERN_EXPLICIT_MAKEPAIR :: re where
  \<open>RE_PATTERN_EXPLICIT_MAKEPAIR = rx ''`bmake_pair`s*<''\<close>

definition CheckMakePairUsesDeduction :: "string \<Rightarrow> CleansedLines \<Rightarrow> nat \<Rightarrow> report list res" where
  "CheckMakePairUsesDeduction filename clean_lines linenum =
     bind_res (py_nth (elided clean_lines) (int linenum)) (\<lambda>line. Inr (
       report_if (matched (re_search RE_PATTERN_EXPLICIT_MAKEPAIR line))
         (Report filename (int linenum) ''build/explicit_make_pair'' 4
           (''For C++11-compatibility, omit template arguments from make_pair'' @
            '' OR use pair directly OR if appropriate, construct a pair directly''))))"

text \<open>The search for the parameter list on the line of \<open>virtual\<close> and the next two: where it ends.\<close>

fun parameter_list_end :: "CleansedLines \<Rightarrow> nat \<Rightarrow> nat list \<Rightarrow> (nat \<times> nat) option res" where
  \<open>parameter_list_end clean_lines start_col [] = Inr None\<close>
| \<open>parameter_list_end clean_lines start_col (start_line # ls) =
     bind_res (py_nth (elided clean_lines) (int start_line)) (\<lambda>l.
       case Match (rx ''^([^(]*)`('') (drop start_col l) of
         Some m \<Rightarrow>
           bind_res (CloseExpression clean_lines start_line (start_col + length (gtext m 1)))
             (\<lambda>(t, end_line, end_col). Inr (map_option (\<lambda>c. (end_line, c)) end_col))
       | None \<Rightarrow> parameter_list_end clean_lines 0 ls)\<close>

fun virtual_reports :: "string \<Rightarrow> nat \<Rightarrow> CleansedLines \<Rightarrow> nat \<Rightarrow> nat list \<Rightarrow> report list res" where
  \<open>virtual_reports filename linenum clean_lines end_col [] = Inr []\<close>
| \<open>virtual_reports filename linenum clean_lines end_col (i # is) =
     bind_res (py_nth (elided clean_lines) (int i)) (\<lambda>l.
       let line = drop end_col l;
           rs = (case Search (rx ''`b(override|final)`b'') line of
                   Some m \<Rightarrow> [Report filename (int linenum) ''readability/inheritance'' 4
                     (''"virtual" is redundant since function is '' @
                      ''already declared as "'' @ gtext m 1 @ [dquote])]
                 | None \<Rightarrow> [])
       in if matched (Search (rx ''[^`w]`s*$'') line) then Inr rs
          else bind_res (virtual_reports filename linenum clean_lines 0 is) (\<lambda>rs'. Inr (rs @ rs')))\<close>

definition CheckRedundantVirtual :: "string \<Rightarrow> CleansedLines \<Rightarrow> nat \<Rightarrow> report list res" where
  \<open>CheckRedundantVirtual filename clean_lines linenum =
     bind_res (py_nth (elided clean_lines) (int linenum)) (\<lambda>line.
       case Match (rx ''^(.*)(`bvirtual`b)(.*)$'') line of
         None \<Rightarrow> Inr []
       | Some virtual \<Rightarrow>
         if matched (Search (rx ''`b(public|protected|private)`s+$'') (gtext virtual 1)) \<or>
            matched (Match (rx ''^`s+(public|protected|private)`b'') (gtext virtual 3)) then Inr []
         else if matched (Match (rx ''^.*[^:]:[^:].*$'') line) then Inr []
         else bind_res (parameter_list_end clean_lines (length (gtext virtual 2))
                [linenum..<min (linenum + 3) (NumLines clean_lines)]) (\<lambda>e.
           case e of
             None \<Rightarrow> Inr []
           | Some (end_line, end_col) \<Rightarrow>
               virtual_reports filename linenum clean_lines end_col
                 [end_line..<min (end_line + 3) (NumLines clean_lines)]))\<close>

definition CheckRedundantOverrideOrFinal :: "string \<Rightarrow> CleansedLines \<Rightarrow> nat \<Rightarrow> report list res" where
  \<open>CheckRedundantOverrideOrFinal filename clean_lines linenum =
     bind_res (py_nth (elided clean_lines) (int linenum)) (\<lambda>line.
     bind_res (case rfind_char CHR '')'' line of
         Some declarator_end \<Rightarrow> Inr (Some (drop declarator_end line))
       | None \<Rightarrow>
         if linenum > 1 then
           bind_res (py_nth (elided clean_lines) (int linenum - 1)) (\<lambda>above.
             Inr (if rfind_char CHR '')'' above \<noteq> None then Some line else None))
         else Inr None) (\<lambda>fragment. Inr (
       case fragment of
         None \<Rightarrow> []
       | Some t \<Rightarrow>
         report_if (matched (Search (rx ''`boverride`b'') t) \<and> matched (Search (rx ''`bfinal`b'') t))
           (Report filename (int linenum) ''readability/inheritance'' 4
             (''"override" is redundant since function is '' @
              ''already declared as "final"'')))))\<close>

section \<open>Features of C++11 and C++14\<close>

definition unapproved_cxx11 :: "string list" where
  "unapproved_cxx11 = [''cfenv'', ''condition_variable'', ''fenv.h'', ''future'', ''mutex'', ''thread'',
     ''chrono'', ''ratio'', ''regex'', ''system_error'']"

definition FlagCxx11Features :: "string \<Rightarrow> CleansedLines \<Rightarrow> nat \<Rightarrow> report list res" where
  \<open>FlagCxx11Features filename clean_lines linenum =
     bind_res (py_nth (elided clean_lines) (int linenum)) (\<lambda>line. Inr (
       (case Match (rx ''`s*#`s*include`s+[<"]([^<"]+)[">]'') line of
          None \<Rightarrow> []
        | Some incl \<Rightarrow>
          report_if (startswith (gtext incl 1) ''tr1/'')
            (Report filename (int linenum) ''build/c++tr1'' 5
              (''C++ TR1 headers such as <'' @ gtext incl 1 @ ''> are unapproved.'')) @
          report_if (gtext incl 1 \<in> set unapproved_cxx11)
            (Report filename (int linenum) ''build/c++11'' 5
              (''<'' @ gtext incl 1 @ ''> is an unapproved C++11 header.''))) @
       (if matched (Match (rx ''`s*#'') line) \<and> \<not> matched (Match (rx ''`s*#`s*define`b'') line) then []
        else concat (map (\<lambda>top_name.
          report_if (matched (Search (rx (''`bstd::'' @ top_name @ ''`b'')) line))
            (Report filename (int linenum) ''build/c++11'' 5
              (''std::'' @ top_name @ '' is an unapproved C++11 class or function.  Send c-style '' @
               ''an example of where it would make your code more readable, and '' @
               ''they may let you use it.'')))
          [''alignment_of'', ''aligned_union'']))))\<close>

definition FlagCxx14Features :: "string \<Rightarrow> CleansedLines \<Rightarrow> nat \<Rightarrow> report list res" where
  \<open>FlagCxx14Features filename clean_lines linenum =
     bind_res (py_nth (elided clean_lines) (int linenum)) (\<lambda>line. Inr (
       case Match (rx ''`s*#`s*include`s+[<"]([^<"]+)[">]'') line of
         None \<Rightarrow> []
       | Some incl \<Rightarrow>
         report_if (gtext incl 1 \<in> {''scoped_allocator'', ''shared_mutex''})
           (Report filename (int linenum) ''build/c++14'' 5
             (''<'' @ gtext incl 1 @ ''> is an unapproved C++14 header.''))))\<close>

end
