(* ===== verification/Line_Laws.thy ===== *)
theory Line_Laws
  imports Language_Checks
begin

text \<open>
  Two checks that may raise on a line of valid C++: the check of constructors joins the pieces of an
  argument list split at commas and runs past its end, the check of casts reads the character after
  a closing bracket at the end of the line.
\<close>

section \<open>Constructor arguments\<close>

lemma join_merge: "join sep ((a @ sep @ x) # xs) = join sep (a # x # xs)"
  by (cases xs) simp_all

lemma collapse_arg_result:
  "collapse_arg a as = Inr (b, bs) \<Longrightarrow>
   \<not> open_arg b \<and> join '','' (b # bs) = join '','' (a # as)"
proof (induction a as rule: collapse_arg.induct)
  case (2 a x as)
  with join_merge [of "'',''" a x as] show ?case by (auto split: if_splits)
qed (auto split: if_splits)

lemma collapse_arg_error:
  "collapse_arg a as = Inl e \<Longrightarrow> e = IndexError \<and> (\<forall>j \<le> length as. open_arg (join '','' (a # take j as)))"
proof (induction a as rule: collapse_arg.induct)
  case (1 a)
  then show ?case by (auto split: if_splits)
next
  case (2 a x as)
  then have a: "open_arg a" and IH: "e = IndexError"
    "\<forall>j \<le> length as. open_arg (join '','' ((a @ '','' @ x) # take j as))"
    by (auto split: if_splits)
  have "open_arg (join '','' (a # take j (x # as)))" if "j \<le> length (x # as)" for j
  proof (cases j)
    case (Suc k)
    with join_merge [of "'',''" a x "take k as"] IH(2) that show ?thesis by (auto simp del: join.simps)
  qed (simp add: a)
  with IH(1) show ?case by blast
qed

lemma collapse_arg_drop:
  "collapse_arg a as = Inr (b, bs) \<Longrightarrow> \<exists>n \<le> length as. bs = drop n as"
proof (induction a as rule: collapse_arg.induct)
  case (2 a x as)
  show ?case
  proof (cases "open_arg a")
    case True
    with 2 obtain n where "n \<le> length as" "bs = drop n as" by auto
    then show ?thesis by (intro exI [of _ "Suc n"]) simp
  next
    case False
    with 2 show ?thesis by (intro exI [of _ 0]) simp
  qed
qed (auto split: if_splits)

lemma collapse_args_Nil: "collapse_args as = Inr [] \<longleftrightarrow> as = []"
  by (cases as) (auto simp: bind_res_Inr_iff split: sum.splits)

lemma join_Cons: "bs \<noteq> [] \<Longrightarrow> join sep (b # bs) = b @ sep @ join sep bs"
  by (cases bs) simp_all

text \<open>C25: Joining the arguments of a constructor loses nothing: put together with commas they are the
  argument list again, and none of them has more opening than closing brackets. It raises only
  \<open>IndexError\<close>, and only if some argument stays open up to the end of the list, as every argument with
  a shift operator in its default value can.\<close>

theorem collapse_args_result:
  "(\<forall>bs. collapse_args args = Inr bs \<longrightarrow>
      join '','' bs = join '','' args \<and> (\<forall>b \<in> set bs. \<not> open_arg b)) \<and>
   (\<forall>e. collapse_args args = Inl e \<longrightarrow> e = IndexError \<and>
      (\<exists>k < length args. \<forall>j. k < j \<longrightarrow> j \<le> length args \<longrightarrow> open_arg (join '','' (slice k j args))))"
proof (induction args rule: collapse_args.induct)
  case 1
  then show ?case by simp
next
  case (2 a args)
  show ?case
  proof (cases "collapse_arg a args")
    case (Inl e)
    have "open_arg (join '','' (slice 0 j (a # args)))" if "0 < j" "j \<le> length (a # args)" for j
      using collapse_arg_error [OF Inl] that by (cases j) auto
    with collapse_arg_error [OF Inl] Inl show ?thesis by auto
  next
    case (Inr p)
    obtain b as where p: "p = (b, as)" by fastforce
    with Inr have b: "\<not> open_arg b" "join '','' (b # as) = join '','' (a # args)"
      using collapse_arg_result by blast+
    from Inr p obtain n where n: "n \<le> length args" "as = drop n args" using collapse_arg_drop by blast
    show ?thesis
    proof (cases "collapse_args as")
      case e: (Inl e)
      with "2.IH" [OF Inr p [symmetric]] obtain k where k: "e = IndexError" "k < length as"
        "\<And>j. k < j \<Longrightarrow> j \<le> length as \<Longrightarrow> open_arg (join '','' (slice k j as))" by auto
      have "open_arg (join '','' (slice (Suc (n + k)) j (a # args)))" if "Suc (n + k) < j" "j \<le> length (a # args)" for j
      proof -
        define i where "i = j - Suc n"
        then have i: "j = Suc (n + i)" using that(1) by simp
        have "slice (Suc (n + k)) j (a # args) = slice k i as"
          by (simp add: slice_def i n(2) drop_take add.commute)
        with k(3) [of i] that n i show ?thesis by simp
      qed
      moreover have "Suc (n + k) < length (a # args)" using k(2) n by simp
      ultimately show ?thesis using k(1) Inr p e by auto
    next
      case bs: (Inr bs)
      with "2.IH" [OF Inr p [symmetric]] have IH: "join '','' bs = join '','' as" "\<forall>b \<in> set bs. \<not> open_arg b" by auto
      have "join '','' (b # bs) = join '','' (b # as)"
        using IH(1) collapse_args_Nil [of as] bs by (cases "as = []") (auto simp: join_Cons)
      with b IH(2) Inr p bs show ?thesis by auto
    qed
  qed
qed

text \<open>A constructor with a shift in a default value ends the run of the linter.\<close>

abbreviation in_class :: NestingState where
  "in_class \<equiv> push (new_BlockInfo 0 True\<lparr>kind := ClassBlock \<lparr>class_name = ''Foo'', is_derived = False,
     class_access = ''public'', is_struct = False, class_indent = 0, last_line = 9\<rparr>\<rparr>) new_NestingState"

theorem collapse_args_result_witness:
  "constructor_reports ''a.cc'' 3 ''  Foo(int x = 1 << 3);'' in_class = Inl IndexError \<and>
   collapse_args [''int x = 1 << 3''] = Inl IndexError \<and>
   collapse_args [''map<int'', '' int> m'', '' int x''] = Inr [''map<int, int> m'', '' int x''] \<and>
   join '','' [''map<int, int> m'', '' int x''] = join '','' [''map<int'', '' int> m'', '' int x'']"
proof -
  have "constructor_reports ''a.cc'' 3 ''  Foo(int x = 1 << 3);'' in_class = Inl IndexError"
    "collapse_args [''int x = 1 << 3''] = Inl IndexError" by code_simp+
  moreover have c: "collapse_args [''map<int'', '' int> m'', '' int x''] = Inr [''map<int, int> m'', '' int x'']"
    by code_simp
  moreover have "join '','' [''map<int, int> m'', '' int x''] = join '','' [''map<int'', '' int> m'', '' int x'']"
    using collapse_args_result [of "[''map<int'', '' int> m'', '' int x'']"] c by blast
  ultimately show ?thesis by blast
qed

section \<open>Casts\<close>

text \<open>An address taken of a cast whose operand is on the next line ends the run as well.\<close>

lemma cast_at_end_of_line:
  "CheckCasts ''a.cc'' \<lparr>elided = [''  p = &static_cast<int*>'', ''      (q);''], lines = [''  p = &static_cast<int*>'', ''      (q);''],
     raw_lines = [''  p = &static_cast<int*>'', ''      (q);''], num_lines = 2,
     lines_without_raw_strings = [''  p = &static_cast<int*>'', ''      (q);'']\<rparr> 0 = Inl IndexError"
  by code_simp

end
