(* ===== verification/Guard_Laws.thy ===== *)
theory Guard_Laws
  imports File_Checks
begin

text \<open>
  The header guard check on a file with a guard: what the loop over the lines finds, how the pattern
  for the \<open>#endif\<close> line, which contains the name of the guard, is compiled and matched, and the
  reports that follow.
\<close>

section \<open>The loop over the lines\<close>

definition scan_from :: "nat \<Rightarrow> string list \<Rightarrow> guard_scan \<Rightarrow> guard_scan" where
  "scan_from a ls g = fold guard_line (zip [a..<a + length ls] ls) g"

lemma scan_from_Nil [simp]: "scan_from a [] g = g"
  by (simp add: scan_from_def)

lemma scan_from_Cons [simp]: "scan_from a (l # ls) g = scan_from (Suc a) ls (guard_line (a, l) g)"
  by (simp add: scan_from_def upt_rec)

lemma scan_from_append: "scan_from a (xs @ ys) g = scan_from (a + length xs) ys (scan_from a xs g)"
  by (induction xs arbitrary: a g) simp_all

lemma scan_guard_from: "scan_guard ls = scan_from 0 ls
   \<lparr>gs_ifndef = [], gs_ifndef_linenum = 0, gs_define = [], gs_endif = [], gs_endif_linenum = 0\<rparr>"
  by (simp add: scan_guard_def scan_from_def)

lemma guard_line_plain:
  assumes "split_ws l = [] \<or> hd (split_ws l) \<notin> {''#ifndef'', ''#define''}"
  shows "gs_ifndef (guard_line (n, l) g) = gs_ifndef g" "gs_define (guard_line (n, l) g) = gs_define g"
  using assms by (cases "split_ws l"; auto simp: guard_line_def Let_def)+

lemma guard_line_found:
  assumes "gs_ifndef g \<noteq> []" "gs_define g \<noteq> []"
  shows "gs_ifndef (guard_line (n, l) g) = gs_ifndef g" "gs_define (guard_line (n, l) g) = gs_define g"
    "gs_ifndef_linenum (guard_line (n, l) g) = gs_ifndef_linenum g"
  using assms by (auto simp: guard_line_def Let_def)

lemma guard_line_endif:
  "gs_endif (guard_line (n, l) g) = (if startswith l ''#endif'' then l else gs_endif g)"
  "gs_endif_linenum (guard_line (n, l) g) = (if startswith l ''#endif'' then n else gs_endif_linenum g)"
  by (simp_all add: guard_line_def Let_def)

lemma scan_plain:
  "\<forall>l \<in> set ls. split_ws l = [] \<or> hd (split_ws l) \<notin> {''#ifndef'', ''#define''} \<Longrightarrow>
   gs_ifndef (scan_from a ls g) = gs_ifndef g \<and> gs_define (scan_from a ls g) = gs_define g"
  by (induction ls arbitrary: a g) (auto simp: guard_line_plain)

lemma scan_found:
  "gs_ifndef g \<noteq> [] \<Longrightarrow> gs_define g \<noteq> [] \<Longrightarrow>
   gs_ifndef (scan_from a ls g) = gs_ifndef g \<and> gs_define (scan_from a ls g) = gs_define g \<and>
   gs_ifndef_linenum (scan_from a ls g) = gs_ifndef_linenum g"
  by (induction ls arbitrary: a g) (auto simp: guard_line_found)

lemma scan_no_endif:
  "\<forall>l \<in> set ls. \<not> startswith l ''#endif'' \<Longrightarrow>
   gs_endif (scan_from a ls g) = gs_endif g \<and> gs_endif_linenum (scan_from a ls g) = gs_endif_linenum g"
  by (induction ls arbitrary: a g) (auto simp: guard_line_endif)

lemma split_ws_word: "w \<noteq> [] \<Longrightarrow> \<forall>c \<in> set w. \<not> is_space c \<Longrightarrow> split_ws w = [w]"
proof -
  assume "w \<noteq> []" "\<forall>c \<in> set w. \<not> is_space c"
  then obtain c cs where w: "w = c # cs" "\<not> is_space c" "\<forall>c \<in> set cs. \<not> is_space c" by (cases w) auto
  from w(3) have "takeWhile (Not \<circ> is_space) cs = cs" "dropWhile (Not \<circ> is_space) cs = []" by simp_all
  moreover have "split_ws [] = []" by (simp add: split_ws.simps)
  ultimately show ?thesis using w(1,2) by (subst split_ws.simps) (simp del: dropWhile_eq_Nil_conv)
qed

lemma split_ws_two:
  assumes "v \<noteq> []" "\<forall>c \<in> set v. \<not> is_space c" "w \<noteq> []" "\<forall>c \<in> set w. \<not> is_space c"
  shows "split_ws (v @ '' '' @ w) = [v, w]"
proof -
  from assms obtain c cs where v: "v = c # cs" "\<not> is_space c" "\<forall>c \<in> set cs. \<not> is_space c" by (cases v) auto
  have sp: "is_space CHR '' ''" by (simp add: is_space_def)
  have "takeWhile (Not \<circ> is_space) (cs @ '' '' @ w) = cs" "dropWhile (Not \<circ> is_space) (cs @ '' '' @ w) = '' '' @ w"
    using v(3) sp by (simp_all add: takeWhile_append2 dropWhile_append2)
  moreover have "split_ws ('' '' @ w) = split_ws w"
    using sp by (subst (1 2) split_ws.simps) simp
  ultimately show ?thesis
    using v split_ws_word [OF assms(3,4)] by (subst split_ws.simps) simp
qed

lemma scan_guard_found:
  assumes "ls = pre @ [''#ifndef '' @ g, ''#define '' @ g] @ body @ [e] @ post"
    and "g \<noteq> []" "\<forall>c \<in> set g. \<not> is_space c" "startswith e ''#endif''"
    and "\<forall>l \<in> set pre. split_ws l = [] \<or> hd (split_ws l) \<notin> {''#ifndef'', ''#define''}"
    and "\<forall>l \<in> set post. \<not> startswith l ''#endif''"
  shows "gs_ifndef (scan_guard ls) = g" "gs_define (scan_guard ls) = g"
    "gs_ifndef_linenum (scan_guard ls) = length pre"
    "gs_endif (scan_guard ls) = e" "gs_endif_linenum (scan_guard ls) = length pre + 2 + length body"
proof -
  define s0 where "s0 = \<lparr>gs_ifndef = [], gs_ifndef_linenum = 0, gs_define = [], gs_endif = [], gs_endif_linenum = 0\<rparr>"
  define s1 where "s1 = scan_from 0 pre s0"
  define s2 where "s2 = guard_line (Suc (length pre), ''#define '' @ g) (guard_line (length pre, ''#ifndef '' @ g) s1)"
  define s3 where "s3 = scan_from (length pre + 2) body s2"
  define s4 where "s4 = guard_line (length pre + 2 + length body, e) s3"
  have ls: "scan_guard ls = scan_from (Suc (length pre + 2 + length body)) post s4"
    by (simp add: scan_guard_from s0_def [symmetric] assms(1) scan_from_append s1_def s2_def s3_def s4_def)
  have s1: "gs_ifndef s1 = []" "gs_define s1 = []"
    using scan_plain [OF assms(5)] by (auto simp: s1_def s0_def)
  have words: "split_ws (''#ifndef '' @ g) = [''#ifndef'', g]" "split_ws (''#define '' @ g) = [''#define'', g]"
    using split_ws_two [of "''#ifndef''" g] split_ws_two [of "''#define''" g] assms(2,3) by (simp_all add: is_space_def)
  have s2: "gs_ifndef s2 = g" "gs_define s2 = g" "gs_ifndef_linenum s2 = length pre"
    using s1 assms(2) by (simp_all add: s2_def guard_line_def Let_def words [simplified])
  have s3: "gs_ifndef s3 = g" "gs_define s3 = g" "gs_ifndef_linenum s3 = length pre"
    using scan_found [of s2 "length pre + 2" body] s2 assms(2) by (simp_all add: s3_def)
  have s4: "gs_ifndef s4 = g" "gs_define s4 = g" "gs_ifndef_linenum s4 = length pre"
    "gs_endif s4 = e" "gs_endif_linenum s4 = length pre + 2 + length body"
    using s3 assms(2,4) by (simp_all add: s4_def guard_line_found guard_line_endif)
  show "gs_ifndef (scan_guard ls) = g" "gs_define (scan_guard ls) = g"
    "gs_ifndef_linenum (scan_guard ls) = length pre"
    "gs_endif (scan_guard ls) = e" "gs_endif_linenum (scan_guard ls) = length pre + 2 + length body"
    unfolding ls using scan_found [of s4] scan_no_endif [OF assms(6)] s4 assms(2) by simp_all
qed

section \<open>A name inside a pattern\<close>

text \<open>How the parser reads the parts of the pattern: plain characters, an escape, a star.\<close>

lemma parse_Lit:
  "c \<notin> set ''|()[*+?{.^$'' \<Longrightarrow> c \<noteq> backslash \<Longrightarrow>
   parse (c # cs) k st alts cur = parse cs k st alts (Lit c # cur)"
  by (subst parse.simps) (simp add: quantifier_def atom_def)

lemma parse_escape:
  "escape d = Some r \<Longrightarrow> parse (backslash # d # ds) k st alts cur = parse ds k st alts (r # cur)"
  by (subst parse.simps) simp

lemma parse_star:
  "repeatable r \<Longrightarrow> cs \<noteq> [] \<Longrightarrow> hd cs \<noteq> CHR ''?'' \<Longrightarrow>
   parse (CHR ''*'' # cs) k st alts (r # rs) = parse cs k st alts (Rep True 0 None r # rs)"
  by (subst parse.simps) (auto simp: quantifier_def split: list.split)

lemma macro_char_plain: "macro_char c \<Longrightarrow> c \<notin> set ''|()[*+?{.^$'' \<and> c \<noteq> backslash \<and> c \<noteq> CHR 0x60 \<and>
    \<not> is_space c \<and> is_word c"
  by (auto simp: macro_char_def is_digit_def in_range_def is_space_def is_word_def is_alpha_ascii_def)

lemma parse_macro:
  "list_all macro_char v \<Longrightarrow> parse (v @ s) k st alts cur = parse s k st alts (rev (map Lit v) @ cur)"
proof (induction v arbitrary: cur)
  case (Cons c v)
  then show ?case using macro_char_plain [of c] by (simp add: parse_Lit)
qed simp

lemma raw_macro: "list_all macro_char v \<Longrightarrow> raw v = v"
  by (induction v) (auto simp: raw_def dest: macro_char_plain)

lemma mk_seq_lits: "mk_seq (map Lit u @ r # rs) = lits u (mk_seq (r # rs))"
proof (induction u)
  case (Cons c u)
  then show ?case by (cases u) simp_all
qed simp

definition spaces_re :: re where
  "spaces_re = Rep True 0 None (Cls True [CSpace True])"

lemma rx_endif:
  assumes "list_all macro_char v" "v \<noteq> []"
  shows \<open>rx (''#endif`s*//`s*'' @ v @ ''(_)?`b'') =
    lits ''#endif'' (Seq spaces_re (lits ''//'' (Seq spaces_re
      (lits v (Seq (Rep True 0 (Some 1) (Grp 1 (Lit CHR ''_''))) (WordB True))))))\<close>
proof -
  obtain c cs where v: "v = c # cs" using assms(2) by (cases v) auto
  then have hd: "hd (v @ t) \<noteq> CHR ''?''" for t
    using assms(1) macro_char_plain [of c] by auto
  have s: "escape CHR ''s'' = Some (Cls True [CSpace True])" by code_simp
  have b: "escape CHR ''b'' = Some (WordB True)" by code_simp
  let ?opt = "Rep True 0 (Some 1) (Grp 1 (Lit CHR ''_''))"
  let ?tail = "[CHR ''('', CHR ''_'', CHR '')'', CHR ''?'', backslash, CHR ''b'']"
  have tail: "parse ?tail 1 [] [] cur = Some (mk_seq (rev cur @ [?opt, WordB True]))" for cur
    by (simp add: parse.simps open_group_def quantifier_def atom_def close_alts_def b)
  have \<open>raw (''#endif`s*//`s*'' @ v @ ''(_)?`b'') =
      ''#endif'' @ backslash # ''s*//'' @ backslash # ''s*'' @ v @ ?tail\<close>
    using raw_macro [OF assms(1)] by (simp add: raw_def)
  moreover have "parse (''#endif'' @ backslash # ''s*//'' @ backslash # ''s*'' @ v @ ?tail) 1 [] [] [] =
      parse ?tail 1 [] [] (rev (map Lit v) @ spaces_re # rev (map Lit ''//'') @ spaces_re # rev (map Lit ''#endif''))"
    using hd assms(2)
    by (simp add: parse_Lit parse_escape [OF s] parse_star parse_macro [OF assms(1)] spaces_re_def)
  ultimately have \<open>rx (''#endif`s*//`s*'' @ v @ ''(_)?`b'') =
      mk_seq (map Lit ''#endif'' @ spaces_re # map Lit ''//'' @ spaces_re # map Lit v @ [?opt, WordB True])\<close>
    unfolding rx_def re_compile_def by (simp only: tail option.case) simp
  moreover have "mk_seq (r # map Lit u @ q # qs) = Seq r (mk_seq (map Lit u @ q # qs))" for r u q qs
    by (cases u) simp_all
  ultimately show ?thesis by (simp only: mk_seq_lits mk_seq.simps)
qed

lemma matches_spaces_lits:
  assumes "u \<noteq> []" "\<not> is_space (hd u)"
  shows "matches (Seq spaces_re (lits u r)) y = matches (lits u r) (adv (span is_space y) y)"
proof -
  have sp: "cls_has True [CSpace True] = is_space" by (auto simp: cls_has_def)
  show ?thesis
    unfolding spaces_re_def sp [symmetric]
    by (rule matches_run) (use assms in \<open>auto simp: matches_lits sp prefix_def\<close>)
qed

lemma Match_endif:
  assumes "list_all macro_char v" "v \<noteq> []"
  obtains m where \<open>Match (rx (''#endif`s*//`s*'' @ v @ ''(_)?`b'')) (''#endif  // '' @ v) = Some m\<close> "group m 1 = None"
proof -
  let ?opt = "Rep True 0 (Some 1) (Grp 1 (Lit CHR ''_''))"
  let ?r4 = "lits v (Seq ?opt (WordB True))"
  let ?r2 = "lits ''//'' (Seq spaces_re ?r4)"
  let ?x = "init (''#endif  // '' @ v)"
  have mc: "macro_char (last v)" "macro_char (hd v)" using assms by (auto simp: list_all_iff)
  have nosp: "\<not> is_space (hd v)" using macro_char_plain [OF mc(2)] by simp
  have slash: "\<not> is_space (hd ''//'')" by (simp add: is_space_def)
  have none: "takeWhile is_space v = []"
    using nosp assms(2) by (cases v) auto
  let ?y = "adv (11 + length v) ?x"
  have "matches (lits ''#endif'' (Seq spaces_re ?r2)) ?x = matches ?r4 (adv 11 ?x)"
    using none by (simp add: matches_lits matches_spaces_lits [OF _ slash] matches_spaces_lits [OF assms(2) nosp]
        init_def adv_adv is_space_def eval_nat_numeral del: lits.simps matches.simps(8))
  also have "\<dots> = matches (Seq ?opt (WordB True)) ?y"
    by (simp add: matches_lits init_def adv_adv del: matches.simps(8))
  also have "\<dots> = [?y]"
  proof -
    have "rest ?y = []" by (simp add: init_def)
    moreover have "(''#endif  // '' @ v) ! (10 + length v) = last v"
      using assms(2) by (simp add: nth_append last_conv_nth)
    then have "prv ?y = Some (last v)" by (simp add: adv_def init_def)
    ultimately show ?thesis
      using macro_char_plain [OF mc(1)] by (simp add: matches_opt matches_Lit at_word_boundary_def)
  qed
  finally have "run (lits ''#endif'' (Seq spaces_re ?r2)) ?x = Some ?y" by (simp add: run_def)
  then have \<open>Match (rx (''#endif`s*//`s*'' @ v @ ''(_)?`b'')) (''#endif  // '' @ v) = Some (mk_mobj ?x ?y)\<close>
    unfolding Match_def re_match_def rx_endif [OF assms] by (simp only: option.map)
  moreover have "group (mk_mobj ?x ?y) 1 = None"
    by (simp add: mk_mobj_def group_def init_def)
  ultimately show thesis by (rule that)
qed

section \<open>The check\<close>

lemma endif_accepted:
  assumes "list_all macro_char v" "v \<noteq> []" "gs_endif g = ''#endif  // '' @ v"
  shows "endif_reports filename v ls g = []"
proof -
  obtain m where \<open>Match (rx (''#endif`s*//`s*'' @ v @ ''(_)?`b'')) (gs_endif g) = Some m\<close> "group m 1 = None"
    using Match_endif [OF assms(1,2)] unfolding assms(3) by blast
  then show ?thesis by (simp only: endif_reports_def Let_def option.case if_False option.distinct)
qed

text \<open>C10: A header with the guard \<open>g\<close> around its contents, and the suggested name \<open>v\<close> in the comment of
  the last \<open>#endif\<close>, is reported exactly if \<open>g\<close> is not \<open>v\<close>: once, on the line of the \<open>#ifndef\<close>, with
  confidence 0 for a trailing underscore too many and 5 otherwise. What stands between the guard lines
  does not matter, and neither do directives before or after them that are no candidates.\<close>

theorem header_guard_checked:
  assumes "lines_without_raw_strings c =
      pre @ [''#ifndef '' @ g, ''#define '' @ g] @ body @ [''#endif  // '' @ v] @ post"
    and "GetHeaderGuardCPPVariable f repo root filename = Some v"
    and "\<not> guard_exempt (lines_without_raw_strings c)"
    and "g \<noteq> []" "\<forall>ch \<in> set g. \<not> is_space ch"
    and "\<forall>l \<in> set pre. split_ws l = [] \<or> hd (split_ws l) \<notin> {''#ifndef'', ''#define''}"
    and "\<forall>l \<in> set post. \<not> startswith l ''#endif''"
  shows "CheckForHeaderGuard f repo root filename c = Some (Inr (
    (if g = v then [] else
       [ReadNolint (''#ifndef '' @ g) (int (length pre)),
        Err (Report filename (int (length pre)) ''build/header_guard'' (if g = v @ ''_'' then 0 else 5)
          (''#ifndef header guard has wrong style, please use: '' @ v))]) @
    [ReadNolint (''#endif  // '' @ v) (int (length pre + 2 + length body))]))"
proof -
  let ?ls = "lines_without_raw_strings c"
  from assms(2) obtain path where "v = map guard_char path @ ''_''"
    by (auto simp: GetHeaderGuardCPPVariable_def Let_def guard_text_chars)
  then have v: "list_all macro_char v" "v \<noteq> []"
    by (auto simp: list_all_iff guard_char_macro) (simp add: macro_char_def)
  have e: "startswith (''#endif  // '' @ v) ''#endif''" by simp
  note scan = scan_guard_found [OF assms(1,4,5) e assms(6,7)]
  have nth: "py_nth ?ls (int (length pre)) = Inr (''#ifndef '' @ g)"
    "py_nth ?ls (int (length pre + 2 + length body)) = Inr (''#endif  // '' @ v)"
    unfolding assms(1) by (subst py_nth_nat; simp add: nth_append)+
  show ?thesis
    using assms(3,4) scan nth
    by (simp add: CheckForHeaderGuard_def Let_def assms(2) endif_accepted [OF v])
qed

abbreviation guarded :: CleansedLines where
  "guarded \<equiv> \<lparr>elided = [], lines = [], raw_lines = [], num_lines = 0, lines_without_raw_strings =
     [''// poller'', ''#ifndef CORE_POLLER_H'', ''#define CORE_POLLER_H'', ''#define N 3'', ''#ifdef X'', ''#endif'',
      ''#endif  // CORE_POLLER_H_'', ''// end'']\<rparr>"

theorem header_guard_checked_witness:
  "CheckForHeaderGuard sample_fs None (Some ''src'') ''src/core/poller.h'' guarded = Some (Inr
     [ReadNolint ''#ifndef CORE_POLLER_H'' 1,
      Err (Report ''src/core/poller.h'' 1 ''build/header_guard'' 5
        ''#ifndef header guard has wrong style, please use: CORE_POLLER_H_''),
      ReadNolint ''#endif  // CORE_POLLER_H_'' 6])"
proof -
  have l: "lines_without_raw_strings guarded = [''// poller''] @
      [''#ifndef '' @ ''CORE_POLLER_H'', ''#define '' @ ''CORE_POLLER_H''] @ [''#define N 3'', ''#ifdef X'', ''#endif''] @
      [''#endif  // '' @ ''CORE_POLLER_H_''] @ [''// end'']" by simp
  have g: "GetHeaderGuardCPPVariable sample_fs None (Some ''src'') ''src/core/poller.h'' = Some ''CORE_POLLER_H_''"
    by code_simp
  have h: "\<not> guard_exempt (lines_without_raw_strings guarded)" "\<forall>ch \<in> set ''CORE_POLLER_H''. \<not> is_space ch"
    "\<forall>l \<in> set [''// poller'']. split_ws l = [] \<or> hd (split_ws l) \<notin> {''#ifndef'', ''#define''}"
    "\<forall>l \<in> set [''// end'']. \<not> startswith l ''#endif''" by code_simp+
  show ?thesis using header_guard_checked [OF l g h(1) _ h(2-4)] by simp
qed

end
