(* ===== verification/Include_Use.thy ===== *)
theory Include_Use
  imports Include_Checks
begin

text \<open>
  Include what you use: the tables of the standard library, the search for the headers a file needs,
  the comparison with the includes of the file and of its own header, and the check that a source file
  includes its header. Files are read through a parameter \<open>io\<close>: the decoded text of a file, or
  \<open>None\<close> when opening it raises \<open>IOError\<close>.
\<close>

section \<open>Python on this part of the code\<close>

definition strip_chars :: "string \<Rightarrow> string \<Rightarrow> string" where
  "strip_chars cs s = rev (dropWhile (\<lambda>c. c \<in> set cs) (rev (dropWhile (\<lambda>c. c \<in> set cs) s)))"

text \<open>The iteration over a file opened by \<open>codecs\<close>: the lines are those of \<open>str.splitlines\<close>, which
  ends a line at more characters than the newline, and keep their ends.\<close>

definition is_line_end :: "char \<Rightarrow> bool" where
  "is_line_end c \<longleftrightarrow> c \<in> set [CHR 0x0A, CHR 0x0B, CHR 0x0C, CHR 0x0D, CHR 0x1C, CHR 0x1D, CHR 0x1E, CHR 0x85]"

fun splitlines :: "string \<Rightarrow> string list" where
  "splitlines [] = []"
| "splitlines [c] = [[c]]"
| "splitlines (c # d # cs) =
     (if is_line_end c \<and> \<not> (c = CHR 0x0D \<and> d = newline) then [c] # splitlines (d # cs)
      else case splitlines (d # cs) of
             [] \<Rightarrow> [[c]]
           | l # ls \<Rightarrow> (c # l) # ls)"

lemma splitlines_Cons: "splitlines (c # cs) \<noteq> []"
  by (cases cs) (auto split: list.split)

lemma concat_splitlines: "concat (splitlines s) = s"
  by (induction s rule: splitlines.induct) (auto simp: splitlines_Cons split: list.splits)

section \<open>Tables\<close>

definition HEADERS_CONTAINING_TEMPLATES :: "(string \<times> string list) list" where
  "HEADERS_CONTAINING_TEMPLATES = [
     (''<deque>'', [''deque'']),
     (''<functional>'', [''unary_function'', ''binary_function'',
        ''plus'', ''minus'', ''multiplies'', ''divides'', ''modulus'',
        ''negate'',
        ''equal_to'', ''not_equal_to'', ''greater'', ''less'',
        ''greater_equal'', ''less_equal'',
        ''logical_and'', ''logical_or'', ''logical_not'',
        ''unary_negate'', ''not1'', ''binary_negate'', ''not2'',
        ''bind1st'', ''bind2nd'',
        ''pointer_to_unary_function'',
        ''pointer_to_binary_function'',
        ''ptr_fun'',
        ''mem_fun_t'', ''mem_fun'', ''mem_fun1_t'', ''mem_fun1_ref_t'',
        ''mem_fun_ref_t'',
        ''const_mem_fun_t'', ''const_mem_fun1_t'',
        ''const_mem_fun_ref_t'', ''const_mem_fun1_ref_t'',
        ''mem_fun_ref'']),
     (''<limits>'', [''numeric_limits'']),
     (''<list>'', [''list'']),
     (''<map>'', [''multimap'']),
     (''<memory>'', [''allocator'', ''make_shared'', ''make_unique'', ''shared_ptr'',
        ''unique_ptr'', ''weak_ptr'']),
     (''<queue>'', [''queue'', ''priority_queue'']),
     (''<set>'', [''multiset'']),
     (''<stack>'', [''stack'']),
     (''<string>'', [''char_traits'', ''basic_string'']),
     (''<tuple>'', [''tuple'']),
     (''<unordered_map>'', [''unordered_map'', ''unordered_multimap'']),
     (''<unordered_set>'', [''unordered_set'', ''unordered_multiset'']),
     (''<utility>'', [''pair'']),
     (''<vector>'', [''vector'']),
     (''<hash_map>'', [''hash_map'', ''hash_multimap'']),
     (''<hash_set>'', [''hash_set'', ''hash_multiset'']),
     (''<slist>'', [''slist''])]"

definition HEADERS_MAYBE_TEMPLATES :: "(string \<times> string list) list" where
  "HEADERS_MAYBE_TEMPLATES = [
     (''<algorithm>'', [''copy'', ''max'', ''min'', ''min_element'', ''sort'', ''transform'']),
     (''<utility>'', [''forward'', ''make_pair'', ''move'', ''swap''])]"

definition RE_PATTERN_STRING :: re where
  \<open>RE_PATTERN_STRING = rx ''`bstring`b''\<close>

type_synonym use_pattern = "re \<times> string \<times> string"

definition re_pattern_headers_maybe_templates :: "use_pattern list" where
  \<open>re_pattern_headers_maybe_templates =
     concat (map (\<lambda>(header, templates).
       map (\<lambda>template. (rx (''[^>.]`b'' @ template @ ''(<.*?>)?`([^`)]''), template, header)) templates)
       HEADERS_MAYBE_TEMPLATES) @
     [(rx ''[^>.]`bset`s*`<'', ''set<>'', ''<set>''),
      (rx ''(std`b::`bmap`s*`<)|(^(std`b::`b)map`b`(`s*`<)'', ''map<>'', ''<map>'')]\<close>

definition re_pattern_templates :: "use_pattern list" where
  \<open>re_pattern_templates =
     concat (map (\<lambda>(header, templates).
       map (\<lambda>template. (rx (''(`<|`b)'' @ template @ ''`s*`<''), template @ ''<>'', header)) templates)
       HEADERS_CONTAINING_TEMPLATES)\<close>

section \<open>Modules\<close>

definition TEST_FILE_SUFFIX :: re where
  \<open>TEST_FILE_SUFFIX = rx (''('' @ join ''|'' test_suffixes @ '')$'')\<close>

definition public_path :: "string \<Rightarrow> string" where
  "public_path p = replace ''/internal/'' ''/'' (replace ''/public/'' ''/'' p)"

definition module_of_source :: "string \<Rightarrow> string \<Rightarrow> string \<Rightarrow> string" where
  "module_of_source filename_cc extension base =
     public_path (let p = slice_upto (- int (length extension)) filename_cc
       in case Search TEST_FILE_SUFFIX base of
            Some m \<Rightarrow> slice_upto (- int (length (gtext m 1))) p
          | None \<Rightarrow> p)"

definition module_of_header :: "string \<Rightarrow> string \<Rightarrow> string" where
  "module_of_header filename_h extension =
     public_path (let p = slice_upto (- int (length extension)) filename_h
       in if endswith p ''-inl'' then slice_upto (- 4) p else p)"

definition lstrip_dots :: "string \<Rightarrow> string" where
  "lstrip_dots s = dropWhile (\<lambda>c. c = CHR ''.'') s"

definition FilesBelongToSameModule :: "fs \<Rightarrow> world \<Rightarrow> string \<Rightarrow> string \<Rightarrow> (bool \<times> string) option" where
  "FilesBelongToSameModule f w filename_cc filename_h =
     (case Split f (repository w) filename_cc of
        None \<Rightarrow> None
      | Some (project_cc, base_cc, extension_cc) \<Rightarrow>
        if lstrip_dots extension_cc \<notin> GetNonHeaderExtensions w then Some (False, [])
        else case Extension f (repository w) filename_h of
          None \<Rightarrow> None
        | Some extension_h \<Rightarrow>
          if \<not> IsHeaderExtension (lstrip_dots extension_h) w then Some (False, [])
          else let filename_cc = module_of_source filename_cc extension_cc base_cc;
                   filename_h = module_of_header filename_h extension_h;
                   files_belong_to_same_module = endswith filename_cc filename_h
               in Some (files_belong_to_same_module,
                    if files_belong_to_same_module then slice_upto (- int (length filename_h)) filename_cc else []))"

section \<open>The includes of a file and of its header\<close>

type_synonym include_dict = "(string \<times> int) list"

definition setdefault :: "string \<Rightarrow> int \<Rightarrow> include_dict \<Rightarrow> include_dict" where
  "setdefault k v d = (if map_of d k = None then AList.update k v d else d)"

definition header_line :: "nat \<times> string \<Rightarrow> include_dict \<Rightarrow> include_dict" where
  "header_line p d =
     (case p of (i, line) \<Rightarrow>
        case re_search RE_PATTERN_INCLUDE (CleanseComments line) of
          Some m \<Rightarrow> setdefault (gtext m 2) (int i + 1) d
        | None \<Rightarrow> d)"

definition UpdateIncludeState ::
  "(string \<Rightarrow> string option) \<Rightarrow> string \<Rightarrow> include_dict \<Rightarrow> bool \<times> include_dict" where
  "UpdateIncludeState io filename include_dict =
     (case io filename of
        None \<Rightarrow> (False, include_dict)
      | Some text \<Rightarrow> (True, fold header_line (zip [0..<length (splitlines text)] (splitlines text)) include_dict))"

text \<open>The loop over the keys the dictionary had at its start.\<close>

fun own_headers_loop ::
  "fs \<Rightarrow> (string \<Rightarrow> string option) \<Rightarrow> world \<Rightarrow> string \<Rightarrow> string list \<Rightarrow> bool \<Rightarrow> include_dict \<Rightarrow>
     (bool \<times> include_dict) option" where
  "own_headers_loop f io w abs_filename [] header_found d = Some (header_found, d)"
| "own_headers_loop f io w abs_filename (header # headers) header_found d =
     (case FilesBelongToSameModule f w abs_filename header of
        None \<Rightarrow> None
      | Some (same_module, common_path) \<Rightarrow>
        if same_module
        then case UpdateIncludeState io (common_path @ header) d of
               (b, d) \<Rightarrow> own_headers_loop f io w abs_filename headers (header_found \<or> b) d
        else own_headers_loop f io w abs_filename headers header_found d)"

section \<open>\<open>CheckForIncludeWhatYouUse\<close>\<close>

type_synonym required_dict = "(string \<times> nat \<times> string) list"

definition stl_prefix :: "string \<Rightarrow> bool" where
  "stl_prefix p \<longleftrightarrow> endswith p ''std::'' \<or> \<not> endswith p ''::''"

definition required_string :: "nat \<Rightarrow> string \<Rightarrow> required_dict \<Rightarrow> required_dict" where
  "required_string linenum line d =
     (case re_search RE_PATTERN_STRING line of
        Some m \<Rightarrow> if stl_prefix (take (m_start m) line)
          then AList.update ''<string>'' (linenum, ''string'') d else d
      | None \<Rightarrow> d)"

definition required_maybe :: "nat \<Rightarrow> string \<Rightarrow> use_pattern \<Rightarrow> required_dict \<Rightarrow> required_dict" where
  "required_maybe linenum line p d =
     (case p of (pattern, template, header) \<Rightarrow>
        if matched (re_search pattern line) then AList.update header (linenum, template) d else d)"

definition required_template :: "nat \<Rightarrow> string \<Rightarrow> use_pattern \<Rightarrow> required_dict \<Rightarrow> required_dict" where
  "required_template linenum line p d =
     (case p of (pattern, template, header) \<Rightarrow>
        case re_search pattern line of
          Some m \<Rightarrow> if stl_prefix (take (m_start m) line)
            then AList.update header (linenum, template) d else d
        | None \<Rightarrow> d)"

definition required_line :: "nat \<Rightarrow> string \<Rightarrow> required_dict \<Rightarrow> required_dict" where
  "required_line linenum line d =
     (if line = [] \<or> hd line = CHR ''#'' then d
      else let d = fold (required_maybe linenum line) re_pattern_headers_maybe_templates
                     (required_string linenum line d)
           in if CHR ''<'' \<notin> set line then d
              else fold (required_template linenum line) re_pattern_templates d)"

fun required_loop :: "string list \<Rightarrow> nat list \<Rightarrow> required_dict \<Rightarrow> required_dict res" where
  "required_loop ls [] d = Inr d"
| "required_loop ls (linenum # ns) d =
     bind_res (py_nth ls (int linenum)) (\<lambda>line. required_loop ls ns (required_line linenum line d))"

text \<open>The reports, in the order of the lines: headers that are needed and not included.\<close>

definition missing_headers :: "string \<Rightarrow> required_dict \<Rightarrow> include_dict \<Rightarrow> report list" where
  \<open>missing_headers filename required d =
     map (\<lambda>(header, linenum, template).
        Report filename (int linenum) ''build/include_what_you_use'' 4
          (''Add #include '' @ header @ '' for '' @ template))
       (filter (\<lambda>(header, linenum, template). map_of d (strip_chars ''<>"'' header) = None)
         (sort_key snd required))\<close>

definition CheckForIncludeWhatYouUse ::
  "fs \<Rightarrow> (string \<Rightarrow> string option) \<Rightarrow> world \<Rightarrow> string \<Rightarrow> CleansedLines \<Rightarrow> IncludeState \<Rightarrow>
     report list res option" where
  \<open>CheckForIncludeWhatYouUse f io w filename clean_lines include_state =
     bind_ro (ending (required_loop (elided clean_lines) [0..<num_lines clean_lines] [])) (\<lambda>required.
       let include_dict = fold (\<lambda>(header, linenum). AList.update header linenum)
             (concat (include_list include_state)) [];
           abs_filename = re_sub (rx ''_flymake`.cc$'') (\<lambda>_. ''.cc'') (FullName f filename)
       in bind_ro (safe (own_headers_loop f io w abs_filename (map fst include_dict) False include_dict))
            (\<lambda>(header_found, include_dict).
              if \<not> header_found \<and> (\<exists>ext \<in> GetNonHeaderExtensions w. endswith filename (''.'' @ ext))
              then ending (Inr [])
              else ending (Inr (missing_headers filename required include_dict))))\<close>

section \<open>\<open>CheckHeaderFileIncluded\<close>\<close>

text \<open>The two loops over the includes: \<open>None\<close> if the header is among them, else the line of the
  first include. A line number 0 counts as none, as the code tests it for truth.\<close>

fun first_include_loop :: "string \<Rightarrow> (string \<times> int) list \<Rightarrow> int option \<Rightarrow> int option option" where
  "first_include_loop headername [] first_include = Some first_include"
| "first_include_loop headername ((name, linenum) # fs) first_include =
     (if contains headername name \<or> contains name headername then None
      else first_include_loop headername fs
        (if first_include \<in> {None, Some 0} then Some linenum else first_include))"

fun header_file_loop ::
  "fs \<Rightarrow> world \<Rightarrow> string \<Rightarrow> string \<Rightarrow> IncludeState \<Rightarrow> string list \<Rightarrow> report list option" where
  "header_file_loop f w filename basefilename include_state [] = Some []"
| "header_file_loop f w filename basefilename include_state (ext # exts) =
     (let headerfile = basefilename @ ''.'' @ ext
      in if \<not> fs_exists f headerfile
         then header_file_loop f w filename basefilename include_state exts
         else Option.bind (RepositoryName f (repository w) headerfile) (\<lambda>headername.
           case first_include_loop headername (concat (include_list include_state)) None of
             None \<Rightarrow> Some []
           | Some first_include \<Rightarrow>
             Option.bind (RepositoryName f (repository w) filename) (\<lambda>name.
               map_option (\<lambda>rs. ReportAt filename first_include ''build/include'' 5
                   (name @ '' should include its header file '' @ headername) # rs)
                 (header_file_loop f w filename basefilename include_state exts))))"

definition CheckHeaderFileIncluded ::
  "fs \<Rightarrow> (string set \<Rightarrow> string list) \<Rightarrow> world \<Rightarrow> string \<Rightarrow> IncludeState \<Rightarrow> report list option" where
  "CheckHeaderFileIncluded f enum w filename include_state =
     Option.bind (Split f (repository w) filename) (\<lambda>(project, base, extension).
       if matched (Search TEST_FILE_SUFFIX base) then Some []
       else header_file_loop f w filename (slice_upto (int (length filename) - int (length extension)) filename)
         include_state (enum (GetHeaderExtensions w)))"

end
