(* ===== verification/Include_Use_Laws.thy ===== *)
theory Include_Use_Laws
  imports Include_Use
begin

text \<open>
  What the check for missing includes reports, against a definition of the headers a line uses.
\<close>

section \<open>Patterns that end in a character\<close>

fun ends_in :: "char \<Rightarrow> re \<Rightarrow> bool" where
  "ends_in c (Lit d) = (c = d)"
| "ends_in c (Seq r s) = ends_in c s"
| "ends_in c r = False"

lemma ends_in_needs: "ends_in c r \<Longrightarrow> needs [c] r"
proof (induction c r rule: ends_in.induct)
  case (1 c d)
  then show ?case using needs_lits [of "[c]" Eps] by (simp add: needs_def split: list.splits)
qed (auto intro: needs_Seq)

lemma search_needs:
  assumes "needs [c] r" "re_search r s = Some m"
  shows "c \<in> set s"
proof -
  obtain k q y where "y \<in> set (matches r (MS q (0 + k) (drop k s) []))"
    using search_from_run assms(2) unfolding re_search_def by blast
  then obtain u v where "drop k s = u @ [c] @ v"
    using assms(1) unfolding needs_def by (metis empty_iff empty_set mst.sel(3))
  then have "c \<in> set (drop k s)" by simp
  then show ?thesis by (rule in_set_dropD)
qed

lemma template_patterns_need_bracket:
  assumes "(p, t, h) \<in> set re_pattern_templates" "re_search p line = Some m"
  shows "CHR ''<'' \<in> set line"
proof -
  have "list_all (\<lambda>(p, t, h). ends_in CHR ''<'' p) re_pattern_templates" by code_simp
  with assms(1) have "ends_in CHR ''<'' p" by (auto simp: list_all_iff)
  from search_needs [OF ends_in_needs [OF this] assms(2)] show ?thesis .
qed

section \<open>Headers a line uses\<close>

text \<open>The reference: no shortcut for lines without an angle bracket, no order of the tables.\<close>

definition stl_match :: "re \<Rightarrow> string \<Rightarrow> bool" where
  "stl_match p line \<longleftrightarrow> (\<exists>m. re_search p line = Some m \<and> stl_prefix (take (m_start m) line))"

definition uses_header :: "string \<Rightarrow> string \<Rightarrow> bool" where
  "uses_header line h \<longleftrightarrow> line \<noteq> [] \<and> hd line \<noteq> CHR ''#'' \<and>
     (h = ''<string>'' \<and> stl_match RE_PATTERN_STRING line \<or>
      (\<exists>p t. (p, t, h) \<in> set re_pattern_headers_maybe_templates \<and> matched (re_search p line)) \<or>
      (\<exists>p t. (p, t, h) \<in> set re_pattern_templates \<and> stl_match p line))"

text \<open>A loop that enters the same line for all keys with some property.\<close>

definition marks :: "nat \<Rightarrow> (string \<Rightarrow> bool) \<Rightarrow> required_dict \<Rightarrow> required_dict \<Rightarrow> bool" where
  "marks n P d d' \<longleftrightarrow> (distinct (map fst d) \<longrightarrow> distinct (map fst d')) \<and>
     (\<forall>h. if P h then \<exists>t. map_of d' h = Some (n, t) else map_of d' h = map_of d h)"

lemma marks_refl: "(\<And>h. \<not> P h) \<Longrightarrow> marks n P d d"
  by (simp add: marks_def)

lemma marks_update: "marks n (\<lambda>h. h = k) d (AList.update k (n, t) d)"
  by (simp add: marks_def distinct_update update_conv')

lemma marks_trans:
  "marks n P d d' \<Longrightarrow> marks n Q d' d'' \<Longrightarrow> (\<And>h. R h \<longleftrightarrow> P h \<or> Q h) \<Longrightarrow> marks n R d d''"
  unfolding marks_def by metis

lemma marks_fold:
  "(\<And>p d. p \<in> set ps \<Longrightarrow> marks n (P p) d (upd p d)) \<Longrightarrow>
   marks n (\<lambda>h. \<exists>p \<in> set ps. P p h) d (fold upd ps d)"
proof (induction ps arbitrary: d)
  case (Cons p ps)
  have "marks n (P p) d (upd p d)" by (rule Cons.prems) simp
  moreover have "marks n (\<lambda>h. \<exists>p \<in> set ps. P p h) (upd p d) (fold upd ps (upd p d))"
    using Cons.prems by (intro Cons.IH) simp
  ultimately show ?case by (auto elim: marks_trans)
qed (simp add: marks_refl)

lemma marks_required_string:
  "marks n (\<lambda>h. h = ''<string>'' \<and> stl_match RE_PATTERN_STRING line) d (required_string n line d)"
  using marks_update [of n "''<string>''" d "''string''"]
  by (auto simp: required_string_def stl_match_def intro: marks_refl split: option.split)

lemma marks_required_maybe:
  "marks n (\<lambda>h. h = snd (snd p) \<and> matched (re_search (fst p) line)) d (required_maybe n line p d)"
  using marks_update [of n "snd (snd p)" d "fst (snd p)"]
  by (auto simp: required_maybe_def intro: marks_refl split: prod.split)

lemma marks_required_template:
  "marks n (\<lambda>h. h = snd (snd p) \<and> stl_match (fst p) line) d (required_template n line p d)"
  using marks_update [of n "snd (snd p)" d "fst (snd p)"]
  by (auto simp: required_template_def stl_match_def intro: marks_refl split: prod.split option.split)

lemma ex_pattern:
  "(\<exists>p \<in> set ps. h = snd (snd p) \<and> Q (fst p)) \<longleftrightarrow> (\<exists>p t. (p, t, h) \<in> set ps \<and> Q p)"
  by (metis fst_conv prod.collapse snd_conv)

lemma marks_required_line: "marks n (uses_header line) d (required_line n line d)"
proof (cases "line = [] \<or> hd line = CHR ''#''")
  case True
  then show ?thesis by (auto simp: required_line_def uses_header_def intro: marks_refl)
next
  case False
  let ?maybe = "re_pattern_headers_maybe_templates"
  let ?d = "fold (required_maybe n line) ?maybe (required_string n line d)"
  let ?P = "\<lambda>h. h = ''<string>'' \<and> stl_match RE_PATTERN_STRING line \<or>
      (\<exists>p t. (p, t, h) \<in> set ?maybe \<and> matched (re_search p line))"
  have "marks n (\<lambda>h. \<exists>p \<in> set ?maybe. h = snd (snd p) \<and> matched (re_search (fst p) line))
      (required_string n line d) ?d"
    by (rule marks_fold) (rule marks_required_maybe)
  with marks_required_string have P: "marks n ?P d ?d"
    by (rule marks_trans) (simp only: ex_pattern [where Q = "\<lambda>p. matched (re_search p line)"])
  have uses: "uses_header line h \<longleftrightarrow> ?P h \<or> (\<exists>p t. (p, t, h) \<in> set re_pattern_templates \<and> stl_match p line)" for h
    using False by (simp add: uses_header_def)
  show ?thesis
  proof (cases "CHR ''<'' \<in> set line")
    case bracket: True
    have "marks n (\<lambda>h. \<exists>p \<in> set re_pattern_templates. h = snd (snd p) \<and> stl_match (fst p) line) ?d
        (fold (required_template n line) re_pattern_templates ?d)"
      by (rule marks_fold) (rule marks_required_template)
    with P have "marks n (uses_header line) d (fold (required_template n line) re_pattern_templates ?d)"
      by (rule marks_trans) (simp only: uses ex_pattern [where Q = "\<lambda>p. stl_match p line"])
    with False bracket show ?thesis by (simp add: required_line_def Let_def)
  next
    case none: False
    then have "uses_header line = ?P"
      using template_patterns_need_bracket by (intro ext) (unfold uses stl_match_def, blast)
    with P False none show ?thesis by (simp add: required_line_def Let_def)
  qed
qed

section \<open>The lines of a file\<close>

text \<open>After the loop a header is entered exactly if some line uses it, with the last such line.\<close>

definition last_use :: "string list \<Rightarrow> string \<Rightarrow> nat \<Rightarrow> bool" where
  "last_use ls h n \<longleftrightarrow> n < length ls \<and> uses_header (ls ! n) h \<and>
     (\<forall>m. n < m \<longrightarrow> m < length ls \<longrightarrow> \<not> uses_header (ls ! m) h)"

lemma required_loop_upto:
  assumes "k \<le> length ls"
  shows "\<exists>d. required_loop ls [0..<k] [] = Inr d \<and> distinct (map fst d) \<and>
    (\<forall>h. (\<forall>n t. map_of d h = Some (n, t) \<longrightarrow> last_use (take k ls) h n) \<and>
       (map_of d h = None \<longrightarrow> (\<forall>line \<in> set (take k ls). \<not> uses_header line h)))"
  using assms
proof (induction k)
  case 0
  then show ?case by simp
next
  case (Suc k)
  have snoc: "required_loop ls (ns @ [k]) d =
      bind_res (required_loop ls ns d) (\<lambda>d. Inr (required_line k (ls ! k) d))" for ns d
    using Suc.prems by (induction ns arbitrary: d) (auto, case_tac "py_nth ls (int a)", auto)
  from Suc obtain d where d: "required_loop ls [0..<k] [] = Inr d" "distinct (map fst d)"
    and some: "\<And>h n t. map_of d h = Some (n, t) \<Longrightarrow> last_use (take k ls) h n"
    and none: "\<And>h. map_of d h = None \<Longrightarrow> \<forall>line \<in> set (take k ls). \<not> uses_header line h" by auto
  have m: "marks k (uses_header (ls ! k)) d (required_line k (ls ! k) d)" by (rule marks_required_line)
  have take: "take (Suc k) ls = take k ls @ [ls ! k]" using Suc.prems by (simp add: take_Suc_conv_app_nth)
  show ?case
  proof (intro exI conjI allI impI)
    show "required_loop ls [0..<Suc k] [] = Inr (required_line k (ls ! k) d)"
      using d(1) by (simp add: snoc)
    show "distinct (map fst (required_line k (ls ! k) d))" using m d(2) by (simp add: marks_def)
  next
    fix h n t assume e: "map_of (required_line k (ls ! k) d) h = Some (n, t)"
    show "last_use (take (Suc k) ls) h n"
    proof (cases "uses_header (ls ! k) h")
      case True
      with m e have "n = k" unfolding marks_def by (metis option.inject prod.inject)
      with True Suc.prems show ?thesis by (simp add: last_use_def)
    next
      case False
      with m e have "last_use (take k ls) h n" unfolding marks_def by (metis some)
      with False Suc.prems show ?thesis unfolding last_use_def take
        by (auto simp: nth_append less_Suc_eq)
    qed
  next
    fix h assume "map_of (required_line k (ls ! k) d) h = None"
    with m have "\<not> uses_header (ls ! k) h" "map_of d h = None"
      unfolding marks_def by (metis option.distinct(1))+
    with none show "\<forall>line \<in> set (take (Suc k) ls). \<not> uses_header line h" by (auto simp: take)
  qed
qed

section \<open>The reports\<close>

lemma dict_of_items: "fst ` set (fold (\<lambda>(h, l). AList.update h l) ps d) = fst ` set ps \<union> fst ` set d"
  by (induction ps arbitrary: d) (simp_all add: split_def dom_update)

lemma sorted_lines:
  assumes "sorted (map snd (js :: required_dict))"
  shows "sorted (map (\<lambda>(h, n, t). n) js)"
  using assms by (induction js) (force simp: less_eq_prod_def split: prod.splits)+

lemma own_headers_none:
  assumes "Split f (repository w) a = Some (pr, base, ext)" "lstrip_dots ext \<notin> GetNonHeaderExtensions w"
  shows "own_headers_loop f io w a hs b d = Some (b, d)"
  using assms by (induction hs) (simp_all add: FilesBelongToSameModule_def)

lemma missing_headers_spec:
  assumes "distinct (map fst req)"
  shows "\<exists>js. missing_headers filename req d = map (\<lambda>(h, n, t).
      Report filename (int n) ''build/include_what_you_use'' 4 (''Add #include '' @ h @ '' for '' @ t)) js \<and>
    distinct (map fst js) \<and> sorted (map (\<lambda>(h, n, t). n) js) \<and>
    set js = {j \<in> set req. strip_chars (''<>'' @ [dquote]) (fst j) \<notin> fst ` set d}"
proof -
  let ?js = "filter (\<lambda>(h, n, t). map_of d (strip_chars (''<>'' @ [dquote]) h) = None) (sort_key snd req)"
  have "distinct (map fst (sort_key snd req))"
    using assms by (simp add: distinct_map)
  then have "distinct (map fst ?js)" by (rule distinct_map_filter)
  moreover have "sorted (map (\<lambda>(h, n, t). n) ?js)"
    by (rule sorted_lines) (simp add: sorted_filter)
  moreover have "set ?js = {j \<in> set req. strip_chars (''<>'' @ [dquote]) (fst j) \<notin> fst ` set d}"
    by (rule set_eqI) (simp add: map_of_eq_None_iff split_def)
  ultimately show ?thesis
    by (intro exI [of _ ?js]) (simp add: missing_headers_def)
qed

text \<open>C9: In a header file the check for missing includes returns, and it reports exactly the headers of
  the standard library that some line uses and that the file does not include: each of them once, at
  the last line that uses it, in the order of the lines. The shortcut for lines without an angle
  bracket changes nothing.\<close>

theorem include_what_you_use:
  assumes "length (elided c) = num_lines c"
    and "Split f (repository w) (re_sub (rx (''_flymake'' @ [CHR 0x60] @ ''.cc$'')) (\<lambda>_. ''.cc'') (FullName f filename)) =
      Some (pr, base, ext)"
    and "lstrip_dots ext \<notin> GetNonHeaderExtensions w"
    and "\<forall>e \<in> GetNonHeaderExtensions w. \<not> endswith filename (''.'' @ e)"
  shows "\<exists>js. CheckForIncludeWhatYouUse f io w filename c s = Some (Inr (map (\<lambda>(h, n, t).
      Report filename (int n) ''build/include_what_you_use'' 4 (''Add #include '' @ h @ '' for '' @ t)) js)) \<and>
    distinct (map fst js) \<and> sorted (map (\<lambda>(h, n, t). n) js) \<and>
    fst ` set js = {h. (\<exists>line \<in> set (elided c). uses_header line h) \<and>
      strip_chars (''<>'' @ [dquote]) h \<notin> fst ` set (concat (include_list s))} \<and>
    (\<forall>(h, n, t) \<in> set js. last_use (elided c) h n)"
proof -
  from required_loop_upto [of "num_lines c" "elided c"] assms(1) obtain req where
    req: "required_loop (elided c) [0..<num_lines c] [] = Inr req" "distinct (map fst req)"
    and some: "\<And>h n t. map_of req h = Some (n, t) \<Longrightarrow> last_use (elided c) h n"
    and none: "\<And>h. map_of req h = None \<Longrightarrow> \<forall>line \<in> set (elided c). \<not> uses_header line h" by auto
  let ?d = "fold (\<lambda>(header, linenum). AList.update header linenum) (concat (include_list s)) []"
  have d: "fst ` set ?d = fst ` set (concat (include_list s))"
    using dict_of_items [of "concat (include_list s)" "[]"] by simp
  have result: "CheckForIncludeWhatYouUse f io w filename c s = Some (Inr (missing_headers filename req ?d))"
    using assms(2-4) req(1)
    by (auto simp: CheckForIncludeWhatYouUse_def Let_def own_headers_none)
  from missing_headers_spec [OF req(2)] obtain js where
    js: "missing_headers filename req ?d = map (\<lambda>(h, n, t).
      Report filename (int n) ''build/include_what_you_use'' 4 (''Add #include '' @ h @ '' for '' @ t)) js"
      "distinct (map fst js)" "sorted (map (\<lambda>(h, n, t). n) js)"
      "set js = {j \<in> set req. strip_chars (''<>'' @ [dquote]) (fst j) \<notin> fst ` set ?d}" by blast
  have keys: "h \<in> fst ` set req \<longleftrightarrow> (\<exists>line \<in> set (elided c). uses_header line h)" for h
    using some none by (cases "map_of req h") (auto simp: map_of_eq_None_iff last_use_def, force+)
  have keyed: "fst ` {j \<in> set req. Q (fst j)} = {h \<in> fst ` set req. Q h}" for Q by auto
  have "fst ` set js = {h. (\<exists>line \<in> set (elided c). uses_header line h) \<and>
      strip_chars (''<>'' @ [dquote]) h \<notin> fst ` set (concat (include_list s))}"
    unfolding js(4) d keyed [of "\<lambda>h. strip_chars (''<>'' @ [dquote]) h \<notin> fst ` set (concat (include_list s))"]
    by (simp only: keys)
  moreover have "last_use (elided c) h n" if "(h, n, t) \<in> set js" for h n t
    using that js(4) some req(2) by auto
  ultimately show ?thesis using result js(1-3) by (intro exI [of _ js]) auto
qed

abbreviation use_lines :: CleansedLines where
  "use_lines \<equiv> \<lparr>elided = [[], ''std::list<int> v;'', ''#pragma once''], lines = [[], ''std::list<int> v;'', ''#pragma once''],
     raw_lines = [[], ''std::list<int> v;'', ''#pragma once''], num_lines = 3,
     lines_without_raw_strings = [[], ''std::list<int> v;'', ''#pragma once'']\<rparr>"

theorem include_what_you_use_witness:
  "uses_header ''std::list<int> v;'' ''<list>'' \<and>
   (\<exists>rs. CheckForIncludeWhatYouUse \<lparr>fs_exists = (\<lambda>p. False), fs_cwd = ''/r''\<rparr> (\<lambda>p. None) new_world ''a.h''
       use_lines new_IncludeState = Some (Inr rs) \<and> rs \<noteq> [])"
proof -
  let ?f = "\<lparr>fs_exists = (\<lambda>p. False), fs_cwd = ''/r''\<rparr>"
  have "list_ex (\<lambda>(p, t, h). h = ''<list>'' \<and>
      (case re_search p ''std::list<int> v;'' of None \<Rightarrow> False | Some m \<Rightarrow> stl_prefix (take (m_start m) ''std::list<int> v;'')))
      re_pattern_templates" by code_simp
  then have u: "uses_header ''std::list<int> v;'' ''<list>''"
    by (auto simp: uses_header_def stl_match_def list_ex_iff split: option.splits)
  have s: "Split ?f (repository new_world) (re_sub (rx (''_flymake'' @ [CHR 0x60] @ ''.cc$'')) (\<lambda>_. ''.cc'')
      (FullName ?f ''a.h'')) = Some (''/r'', ''a'', ''.h'')" by code_simp
  have e: "lstrip_dots ''.h'' \<notin> GetNonHeaderExtensions new_world"
    "\<forall>e \<in> GetNonHeaderExtensions new_world. \<not> endswith ''a.h'' (''.'' @ e)" by code_simp+
  have n: "length (elided use_lines) = num_lines use_lines" by simp
  obtain js where js: "CheckForIncludeWhatYouUse ?f (\<lambda>p. None) new_world ''a.h'' use_lines new_IncludeState =
      Some (Inr (map (\<lambda>(h, n, t). Report ''a.h'' (int n) ''build/include_what_you_use'' 4
        (''Add #include '' @ h @ '' for '' @ t)) js))"
    "fst ` set js = {h. (\<exists>line \<in> set (elided use_lines). uses_header line h) \<and>
      strip_chars (''<>'' @ [dquote]) h \<notin> fst ` set (concat (include_list new_IncludeState))}"
    using include_what_you_use [OF n s e] by blast
  have "''<list>'' \<in> fst ` set js"
    unfolding js(2) using u by (simp add: new_IncludeState_def ResetSection_def)
  then have "js \<noteq> []" by auto
  with js(1) u show ?thesis by blast
qed

end
