(* ===== verification/Process_Line.thy ===== *)
theory Process_Line
  imports Language_Checks
begin

text \<open>
  \<open>ProcessLine\<close>: the checks of one line in the order of the code, with the state they share. The
  error function is a parameter; the state of the linter is threaded through it, and through the
  NOLINT comments that are read on the way.
\<close>

record file_state =
  st_include :: IncludeState
  st_function :: FunctionState
  st_nesting :: NestingState

type_synonym error_fn = "report \<Rightarrow> world \<Rightarrow> world res"
type_synonym check_fn = "string \<Rightarrow> CleansedLines \<Rightarrow> nat \<Rightarrow> report list res"

definition new_file_state :: file_state where
  "new_file_state = \<lparr>st_include = new_IncludeState, st_function = new_FunctionState,
     st_nesting = new_NestingState\<rparr>"

text \<open>The checks after \<open>CheckLanguage\<close>.\<close>

definition last_checks ::
  "check_fn list \<Rightarrow> string \<Rightarrow> CleansedLines \<Rightarrow> nat \<Rightarrow> NestingState \<Rightarrow> report list res" where
  "last_checks extra_check_functions filename clean_lines line nesting_state =
     seq_res ([
       CheckForNonConstReference filename clean_lines line nesting_state,
       CheckForNonStandardConstructs filename clean_lines line nesting_state,
       CheckVlogArguments filename clean_lines line,
       CheckPosixThreading filename clean_lines line,
       CheckInvalidIncrement filename clean_lines line,
       CheckMakePairUsesDeduction filename clean_lines line,
       CheckRedundantVirtual filename clean_lines line,
       CheckRedundantOverrideOrFinal filename clean_lines line] @
       map (\<lambda>check_fn. check_fn filename clean_lines line) extra_check_functions)"

text \<open>What follows once the line is known not to be inside inline assembly.\<close>

definition check_line ::
  "fs \<Rightarrow> (string set \<Rightarrow> string list) \<Rightarrow> error_fn \<Rightarrow> check_fn list \<Rightarrow> string \<Rightarrow> string \<Rightarrow> CleansedLines \<Rightarrow>
     nat \<Rightarrow> file_state \<Rightarrow> world \<Rightarrow> (file_state \<times> world) res option" where
  "check_line f enum error extra_check_functions filename file_extension clean_lines line st w =
     bind_ro (ending (CheckForFunctionLengths (VerboseLevel w) filename clean_lines line (st_function st)))
       (\<lambda>(length_rs, function_state).
     bind_ro (ending (emit error length_rs w)) (\<lambda>w.
     bind_ro (ending (CheckForMultilineCommentsAndStrings filename clean_lines line)) (\<lambda>multiline_rs.
     bind_ro (ending (emit error multiline_rs w)) (\<lambda>w.
     bind_ro (CheckStyle f w filename clean_lines line file_extension (st_nesting st)) (\<lambda>style_events.
     bind_ro (ending (perform error filename style_events w)) (\<lambda>w.
     bind_ro (CheckLanguage f enum w filename clean_lines line file_extension (st_include st))
       (\<lambda>(language_rs, include_state).
     bind_ro (ending (emit error language_rs w)) (\<lambda>w.
     bind_ro (ending (last_checks extra_check_functions filename clean_lines line (st_nesting st)))
       (\<lambda>last_rs.
     bind_ro (ending (emit error last_rs w)) (\<lambda>w.
       ending (Inr (st\<lparr>st_include := include_state, st_function := function_state\<rparr>, w))))))))))))"

definition ProcessLine ::
  "fs \<Rightarrow> (string set \<Rightarrow> string list) \<Rightarrow> error_fn \<Rightarrow> check_fn list \<Rightarrow> string \<Rightarrow> string \<Rightarrow> CleansedLines \<Rightarrow>
     nat \<Rightarrow> file_state \<Rightarrow> world \<Rightarrow> (file_state \<times> world) res option" where
  "ProcessLine f enum error extra_check_functions filename file_extension clean_lines line st w =
     bind_ro (ending (py_nth (raw_lines clean_lines) (int line))) (\<lambda>raw_line.
     bind_ro (ending (perform error filename [ReadNolint raw_line (int line)] w)) (\<lambda>w.
     bind_ro (ending (Update filename clean_lines line (st_nesting st))) (\<lambda>(nesting_rs, nesting_state).
     bind_ro (ending (emit error nesting_rs w)) (\<lambda>w.
     bind_ro (ending (CheckForNamespaceIndentation filename nesting_state clean_lines line)) (\<lambda>indent_rs.
     bind_ro (ending (emit error indent_rs w)) (\<lambda>w.
       let st = st\<lparr>st_nesting := nesting_state\<rparr>
       in if InAsmBlock nesting_state then ending (Inr (st, w))
          else check_line f enum error extra_check_functions filename file_extension clean_lines line
            st w))))))"

text \<open>The loop over the lines of a file.\<close>

fun process_lines ::
  "fs \<Rightarrow> (string set \<Rightarrow> string list) \<Rightarrow> error_fn \<Rightarrow> check_fn list \<Rightarrow> string \<Rightarrow> string \<Rightarrow> CleansedLines \<Rightarrow>
     nat list \<Rightarrow> file_state \<Rightarrow> world \<Rightarrow> (file_state \<times> world) res option" where
  "process_lines f enum error extra filename file_extension clean_lines [] st w = ending (Inr (st, w))"
| "process_lines f enum error extra filename file_extension clean_lines (line # ls) st w =
     bind_ro (ProcessLine f enum error extra filename file_extension clean_lines line st w) (\<lambda>(st, w).
     bind_ro (ending (FlagCxx11Features filename clean_lines line)) (\<lambda>rs.
     bind_ro (ending (emit error rs w)) (\<lambda>w.
       process_lines f enum error extra filename file_extension clean_lines ls st w)))"

end
