(* ===== verification/Process_File.thy ===== *)
theory Process_File
  imports Process_Line Include_Use
begin

text \<open>
  Linting a file: \<open>ProcessFileData\<close> runs all checks over the lines, \<open>ProcessConfigOverrides\<close> reads the
  CPPLINT.cfg files from the directory of the file up to the root, \<open>ProcessFile\<close> puts both together.
  What they use of the operating system and of the interpreter is the record \<open>host\<close>.
\<close>

section \<open>The host\<close>

text \<open>The file system with the contents of its files: \<open>h_open\<close> is the text \<open>open\<close> reads, after the
  translation of line ends, \<open>h_codecs_open\<close> the text \<open>codecs.open\<close> reads with the codec utf8,
  \<open>None\<close> in both cases an \<open>IOError\<close>. An \<open>exclude_files\<close> pattern is user text that may use all of
  the pattern syntax of Python: compiling it and matching it is \<open>h_match\<close>. The order in which a set
  is iterated is \<open>h_enum\<close>. The last four are used by the command line: \<open>os.path.isdir\<close>, the directories
  below a directory with their files (\<open>os.walk\<close>), \<open>glob.glob\<close> and \<open>sys.version\<close>.\<close>

record host =
  h_fs :: fs
  h_isfile :: "string \<Rightarrow> bool"
  h_open :: "string \<Rightarrow> string option"
  h_codecs_open :: "string \<Rightarrow> string option"
  h_stdin :: "string option"
  h_match :: "string \<Rightarrow> string \<Rightarrow> bool res"
  h_enum :: "string set \<Rightarrow> string list"
  h_isdir :: "string \<Rightarrow> bool"
  h_walk :: "string \<Rightarrow> (string \<times> string list) list"
  h_glob :: "string \<Rightarrow> string list"
  h_version :: string

section \<open>\<open>ProcessFileData\<close>\<close>

definition first_marker :: string where
  "first_marker = ''// marker so line numbers and indices both start at 1''"

definition last_marker :: string where
  "last_marker = ''// marker so line numbers end in a known way''"

text \<open>The part after the loop over the lines.\<close>

definition final_checks ::
  "host \<Rightarrow> error_fn \<Rightarrow> string \<Rightarrow> string \<Rightarrow> string list \<Rightarrow> CleansedLines \<Rightarrow> file_state \<Rightarrow> world \<Rightarrow>
     world res option" where
  "final_checks h error filename file_extension ls clean_lines st w =
     bind_ro (ending (emit error (CheckCompletedBlocks filename (st_nesting st)) w)) (\<lambda>w.
     bind_ro (CheckForIncludeWhatYouUse (h_fs h) (h_codecs_open h) w filename clean_lines (st_include st))
       (\<lambda>rs.
     bind_ro (ending (emit error rs w)) (\<lambda>w.
     bind_ro (if IsSourceExtension file_extension w
              then safe (CheckHeaderFileIncluded (h_fs h) (h_enum h) w filename (st_include st))
              else ending (Inr [])) (\<lambda>rs.
     bind_ro (ending (emit error rs w)) (\<lambda>w.
     bind_ro (ending (emit error (CheckForBadCharacters filename ls) w)) (\<lambda>w.
       ending (emit error (CheckForNewlineAtEOF filename ls) w)))))))"

definition ProcessFileData ::
  "host \<Rightarrow> error_fn \<Rightarrow> check_fn list \<Rightarrow> string \<Rightarrow> string \<Rightarrow> string list \<Rightarrow> world \<Rightarrow> world res option" where
  "ProcessFileData h error extra_check_functions filename file_extension ls w =
     (let ls = [first_marker] @ ls @ [last_marker];
          w = ResetNolintSuppressions w
      in bind_ro (ending (emit error (CheckForCopyright filename ls) w)) (\<lambda>w.
         let w = w\<lparr>global_error_suppressions := ProcessGlobalSuppresions ls (global_error_suppressions w)\<rparr>;
             (ls, comment_rs) = RemoveMultiLineComments filename ls
         in bind_ro (ending (emit error comment_rs w)) (\<lambda>w.
            bind_ro (ending (new_CleansedLines ls)) (\<lambda>clean_lines.
            bind_ro (if IsHeaderExtension file_extension w
                     then CheckForHeaderGuard (h_fs h) (repository w) (root_flag w) filename clean_lines
                     else ending (Inr [])) (\<lambda>guard_events.
            bind_ro (ending (perform error filename guard_events w)) (\<lambda>w.
            bind_ro (process_lines (h_fs h) (h_enum h) error extra_check_functions filename file_extension
                       clean_lines [0..<NumLines clean_lines] new_file_state w) (\<lambda>(st, w).
              final_checks h error filename file_extension ls clean_lines st w)))))))"

section \<open>\<open>ProcessConfigOverrides\<close>\<close>

text \<open>\<open>int(s)\<close> for a text, \<open>None\<close> for a \<open>ValueError\<close>: a sign, then digits with single underscores
  between them, white space around.\<close>

fun digits_value :: "string \<Rightarrow> int \<Rightarrow> bool \<Rightarrow> int option" where
  "digits_value [] acc after_digit = (if after_digit then Some acc else None)"
| "digits_value (c # cs) acc after_digit =
     (if is_digit c then digits_value cs (acc * 10 + (int (of_char c) - 48)) True
      else if c = CHR ''_'' \<and> after_digit then digits_value cs acc False
      else None)"

definition py_int :: "string \<Rightarrow> int option" where
  "py_int s =
     (case strip s of
        [] \<Rightarrow> None
      | c # cs \<Rightarrow>
          if c = CHR ''-'' then map_option uminus (digits_value cs 0 False)
          else if c = CHR ''+'' then digits_value cs 0 False
          else digits_value (c # cs) 0 False)"

text \<open>The lines of a text file, with their ends.\<close>

definition file_lines :: "string \<Rightarrow> string list" where
  "file_lines text =
     (let ws = split_on newline text
      in map (\<lambda>l. l @ [newline]) (butlast ws) @ (if last ws = [] then [] else [last ws]))"

definition before_char :: "char \<Rightarrow> string \<Rightarrow> string" where
  "before_char c s = takeWhile (\<lambda>x. x \<noteq> c) s"

definition after_char :: "char \<Rightarrow> string \<Rightarrow> string" where
  "after_char c s = drop 1 (dropWhile (\<lambda>x. x \<noteq> c) s)"

record cfg_state =
  cfg_world :: world
  cfg_filters :: "string list"
  keep_looking :: bool

abbreviation on_world :: "(world \<Rightarrow> world) \<Rightarrow> cfg_state \<Rightarrow> cfg_state" where
  "on_world g s \<equiv> s\<lparr>cfg_world := g (cfg_world s)\<rparr>"

text \<open>One option; the first component of the result is whether the file is excluded.\<close>

definition cfg_option ::
  "host \<Rightarrow> string \<Rightarrow> string \<Rightarrow> string \<Rightarrow> string \<Rightarrow> string \<Rightarrow> cfg_state \<Rightarrow> (bool \<times> cfg_state) res" where
  \<open>cfg_option h filename cfg_file base_name name val s =
     (if name = ''set noparent'' then Inr (False, s\<lparr>keep_looking := False\<rparr>)
      else if name = ''filter'' then Inr (False, s\<lparr>cfg_filters := cfg_filters s @ [val]\<rparr>)
      else if name = ''exclude_files'' then
        if base_name \<noteq> [] then
          bind_res (h_match h val base_name) (\<lambda>excluded.
            if \<not> excluded then Inr (False, s)
            else if quiet (cpplint_state (cfg_world s)) then Inr (True, s)
            else Inr (True, on_world (PrintInfo (''Ignoring "'' @ filename @ ''": file excluded by "'' @
              cfg_file @ ''". '' @ ''File path component "'' @ base_name @ ''" matches '' @ ''pattern "'' @
              val @ [dquote, newline])) s))
        else Inr (False, s)
      else if name = ''linelength'' then
        (case py_int val of
           Some n \<Rightarrow> Inr (False, on_world (\<lambda>w. w\<lparr>line_length := n\<rparr>) s)
         | None \<Rightarrow> Inr (False, on_world (PrintError ''Line length must be numeric.'') s))
      else if name = ''extensions'' then Inr (False, on_world (ProcessExtensionsOption val) s)
      else if name = ''root'' then
        Inr (False, on_world (\<lambda>w. w\<lparr>root_flag := Some (path_join (dirname cfg_file) val)\<rparr>) s)
      else if name = ''headers'' then Inr (False, on_world (ProcessHppHeadersOption val) s)
      else Inr (False, on_world (PrintError (''Invalid configuration option ('' @ name @ '') in file '' @
        cfg_file @ [newline])) s))\<close>

fun cfg_lines ::
  "host \<Rightarrow> string \<Rightarrow> string \<Rightarrow> string \<Rightarrow> string list \<Rightarrow> cfg_state \<Rightarrow> (bool \<times> cfg_state) res" where
  "cfg_lines h filename cfg_file base_name [] s = Inr (False, s)"
| "cfg_lines h filename cfg_file base_name (line # ls) s =
     (let line = before_char CHR ''#'' line
      in if strip line = [] then cfg_lines h filename cfg_file base_name ls s
         else let name = strip (before_char CHR ''='' line); val = strip (after_char CHR ''='' line)
              in bind_res (cfg_option h filename cfg_file base_name name val s) (\<lambda>(excluded, s).
                   if excluded then Inr (True, s) else cfg_lines h filename cfg_file base_name ls s))"

definition cfg_read ::
  "host \<Rightarrow> string \<Rightarrow> string \<Rightarrow> string \<Rightarrow> cfg_state \<Rightarrow> (bool \<times> cfg_state) res" where
  \<open>cfg_read h filename cfg_file base_name s =
     (case h_open h cfg_file of
        Some text \<Rightarrow> cfg_lines h filename cfg_file base_name (file_lines text) s
      | None \<Rightarrow> Inr (False, (on_world (PrintError (''Skipping config file '' @ [squote] @ cfg_file @
          [squote] @ '': Can't open for reading'' @ [newline])) s)\<lparr>keep_looking := False\<rparr>))\<close>

lemma path_split_tail_shorter:
  "path_split p = (head, tail) \<Longrightarrow> tail \<noteq> [] \<Longrightarrow> length head < length p"
proof -
  assume p: "path_split p = (head, tail)" "tail \<noteq> []"
  define i where "i = (case rfind_char CHR ''/'' p of None \<Rightarrow> 0 | Some k \<Rightarrow> k + 1)"
  have "tail = drop i p" and "length head \<le> length (take i p)"
    using p(1) length_dropWhile_le [of "\<lambda>c. c = CHR ''/''" "rev (take i p)"]
    by (auto simp: path_split_def i_def [symmetric] Let_def split: if_splits)
  with p(2) show ?thesis by auto
qed

function cfg_loop :: "host \<Rightarrow> string \<Rightarrow> string \<Rightarrow> cfg_state \<Rightarrow> (bool \<times> cfg_state) res" where
  "cfg_loop h filename abs_filename s =
     (if keep_looking s then
        case path_split abs_filename of (abs_path, base_name) \<Rightarrow>
          if base_name = [] then Inr (False, s)
          else let cfg_file = path_join abs_path ''CPPLINT.cfg''
               in if \<not> h_isfile h cfg_file then cfg_loop h filename abs_path s
                  else case cfg_read h filename cfg_file base_name s of
                         Inl e \<Rightarrow> Inl e
                       | Inr (excluded, s) \<Rightarrow>
                           if excluded then Inr (True, s) else cfg_loop h filename abs_path s
      else Inr (False, s))"
  by pat_completeness auto
termination
  by (relation "measure (\<lambda>(h, filename, abs_filename, s). length abs_filename)")
    (auto dest: path_split_tail_shorter [OF sym])

declare cfg_loop.simps [simp del]

fun add_filters :: "string list \<Rightarrow> world \<Rightarrow> world res" where
  "add_filters [] w = Inr w"
| "add_filters (cfg_filter # fs) w =
     (case AddFilters cfg_filter w of (r, w) \<Rightarrow> bind_res r (\<lambda>_. add_filters fs w))"

definition ProcessConfigOverrides :: "host \<Rightarrow> string \<Rightarrow> world \<Rightarrow> (bool \<times> world) res" where
  "ProcessConfigOverrides h filename w =
     bind_res (cfg_loop h filename (abspath (h_fs h) filename)
         \<lparr>cfg_world = w, cfg_filters = [], keep_looking = True\<rparr>) (\<lambda>(excluded, s).
       if excluded then Inr (False, cfg_world s)
       else bind_res (add_filters (rev (cfg_filters s)) (cfg_world s)) (\<lambda>w. Inr (True, w)))"

section \<open>\<open>ProcessFile\<close>\<close>

abbreviation cr :: char where "cr \<equiv> CHR 0x0D"

definition rstrip_cr :: "string \<Rightarrow> string" where
  "rstrip_cr s = rev (dropWhile (\<lambda>c. c = cr) (rev s))"

text \<open>The loop over the line ends, up to the last line: the lines without \<open>cr\<close>, the numbers of
  the lines without and of those with it.\<close>

definition strip_line_ends :: "string list \<Rightarrow> string list \<times> int list \<times> int list" where
  "strip_line_ends ls =
     (let numbered = zip [1..<length ls] (butlast ls);
          numbers = (\<lambda>P. map (int \<circ> fst) (filter (\<lambda>(n, l). P l) numbered))
      in (map (\<lambda>l. if endswith l [cr] then rstrip_cr l else l) (butlast ls) @ drop (length ls - 1) ls,
          numbers (\<lambda>l. \<not> endswith l [cr]), numbers (\<lambda>l. endswith l [cr])))"

definition extension_of :: "string \<Rightarrow> string" where
  "extension_of filename =
     (case rfind_char CHR ''.'' filename of Some k \<Rightarrow> drop (k + 1) filename | None \<Rightarrow> filename)"

definition cr_reports :: "string \<Rightarrow> int list \<Rightarrow> report list" where
  "cr_reports filename crlf_lines =
     map (\<lambda>linenum. Report filename linenum ''whitespace/newline'' 1
       (raw ''Unexpected `r (^M) found; better to use only `n'')) crlf_lines"

definition lint_text ::
  "host \<Rightarrow> check_fn list \<Rightarrow> string \<Rightarrow> string \<Rightarrow> world \<Rightarrow> world res option" where
  "lint_text h extra_check_functions filename text w =
     (let (ls, lf_lines, crlf_lines) = strip_line_ends (split_on newline text);
          file_extension = extension_of filename
      in if filename \<noteq> ''-'' \<and> file_extension \<notin> GetAllExtensions w
         then ending (Inr (PrintError (''Ignoring '' @ filename @ ''; not a valid file name '' @ ''('' @
           join '', '' (h_enum h (GetAllExtensions w)) @ '')'' @ [newline]) w))
         else bind_ro (ProcessFileData h Error extra_check_functions filename file_extension ls w) (\<lambda>w.
           ending (if lf_lines \<noteq> [] \<and> crlf_lines \<noteq> []
                   then emit Error (cr_reports filename crlf_lines) w else Inr w)))"

definition ProcessFile ::
  "host \<Rightarrow> check_fn list \<Rightarrow> string \<Rightarrow> int \<Rightarrow> world \<Rightarrow> world res option" where
  \<open>ProcessFile h extra_check_functions filename vlevel w =
     (let w = BackupFilters (snd (SetVerboseLevel vlevel w));
          old_errors = error_count (cpplint_state w)
      in bind_ro (ending (ProcessConfigOverrides h filename w)) (\<lambda>(keep, w).
         if \<not> keep then ending (Inr (RestoreFilters w))
         else case (if filename = ''-'' then h_stdin h else h_codecs_open h filename) of
           None \<Rightarrow> ending (Inr (RestoreFilters (PrintError (''Skipping input '' @ [squote] @ filename @
             [squote] @ '': Can't open for reading'' @ [newline]) w)))
         | Some text \<Rightarrow>
           bind_ro (lint_text h extra_check_functions filename text w) (\<lambda>w.
             let w = (if \<not> quiet (cpplint_state w) \<or> old_errors \<noteq> error_count (cpplint_state w)
                      then PrintInfo (''Done processing '' @ filename @ [newline]) w else w)
             in ending (Inr (RestoreFilters w)))))\<close>

end
