(* ===== verification/Driver.thy ===== *)
theory Driver
  imports Process_File
begin

text \<open>
  The command line: the usage text and the options (\<open>ParseArguments\<close>), the expansion and exclusion of
  files, the JUnit document, and \<open>main\<close>. Functions that may end the program after they have written
  something return the exception and the state side by side.
\<close>

section \<open>Text\<close>

definition USAGE :: string where
  \<open>USAGE = join [newline] (map raw [
     [],
     ''Syntax: cpplint.py [--verbose=#] [--output=emacs|eclipse|vs7|junit]'',
     ''                   [--filter=-x,+y,...]'',
     ''                   [--counting=total|toplevel|detailed] [--root=subdir]'',
     ''                   [--repository=path]'',
     ''                   [--linelength=digits] [--headers=x,y,...]'',
     ''                   [--recursive]'',
     ''                   [--exclude=path]'',
     ''                   [--extensions=hpp,cpp,...]'',
     ''                   [--quiet]'',
     ''                   [--version]'',
     ''        <file> [file] ...'',
     [],
     ''  Style checker for C/C++ source files.'',
     ''  This is a fork of the Google style checker with minor extensions.'',
     [],
     ''  The style guidelines this tries to follow are those in'',
     ''    https://google.github.io/styleguide/cppguide.html'',
     [],
     ''  Every problem is given a confidence score from 1-5, with 5 meaning we are'',
     ''  certain of the problem, and 1 meaning it could be a legitimate construct.'',
     ''  This will miss some errors, and is not a substitute for a code review.'',
     [],
     ''  To suppress false-positive errors of a certain category, add a'',
     ''  'NOLINT(category)' comment to the line.  NOLINT or NOLINT(*)'',
     ''  suppresses errors of all categories on that line.'',
     [],
     ''  The files passed in will be linted; at least one file must be provided.'',
     ''  Default linted extensions are %s.'',
     ''  Other file types will be ignored.'',
     ''  Change the extensions with the --extensions flag.'',
     [],
     ''  Flags:'',
     [],
     ''    output=emacs|eclipse|vs7|junit'',
     ''      By default, the output is formatted to ease emacs parsing.  Visual Studio'',
     ''      compatible output (vs7) may also be used.  Further support exists for'',
     ''      eclipse (eclipse), and JUnit (junit). XML parsers such as those used'',
     ''      in Jenkins and Bamboo may also be used.  Other formats are unsupported.'',
     [],
     ''    verbose=#'',
     ''      Specify a number 0-5 to restrict errors to certain verbosity levels.'',
     ''      Errors with lower verbosity levels have lower confidence and are more'',
     ''      likely to be false positives.'',
     [],
     ''    quiet'',
     ''      Don't print anything if no errors are found.'',
     [],
     ''    filter=-x,+y,...'',
     ''      Specify a comma-separated list of category-filters to apply: only'',
     ''      error messages whose category names pass the filters will be printed.'',
     ''      (Category names are printed with the message and look like'',
     ''      "[whitespace/indent]".)  Filters are evaluated left to right.'',
     ''      "-FOO" and "FOO" means "do not print categories that start with FOO".'',
     ''      "+FOO" means "do print categories that start with FOO".'',
     [],
     ''      Examples: --filter=-whitespace,+whitespace/braces'',
     ''                --filter=whitespace,runtime/printf,+runtime/printf_format'',
     ''                --filter=-,+build/include_what_you_use'',
     [],
     ''      To see a list of all the categories used in cpplint, pass no arg:'',
     ''         --filter='',
     [],
     ''    counting=total|toplevel|detailed'',
     ''      The total number of errors found is always printed. If'',
     ''      'toplevel' is provided, then the count of errors in each of'',
     ''      the top-level categories like 'build' and 'whitespace' will'',
     ''      also be printed. If 'detailed' is provided, then a count'',
     ''      is provided for each category like 'build/class'.'',
     [],
     ''    repository=path'',
     ''      The top level directory of the repository, used to derive the header'',
     ''      guard CPP variable. By default, this is determined by searching for a'',
     ''      path that contains .git, .hg, or .svn. When this flag is specified, the'',
     ''      given path is used instead. This option allows the header guard CPP'',
     ''      variable to remain consistent even if members of a team have different'',
     ''      repository root directories (such as when checking out a subdirectory'',
     ''      with SVN). In addition, users of non-mainstream version control systems'',
     ''      can use this flag to ensure readable header guard CPP variables.'',
     [],
     ''      Examples:'',
     ''        Assuming that Alice checks out ProjectName and Bob checks out'',
     ''        ProjectName/trunk and trunk contains src/chrome/ui/browser.h, then'',
     ''        with no --repository flag, the header guard CPP variable will be:'',
     [],
     ''        Alice => TRUNK_SRC_CHROME_BROWSER_UI_BROWSER_H_'',
     ''        Bob   => SRC_CHROME_BROWSER_UI_BROWSER_H_'',
     [],
     ''        If Alice uses the --repository=trunk flag and Bob omits the flag or'',
     ''        uses --repository=. then the header guard CPP variable will be:'',
     [],
     ''        Alice => SRC_CHROME_BROWSER_UI_BROWSER_H_'',
     ''        Bob   => SRC_CHROME_BROWSER_UI_BROWSER_H_'',
     [],
     ''    root=subdir'',
     ''      The root directory used for deriving header guard CPP variable.'',
     ''      This directory is relative to the top level directory of the repository'',
     ''      which by default is determined by searching for a directory that contains'',
     ''      .git, .hg, or .svn but can also be controlled with the --repository flag.'',
     ''      If the specified directory does not exist, this flag is ignored.'',
     [],
     ''      Examples:'',
     ''        Assuming that src is the top level directory of the repository (and'',
     ''        cwd=top/src), the header guard CPP variables for'',
     ''        src/chrome/browser/ui/browser.h are:'',
     [],
     ''        No flag => CHROME_BROWSER_UI_BROWSER_H_'',
     ''        --root=chrome => BROWSER_UI_BROWSER_H_'',
     ''        --root=chrome/browser => UI_BROWSER_H_'',
     ''        --root=.. => SRC_CHROME_BROWSER_UI_BROWSER_H_'',
     [],
     ''    linelength=digits'',
     ''      This is the allowed line length for the project. The default value is'',
     ''      80 characters.'',
     [],
     ''      Examples:'',
     ''        --linelength=120'',
     [],
     ''    recursive'',
     ''      Search for files to lint recursively. Each directory given in the list'',
     ''      of files to be linted is replaced by all files that descend from that'',
     ''      directory. Files with extensions not in the valid extensions list are'',
     ''      excluded.'',
     [],
     ''    exclude=path'',
     ''      Exclude the given path from the list of files to be linted. Relative'',
     ''      paths are evaluated relative to the current directory and shell globbing'',
     ''      is performed. This flag can be provided multiple times to exclude'',
     ''      multiple files.'',
     [],
     ''      Examples:'',
     ''        --exclude=one.cc'',
     ''        --exclude=src/*.cc'',
     ''        --exclude=src/*.cc --exclude=test/*.cc'',
     [],
     ''    extensions=extension,extension,...'',
     ''      The allowed file extensions that cpplint will check'',
     [],
     ''      Examples:'',
     ''        --extensions=%s'',
     [],
     ''    headers=x,y,...'',
     ''      The header extensions that cpplint will treat as .h in checks. Values are'',
     ''      automatically added to --extensions list.'',
     ''     (by default, only files with extensions %s will be assumed to be headers)'',
     [],
     ''      Examples:'',
     ''        --headers=%s'',
     ''        --headers=hpp,hxx'',
     ''        --headers=hpp'',
     [],
     ''    cpplint.py supports per-directory configurations specified in CPPLINT.cfg'',
     ''    files. CPPLINT.cfg file can contain a number of key=value pairs.'',
     ''    Currently the following options are supported:'',
     [],
     ''      set noparent'',
     ''      filter=+filter1,-filter2,...'',
     ''      exclude_files=regex'',
     ''      linelength=80'',
     ''      root=subdir'',
     ''      headers=x,y,...'',
     [],
     ''    "set noparent" option prevents cpplint from traversing directory tree'',
     ''    upwards looking for more .cfg files in parent directories. This option'',
     ''    is usually placed in the top-level project directory.'',
     [],
     ''    The "filter" option is similar in function to --filter flag. It specifies'',
     ''    message filters in addition to the |_DEFAULT_FILTERS| and those specified'',
     ''    through --filter command-line flag.'',
     [],
     ''    "exclude_files" allows to specify a regular expression to be matched against'',
     ''    a file name. If the expression matches, the file is skipped and not run'',
     ''    through the linter.'',
     [],
     ''    "linelength" allows to specify the allowed line length for the project.'',
     [],
     ''    The "root" option is similar in function to the --root flag (see example'',
     ''    above). Paths are relative to the directory of the CPPLINT.cfg.'',
     [],
     ''    The "headers" option is similar in function to the --headers flag'',
     ''    (see example above).'',
     [],
     ''    CPPLINT.cfg has an effect on files in the same directory and all'',
     ''    sub-directories, unless overridden by a nested configuration file.'',
     [],
     ''      Example file:'',
     ''        filter=-build/include_order,+build/include_alpha'',
     ''        exclude_files=.*`.cc'',
     [],
     ''    The above example disables build/include_order warning and enables'',
     ''    build/include_alpha as well as excludes all .cc from being'',
     ''    processed by linter, in the current directory (where the .cfg'',
     ''    file is located) and all sub-directories.'',
     []])\<close>

definition VERSION :: string where
  "VERSION = ''1.4.4''"

text \<open>\<open>repr\<close> of a text, a list and a set, and the formatting of \<open>%s\<close>.\<close>

definition hex_digit :: "nat \<Rightarrow> char" where
  "hex_digit n = (if n < 10 then char_of (n + 48) else char_of (n + 87))"

definition repr_char :: "char \<Rightarrow> char \<Rightarrow> string" where
  "repr_char q c =
     (let n = of_char c :: nat in
      if c = q \<or> c = backslash then [backslash, c]
      else if c = newline then [backslash, CHR ''n'']
      else if c = CHR 0x0D then [backslash, CHR ''r'']
      else if c = CHR 0x09 then [backslash, CHR ''t'']
      else if n < 32 \<or> (127 \<le> n \<and> n \<le> 160) \<or> n = 173
      then [backslash, CHR ''x'', hex_digit (n div 16), hex_digit (n mod 16)]
      else [c])"

definition py_repr :: "string \<Rightarrow> string" where
  "py_repr s =
     (let q = (if squote \<in> set s \<and> dquote \<notin> set s then dquote else squote)
      in [q] @ concat (map (repr_char q) s) @ [q])"

definition repr_list :: "string list \<Rightarrow> string" where
  "repr_list xs = ''['' @ join '', '' (map py_repr xs) @ '']''"

definition repr_set :: "string list \<Rightarrow> string" where
  "repr_set xs = (if xs = [] then ''set()'' else ''{'' @ join '', '' (map py_repr xs) @ ''}'')"

fun py_format :: "string \<Rightarrow> string list \<Rightarrow> string" where
  "py_format (c # d # cs) (a # as) =
     (if c = CHR ''%'' \<and> d = CHR ''s'' then a @ py_format cs as else c # py_format (d # cs) (a # as))"
| "py_format s as = s"

section \<open>Messages that end the program\<close>

definition PrintUsage :: "host \<Rightarrow> string option \<Rightarrow> world \<Rightarrow> 'a res \<times> world" where
  "PrintUsage h message w =
     (let alls = h_enum h (GetAllExtensions w); headers = h_enum h (GetHeaderExtensions w)
      in (Inl (SystemExit (case message of
             None \<Rightarrow> None
           | Some m \<Rightarrow> if m = [] then None else Some ([newline] @ ''FATAL ERROR: '' @ m))),
          w\<lparr>stderr := stderr w @ [py_format USAGE
            [repr_list alls, join '','' alls, repr_set headers, join '','' headers]]\<rparr>))"

definition PrintVersion :: "host \<Rightarrow> world \<Rightarrow> 'a res \<times> world" where
  "PrintVersion h w =
     (Inl (SystemExit None), w\<lparr>stdout := stdout w @
        [''Cpplint fork (https://github.com/cpplint/cpplint)'' @ [newline],
         ''cpplint '' @ VERSION @ [newline],
         ''Python '' @ h_version h @ [newline]]\<rparr>)"

definition PrintCategories :: "world \<Rightarrow> 'a res \<times> world" where
  "PrintCategories w =
     (Inl (SystemExit None), w\<lparr>stderr := stderr w @
        [concat (map (\<lambda>cat. ''  '' @ cat @ [newline]) ERROR_CATEGORIES)]\<rparr>)"

section \<open>\<open>getopt\<close>\<close>

text \<open>The function of the standard library for no short and the given long options; \<open>None\<close> is a
  \<open>GetoptError\<close>. A long option may be abbreviated to a prefix no other option has.\<close>

definition long_has_args :: "string \<Rightarrow> string list \<Rightarrow> (bool \<times> string) option" where
  "long_has_args opt longopts =
     (let possibilities = filter (\<lambda>option. startswith option opt) longopts
      in if opt \<in> set possibilities then Some (False, opt)
         else if opt @ ''='' \<in> set possibilities then Some (True, opt)
         else case possibilities of
                [unique_match] \<Rightarrow>
                  if endswith unique_match ''='' then Some (True, butlast unique_match)
                  else Some (False, unique_match)
              | _ \<Rightarrow> None)"

definition do_longs ::
  "string \<Rightarrow> string list \<Rightarrow> string list \<Rightarrow> ((string \<times> string) \<times> string list) option" where
  "do_longs arg longopts args =
     (let opt = before_char CHR ''='' arg;
          optarg = (if CHR ''='' \<in> set arg then Some (after_char CHR ''='' arg) else None)
      in case long_has_args opt longopts of
           None \<Rightarrow> None
         | Some (True, opt) \<Rightarrow>
             (case optarg of
                Some v \<Rightarrow> Some ((''--'' @ opt, v), args)
              | None \<Rightarrow> (case args of [] \<Rightarrow> None | v # args \<Rightarrow> Some ((''--'' @ opt, v), args)))
         | Some (False, opt) \<Rightarrow>
             (case optarg of Some v \<Rightarrow> None | None \<Rightarrow> Some ((''--'' @ opt, []), args)))"

lemma do_longs_length: "do_longs arg longopts args = Some (p, args') \<Longrightarrow> length args' \<le> length args"
  by (auto simp: do_longs_def Let_def split: option.splits bool.splits list.splits)

function getopt :: "string list \<Rightarrow> string list \<Rightarrow> ((string \<times> string) list \<times> string list) option" where
  "getopt longopts args =
     (case args of
        [] \<Rightarrow> Some ([], [])
      | arg # args' \<Rightarrow>
          if \<not> startswith arg ''-'' \<or> arg = ''-'' then Some ([], args)
          else if arg = ''--'' then Some ([], args')
          else if startswith arg ''--'' then
            (case do_longs (drop 2 arg) longopts args' of
               None \<Rightarrow> None
             | Some (p, args'') \<Rightarrow>
                 (case getopt longopts args'' of
                    None \<Rightarrow> None
                  | Some (opts, filenames) \<Rightarrow> Some (p # opts, filenames)))
          else None)"
  by pat_completeness auto
termination
  by (relation "measure (\<lambda>(longopts, args). length args)") (auto dest: do_longs_length)

declare getopt.simps [simp del]

definition long_options :: "string list" where
  "long_options = [''help'', ''output='', ''verbose='', ''v='', ''version'', ''counting='', ''filter='',
     ''root='', ''repository='', ''linelength='', ''extensions='', ''exclude='', ''recursive'',
     ''headers='', ''quiet'']"

section \<open>\<open>ParseArguments\<close>\<close>

record arg_state =
  arg_verbosity :: int
  arg_output_format :: string
  arg_filters :: string
  arg_quiet :: bool
  arg_counting_style :: string
  arg_recursive :: bool

abbreviation done_with :: "'a \<Rightarrow> world \<Rightarrow> 'a res \<times> world" where
  "done_with a w \<equiv> (Inr a, w)"

definition parse_option ::
  "host \<Rightarrow> string \<Rightarrow> string \<Rightarrow> arg_state \<Rightarrow> world \<Rightarrow> arg_state res \<times> world" where
  "parse_option h opt val a w =
     (if opt = ''--help'' then PrintUsage h None w
      else if opt = ''--version'' then PrintVersion h w
      else if opt = ''--output'' then
        if val \<notin> {''emacs'', ''vs7'', ''eclipse'', ''junit''}
        then PrintUsage h (Some (''The only allowed output formats are emacs, vs7, eclipse '' @ ''and junit.'')) w
        else done_with (a\<lparr>arg_output_format := val\<rparr>) w
      else if opt = ''--quiet'' then done_with (a\<lparr>arg_quiet := True\<rparr>) w
      else if opt = ''--verbose'' \<or> opt = ''--v'' then
        (case py_int val of
           Some n \<Rightarrow> done_with (a\<lparr>arg_verbosity := n\<rparr>) w
         | None \<Rightarrow> (Inl (ValueError (''invalid literal for int() with base 10: '' @ py_repr val)), w))
      else if opt = ''--filter'' then
        if val = [] then PrintCategories w else done_with (a\<lparr>arg_filters := val\<rparr>) w
      else if opt = ''--counting'' then
        if val \<notin> {''total'', ''toplevel'', ''detailed''}
        then PrintUsage h (Some ''Valid counting options are total, toplevel, and detailed'') w
        else done_with (a\<lparr>arg_counting_style := val\<rparr>) w
      else if opt = ''--root'' then done_with a (w\<lparr>root_flag := Some val\<rparr>)
      else if opt = ''--repository'' then done_with a (w\<lparr>repository := Some val\<rparr>)
      else if opt = ''--linelength'' then
        (case py_int val of
           Some n \<Rightarrow> done_with a (w\<lparr>line_length := n\<rparr>)
         | None \<Rightarrow> PrintUsage h (Some ''Line length must be digits.'') w)
      else if opt = ''--exclude'' then
        done_with a (w\<lparr>excludes := Some ((case excludes w of None \<Rightarrow> {} | Some s \<Rightarrow> s) \<union> set (h_glob h val))\<rparr>)
      else if opt = ''--extensions'' then done_with a (ProcessExtensionsOption val w)
      else if opt = ''--headers'' then done_with a (ProcessHppHeadersOption val w)
      else if opt = ''--recursive'' then done_with (a\<lparr>arg_recursive := True\<rparr>) w
      else done_with a w)"

fun parse_options ::
  "host \<Rightarrow> (string \<times> string) list \<Rightarrow> arg_state \<Rightarrow> world \<Rightarrow> arg_state res \<times> world" where
  "parse_options h [] a w = done_with a w"
| "parse_options h ((opt, val) # opts) a w =
     (case parse_option h opt val a w of
        (Inl e, w) \<Rightarrow> (Inl e, w)
      | (Inr a, w) \<Rightarrow> parse_options h opts a w)"

definition walk_files :: "host \<Rightarrow> string \<Rightarrow> string list" where
  "walk_files h filename =
     concat (map (\<lambda>(root, files). map (\<lambda>loopfile.
       let fullname = path_join root loopfile
       in if startswith fullname ''./'' then drop 2 fullname else fullname) files) (h_walk h filename))"

definition ExpandDirectories :: "host \<Rightarrow> world \<Rightarrow> string list \<Rightarrow> string list" where
  "ExpandDirectories h w filenames =
     (let expanded = set (concat (map (\<lambda>filename.
            if \<not> h_isdir h filename then [filename] else walk_files h filename) filenames))
      in filter (\<lambda>filename. drop 1 (snd (splitext filename)) \<in> GetAllExtensions w) (h_enum h expanded))"

definition FilterExcludedFiles :: "host \<Rightarrow> world \<Rightarrow> string list \<Rightarrow> string list" where
  "FilterExcludedFiles h w filenames =
     (let exclude_paths = abspath (h_fs h) ` (case excludes w of None \<Rightarrow> {} | Some s \<Rightarrow> s)
      in filter (\<lambda>f. abspath (h_fs h) f \<notin> exclude_paths) filenames)"

definition apply_arguments ::
  "host \<Rightarrow> arg_state \<Rightarrow> string list \<Rightarrow> world \<Rightarrow> string list res \<times> world" where
  "apply_arguments h a filenames w =
     (let filenames = (if arg_recursive a then ExpandDirectories h w filenames else filenames);
          filenames = (if excludes w \<notin> {None, Some {}} then FilterExcludedFiles h w filenames else filenames);
          w = SetOutputFormat (arg_output_format a) w;
          w = snd (SetQuiet (arg_quiet a) w);
          w = snd (SetVerboseLevel (arg_verbosity a) w)
      in case SetFilters (arg_filters a) w of
           (Inl e, w) \<Rightarrow> (Inl e, w)
         | (Inr _, w) \<Rightarrow> done_with filenames (SetCountingStyle (arg_counting_style a) w))"

definition ParseArguments :: "host \<Rightarrow> string list \<Rightarrow> world \<Rightarrow> string list res \<times> world" where
  "ParseArguments h args w =
     (case getopt long_options args of
        None \<Rightarrow> PrintUsage h (Some ''Invalid arguments.'') w
      | Some (opts, filenames) \<Rightarrow>
          (case parse_options h opts \<lparr>arg_verbosity = VerboseLevel w, arg_output_format = OutputFormat w,
                  arg_filters = [], arg_quiet = Quiet w, arg_counting_style = [], arg_recursive = False\<rparr> w of
             (Inl e, w) \<Rightarrow> (Inl e, w)
           | (Inr a, w) \<Rightarrow>
               if filenames = [] then PrintUsage h (Some ''No files were specified.'') w
               else apply_arguments h a filenames w))"

section \<open>The JUnit document\<close>

text \<open>An element of \<open>xml.etree\<close> without a tail, and how \<open>tostring\<close> writes it.\<close>

datatype xml = Element (xml_tag: string) (xml_attrib: "(string \<times> string) list") (xml_text: string)
  (xml_children: "xml list")

definition escape_cdata :: "string \<Rightarrow> string" where
  "escape_cdata s = replace ''>'' ''&gt;'' (replace ''<'' ''&lt;'' (replace ''&'' ''&amp;'' s))"

definition escape_attrib :: "string \<Rightarrow> string" where
  "escape_attrib s =
     replace [CHR 0x09] ''&#09;'' (replace [newline] ''&#10;'' (replace [cr] ''&#13;''
       (replace [dquote] ''&quot;'' (escape_cdata s))))"

fun xml_tostring :: "xml \<Rightarrow> string" where
  "xml_tostring (Element t attrib txt children) =
     ''<'' @ t @ concat (map (\<lambda>(k, v). '' '' @ k @ ''='' @ [dquote] @ escape_attrib v @ [dquote]) attrib) @
     (if txt \<noteq> [] \<or> children \<noteq> []
      then ''>'' @ escape_cdata txt @ concat (map xml_tostring children) @ ''</'' @ t @ ''>''
      else '' />'')"

definition failure_text :: "string \<times> int option \<times> string \<times> string \<times> int \<Rightarrow> string" where
  "failure_text p =
     (case p of (filename, linenum, message, category, confidence) \<Rightarrow>
        str_linenum linenum @ '': '' @ message @ '' ['' @ category @ ''] ['' @ str_int confidence @ '']'')"

definition failure_case ::
  "(string \<times> int option \<times> string \<times> string \<times> int) list \<Rightarrow> string \<Rightarrow> xml" where
  "failure_case failures failed_file =
     Element ''testcase'' [(''name'', failed_file)] []
       [Element ''failure'' []
         (join [newline] (map failure_text (filter (\<lambda>p. fst p = failed_file) failures))) []]"

text \<open>The files with failures in the order of their first failure.\<close>

definition failed_file_order :: "(string \<times> 'a) list \<Rightarrow> string list" where
  "failed_file_order failures =
     fold (\<lambda>p order. if fst p \<in> set order then order else order @ [fst p]) failures []"

definition junit_suite :: "CppLintState \<Rightarrow> xml" where
  "junit_suite s =
     (let num_errors = length (junit_errors s); num_failures = length (junit_failures s);
          attrib = (\<lambda>tests. [(''name'', ''cpplint''), (''errors'', str_int (int num_errors)),
            (''failures'', str_int (int num_failures)), (''tests'', str_int (int tests))])
      in if num_errors = 0 \<and> num_failures = 0
         then Element ''testsuite'' (attrib 1) [] [Element ''testcase'' [(''name'', ''passed'')] [] []]
         else Element ''testsuite'' (attrib (num_errors + num_failures)) []
           ((if num_errors > 0
             then [Element ''testcase'' [(''name'', ''errors'')] []
                     [Element ''error'' [] (join [newline] (junit_errors s)) []]]
             else []) @
            map (failure_case (junit_failures s)) (failed_file_order (junit_failures s))))"

definition FormatJUnitXML :: "CppLintState \<Rightarrow> string" where
  \<open>FormatJUnitXML s = ''<?xml version="1.0" encoding="UTF-8" ?>'' @ [newline] @ xml_tostring (junit_suite s)\<close>

section \<open>\<open>main\<close>\<close>

fun process_files :: "host \<Rightarrow> string list \<Rightarrow> world \<Rightarrow> world res option" where
  "process_files h [] w = ending (Inr w)"
| "process_files h (filename # filenames) w =
     bind_ro (ProcessFile h [] filename (verbose_level (cpplint_state w)) w) (process_files h filenames)"

text \<open>The result is the value passed to \<open>sys.exit\<close> and the state at that time.\<close>

definition main :: "host \<Rightarrow> string list \<Rightarrow> world \<Rightarrow> (bool \<times> world) res option" where
  "main h argv w =
     (case ParseArguments h (drop 1 argv) w of
        (Inl e, w) \<Rightarrow> ending (Inl e)
      | (Inr filenames, w) \<Rightarrow>
          bind_ro (process_files h filenames (on_state ResetErrorCounts w)) (\<lambda>w.
            let w = (if \<not> quiet (cpplint_state w) \<or> error_count (cpplint_state w) > 0
                     then PrintErrorCounts w else w);
                w = (if output_format (cpplint_state w) = ''junit''
                     then w\<lparr>stderr := stderr w @ [FormatJUnitXML (cpplint_state w)]\<rparr> else w)
            in ending (Inr (error_count (cpplint_state w) > 0, w))))"

end
