(* ===== verification/Driver_Laws.thy ===== *)
theory Driver_Laws
  imports Driver
begin

text \<open>
  Properties of the command line and of single files: what \<open>ParseArguments\<close> guarantees when it
  returns, the escaping of the JUnit document, and when the missing newline at the end of a file is
  reported.
\<close>

section \<open>Options\<close>

text \<open>The values that options can give to the local variables of \<open>ParseArguments\<close>.\<close>

definition arg_ok :: "arg_state \<Rightarrow> bool" where
  "arg_ok a \<longleftrightarrow> arg_output_format a \<in> {''emacs'', ''vs7'', ''eclipse'', ''junit''} \<and>
     arg_counting_style a \<in> {[], ''total'', ''toplevel'', ''detailed''}"

definition res_ok :: "arg_state res \<times> world \<Rightarrow> bool" where
  "res_ok p \<longleftrightarrow> (\<forall>a. fst p = Inr a \<longrightarrow> arg_ok a)"

lemma res_ok_if: "(b \<Longrightarrow> res_ok p) \<Longrightarrow> (\<not> b \<Longrightarrow> res_ok q) \<Longrightarrow> res_ok (if b then p else q)"
  by simp

lemma res_ok_case:
  "(\<And>n. res_ok (f n)) \<Longrightarrow> res_ok p \<Longrightarrow> res_ok (case m of None \<Rightarrow> p | Some n \<Rightarrow> f n)"
  by (simp split: option.split)

lemma res_ok_exit:
  "res_ok (PrintUsage h m w)" "res_ok (PrintVersion h w)" "res_ok (PrintCategories w)" "res_ok (Inl e, w)"
  by (simp_all add: res_ok_def PrintUsage_def PrintVersion_def PrintCategories_def Let_def)

lemma res_ok_done: "res_ok (done_with a w) \<longleftrightarrow> arg_ok a"
  by (simp add: res_ok_def)

lemma parse_option_res_ok: "arg_ok a \<Longrightarrow> res_ok (parse_option h opt val a w)"
  unfolding parse_option_def
  by (intro res_ok_if res_ok_case res_ok_exit; simp only: res_ok_done not_not) (auto simp: arg_ok_def)

lemma parse_option_ok: "arg_ok a \<Longrightarrow> parse_option h opt val a w = (Inr a', w') \<Longrightarrow> arg_ok a'"
  using parse_option_res_ok [of a h opt val w] by (simp add: res_ok_def)

lemma parse_options_ok: "arg_ok a \<Longrightarrow> parse_options h opts a w = (Inr a', w') \<Longrightarrow> arg_ok a'"
proof (induction opts arbitrary: a w)
  case (Cons p opts)
  then show ?case
    by (cases p) (auto split: prod.splits sum.splits dest: parse_option_ok)
qed simp

lemma SetFilters_ok: "SetFilters fs w = (Inr u, w') \<Longrightarrow> filters_ok w'"
  by (auto simp: SetFilters_def CppLintState_SetFilters_def CppLintState_AddFilters_def filters_ok_def
      Filters_def Let_def filter_empty_conv list_all_iff split: list.splits prod.splits)

lemma apply_arguments_ok:
  assumes "apply_arguments h a fs w = (Inr fs', w')"
  shows "filters_ok w'" "OutputFormat w' = arg_output_format a"
    "counting (cpplint_state w') = arg_counting_style a" "excludes w' = excludes w"
    "excludes w = Some S \<Longrightarrow> f \<in> set fs' \<Longrightarrow> abspath (h_fs h) f \<notin> abspath (h_fs h) ` S"
proof -
  define fs1 where "fs1 = (if arg_recursive a then ExpandDirectories h w fs else fs)"
  define w1 where "w1 = snd (SetVerboseLevel (arg_verbosity a) (snd (SetQuiet (arg_quiet a)
    (SetOutputFormat (arg_output_format a) w))))"
  obtain r w2 where r: "SetFilters (arg_filters a) w1 = (r, w2)" by fastforce
  with assms obtain u where u: "r = Inr u"
    and w': "w' = SetCountingStyle (arg_counting_style a) w2"
    and fs': "fs' = (if excludes w \<notin> {None, Some {}} then FilterExcludedFiles h w fs1 else fs1)"
    by (auto simp: apply_arguments_def Let_def fs1_def w1_def split: sum.splits)
  have w1: "output_format (cpplint_state w1) = arg_output_format a" "excludes w1 = excludes w"
    by (simp_all add: w1_def SetVerboseLevel_def CppLintState_SetVerboseLevel_def SetQuiet_def
        CppLintState_SetQuiet_def SetOutputFormat_def CppLintState_SetOutputFormat_def)
  have w2: "output_format (cpplint_state w2) = output_format (cpplint_state w1)" "excludes w2 = excludes w1"
    using r by (auto simp: SetFilters_def CppLintState_SetFilters_def CppLintState_AddFilters_def Let_def)
  show "filters_ok w'"
    using SetFilters_ok r u by (simp add: w' SetCountingStyle_def CppLintState_SetCountingStyle_def filters_ok_def Filters_def)
  show "OutputFormat w' = arg_output_format a" "counting (cpplint_state w') = arg_counting_style a"
    "excludes w' = excludes w"
    using w1 w2 by (simp_all add: w' SetCountingStyle_def CppLintState_SetCountingStyle_def OutputFormat_def)
  show "excludes w = Some S \<Longrightarrow> f \<in> set fs' \<Longrightarrow> abspath (h_fs h) f \<notin> abspath (h_fs h) ` S"
    by (auto simp: fs' FilterExcludedFiles_def split: if_splits)
qed

text \<open>C12: When \<open>ParseArguments\<close> returns, every filter has a sign, so that the assertion of
  \<open>_ShouldPrintError\<close> cannot fail in the run that follows; the output format and the counting style are
  valid; and no file that is left has the path of an excluded file.\<close>

theorem ParseArguments_valid:
  assumes "ParseArguments h args w = (Inr filenames, w')" "OutputFormat w \<in> {''emacs'', ''vs7'', ''eclipse'', ''junit''}"
  shows "filters_ok w' \<and> OutputFormat w' \<in> {''emacs'', ''vs7'', ''eclipse'', ''junit''} \<and>
    counting (cpplint_state w') \<in> {[], ''total'', ''toplevel'', ''detailed''} \<and>
    (\<forall>S f. excludes w' = Some S \<longrightarrow> f \<in> set filenames \<longrightarrow> abspath (h_fs h) f \<notin> abspath (h_fs h) ` S)"
proof -
  let ?a = "\<lparr>arg_verbosity = VerboseLevel w, arg_output_format = OutputFormat w, arg_filters = [],
    arg_quiet = Quiet w, arg_counting_style = [], arg_recursive = False\<rparr>"
  from assms(1) obtain opts fs a v where p: "parse_options h opts ?a w = (Inr a, v)"
    and f: "apply_arguments h a fs v = (Inr filenames, w')"
    by (auto simp: ParseArguments_def PrintUsage_def Let_def split: option.splits prod.splits sum.splits if_splits)
  have "arg_ok ?a" using assms(2) by (simp add: arg_ok_def)
  then have "arg_ok a" using p by (rule parse_options_ok)
  with apply_arguments_ok [OF f] show ?thesis by (auto simp: arg_ok_def)
qed

theorem ParseArguments_valid_witness:
  "\<exists>w'. ParseArguments \<lparr>h_fs = \<lparr>fs_exists = (\<lambda>p. True), fs_cwd = ''/r''\<rparr>, h_isfile = (\<lambda>p. True),
       h_open = (\<lambda>p. None), h_codecs_open = (\<lambda>p. None), h_stdin = None, h_match = (\<lambda>p s. Inr False),
       h_enum = (\<lambda>S. []), h_isdir = (\<lambda>p. False), h_walk = (\<lambda>p. []), h_glob = (\<lambda>p. [p]), h_version = ''3''\<rparr>
     [''--out=vs7'', ''--filter'', ''-,+build'', ''--exclude=b.cc'', ''a.cc'', ''/r/b.cc''] new_world =
       (Inr [''a.cc''], w') \<and> filters_ok w' \<and> OutputFormat w' \<in> {''emacs'', ''vs7'', ''eclipse'', ''junit''}"
    (is "\<exists>w'. ?p = _ \<and> _")
proof -
  have "fst ?p = Inr [''a.cc'']" by code_simp
  then have p: "?p = (Inr [''a.cc''], snd ?p)" by (metis prod.collapse)
  have "OutputFormat new_world \<in> {''emacs'', ''vs7'', ''eclipse'', ''junit''}" by code_simp
  from ParseArguments_valid [OF p this] p show ?thesis by blast
qed

section \<open>The JUnit document\<close>

text \<open>Reading a text of the document back: the entities that \<open>tostring\<close> writes.\<close>

definition entities :: "(string \<times> char) list" where
  "entities = [(''&amp;'', CHR ''&''), (''&lt;'', CHR ''<''), (''&gt;'', CHR ''>''), (''&quot;'', dquote),
     (''&#13;'', cr), (''&#10;'', newline), (''&#09;'', CHR 0x09)]"

fun unescape :: "string \<Rightarrow> string" where
  "unescape [] = []"
| "unescape (c # cs) =
     (case find (\<lambda>(e, d). prefix e (c # cs)) entities of
        Some (e, d) \<Rightarrow> d # unescape (drop (length e - 1) cs)
      | None \<Rightarrow> c # unescape cs)"

lemma replace_char: "replace [c] r s = concat (map (\<lambda>x. if x = c then r else [x]) s)"
  by (induction s) (auto simp: replace_Cons)

lemma concat_map_concat_map: "concat (map g (concat (map f xs))) = concat (map (\<lambda>x. concat (map g (f x))) xs)"
  by (induction xs) auto

definition cdata_char :: "char \<Rightarrow> string" where
  "cdata_char c = (if c = CHR ''&'' then ''&amp;'' else if c = CHR ''<'' then ''&lt;''
     else if c = CHR ''>'' then ''&gt;'' else [c])"

definition attrib_char :: "char \<Rightarrow> string" where
  "attrib_char c = (if c = dquote then ''&quot;'' else if c = cr then ''&#13;'' else if c = newline then ''&#10;''
     else if c = CHR 0x09 then ''&#09;'' else cdata_char c)"

lemma escape_chars:
  "escape_cdata s = concat (map cdata_char s)" "escape_attrib s = concat (map attrib_char s)"
  by (auto simp: escape_cdata_def escape_attrib_def replace_char concat_map_concat_map cdata_char_def
      attrib_char_def intro!: arg_cong [where f = concat])

lemma unescape_char:
  "unescape (cdata_char c @ s) = c # unescape s" "unescape (attrib_char c @ s) = c # unescape s"
  by (auto simp: cdata_char_def attrib_char_def entities_def)

lemma unescape_concat:
  "unescape (concat (map cdata_char s)) = s" "unescape (concat (map attrib_char s)) = s"
  by (induction s) (simp_all add: unescape_char)

lemma escaped_chars:
  "set (escape_cdata s) \<inter> {CHR ''<'', CHR ''>''} = {}"
  "set (escape_attrib s) \<inter> {CHR ''<'', CHR ''>'', dquote, newline, cr, CHR 0x09} = {}"
  by (auto simp: escape_chars cdata_char_def attrib_char_def split: if_splits)

lemma failed_file_order_snoc:
  "failed_file_order (ps @ [p]) =
     (if fst p \<in> set (failed_file_order ps) then failed_file_order ps else failed_file_order ps @ [fst p])"
  by (simp add: failed_file_order_def)

lemma failed_file_order_set: "set (failed_file_order ps) = fst ` set ps"
  by (induction ps rule: rev_induct) (auto simp: failed_file_order_snoc, simp add: failed_file_order_def)

lemma failed_file_order_distinct: "distinct (failed_file_order ps)"
  by (induction ps rule: rev_induct) (auto simp: failed_file_order_snoc, simp add: failed_file_order_def)

lemma failure_text_ne: "failure_text p \<noteq> []"
  by (cases p) (simp add: failure_text_def)

lemma join_ne: "w \<noteq> [] \<Longrightarrow> join sep (w # ws) \<noteq> []"
  by (cases ws) simp_all

lemma tostring_failure_case:
  assumes "f \<in> fst ` set ps"
  shows \<open>xml_tostring (failure_case ps f) = ''<testcase name="'' @ escape_attrib f @ ''"><failure>'' @
    escape_cdata (join [newline] (map failure_text (filter (\<lambda>p. fst p = f) ps))) @ ''</failure></testcase>''\<close>
proof -
  obtain p where "p \<in> set (filter (\<lambda>p. fst p = f) ps)" using assms by auto
  then obtain q qs where "filter (\<lambda>p. fst p = f) ps = q # qs" by (cases "filter (\<lambda>p. fst p = f) ps") auto
  then have "join [newline] (map failure_text (filter (\<lambda>p. fst p = f) ps)) \<noteq> []"
    using join_ne [OF failure_text_ne] by simp
  then show ?thesis by (simp add: failure_case_def escape_cdata_def)
qed

lemma unescape_escape: "unescape (escape_attrib t) = t" "unescape (escape_cdata t) = t"
  by (simp_all add: escape_chars unescape_concat)

lemma str_nat_digits: "c \<in> set (str_nat n) \<Longrightarrow> is_digit c"
proof (induction n rule: str_nat.induct)
  case (1 n)
  have "is_digit (char_of (k + 48))" if "k < 10" for k :: nat
    using that by (simp add: is_digit_def in_range_def)
  with 1 show ?case by (subst (asm) (2) str_nat.simps) (auto split: if_splits)
qed

lemma escape_plain: "(\<And>c. c \<in> set t \<Longrightarrow> attrib_char c = [c]) \<Longrightarrow> escape_attrib t = t"
  unfolding escape_chars by (induction t) auto

lemma escape_number: "escape_attrib (str_int n) = str_int n"
proof (rule escape_plain)
  have "list_all (\<lambda>c. \<not> is_digit c \<and> c \<noteq> CHR ''-'') [CHR ''&'', CHR ''<'', CHR ''>'', dquote, cr, newline, CHR 0x09]"
    by code_simp
  then have "attrib_char c = [c]" if "is_digit c \<or> c = CHR ''-''" for c
    using that by (auto simp: attrib_char_def cdata_char_def)
  then show "attrib_char c = [c]" if "c \<in> set (str_int n)" for c
    using that by (auto simp: str_int_def dest: str_nat_digits split: if_splits)
qed

lemma escape_literal: "escape_attrib ''cpplint'' = ''cpplint''"
  by code_simp

text \<open>C26: The JUnit document of a run with failures and no other messages: the total counts, then one test
  case for each file with failures, each file once, with all its failures in the order they were
  reported. File names and texts are escaped so that they read back as the original and cannot end
  the attribute or the element they stand in.\<close>

theorem junit_document:
  assumes "junit_failures s \<noteq> []" "junit_errors s = []"
  shows \<open>\<exists>files. distinct files \<and> set files = fst ` set (junit_failures s) \<and>
    FormatJUnitXML s = ''<?xml version="1.0" encoding="UTF-8" ?>'' @ [newline] @
      ''<testsuite name="cpplint" errors="0" failures="'' @ str_int (int (length (junit_failures s))) @
      ''" tests="'' @ str_int (int (length (junit_failures s))) @ ''">'' @
      concat (map (\<lambda>f. ''<testcase name="'' @ escape_attrib f @ ''"><failure>'' @
        escape_cdata (join [newline] (map failure_text (filter (\<lambda>p. fst p = f) (junit_failures s)))) @
        ''</failure></testcase>'') files) @ ''</testsuite>'' \<and>
    (\<forall>t. unescape (escape_attrib t) = t \<and> dquote \<notin> set (escape_attrib t) \<and>
      unescape (escape_cdata t) = t \<and> CHR ''<'' \<notin> set (escape_cdata t))\<close>
proof -
  let ?files = "failed_file_order (junit_failures s)"
  let ?head = \<open>''<?xml version="1.0" encoding="UTF-8" ?>'' @ [newline] @
      ''<testsuite name="cpplint" errors="0" failures="'' @ str_int (int (length (junit_failures s))) @
      ''" tests="'' @ str_int (int (length (junit_failures s))) @ ''">''\<close>
  let ?case = \<open>\<lambda>f. ''<testcase name="'' @ escape_attrib f @ ''"><failure>'' @
        escape_cdata (join [newline] (map failure_text (filter (\<lambda>p. fst p = f) (junit_failures s)))) @
        ''</failure></testcase>''\<close>
  have "set ?files \<noteq> {}" using assms(1) by (simp add: failed_file_order_set)
  then have ne: "?files \<noteq> []" by auto
  have cases: "map xml_tostring (map (failure_case (junit_failures s)) ?files) = map ?case ?files"
    using tostring_failure_case [of _ "junit_failures s"] by (simp add: failed_file_order_set)
  have zero: "str_int 0 = ''0''" "escape_attrib ''0'' = ''0''" "escape_cdata [] = []" by code_simp+
  have "FormatJUnitXML s = ?head @ concat (map xml_tostring (map (failure_case (junit_failures s)) ?files)) @
      ''</testsuite>''"
    using assms ne by (simp add: FormatJUnitXML_def junit_suite_def Let_def escape_number escape_literal zero)
  then have "FormatJUnitXML s = ?head @ concat (map ?case ?files) @ ''</testsuite>''" by (simp only: cases)
  moreover have "dquote \<notin> set (escape_attrib t)" "CHR ''<'' \<notin> set (escape_cdata t)" for t
    using escaped_chars [of t] by auto
  ultimately show ?thesis
    by (intro exI [of _ ?files] conjI allI failed_file_order_distinct failed_file_order_set unescape_escape)
      (simp_all only: append_assoc not_False_eq_True)
qed

theorem junit_document_witness:
  \<open>FormatJUnitXML (AddJUnitFailure ''a<b>.cc'' (Some 3) ''x'' ''build/class'' 5 new_CppLintState) =
     ''<?xml version="1.0" encoding="UTF-8" ?>'' @ [newline] @
     ''<testsuite name="cpplint" errors="0" failures="1" tests="1"><testcase name="a&lt;b&gt;.cc">'' @
     ''<failure>3: x [build/class] [5]</failure></testcase></testsuite>'' \<and>
   (\<exists>files. distinct files \<and> set files = {''a<b>.cc''}) \<and> unescape (escape_attrib ''a<b>.cc'') = ''a<b>.cc''\<close>
proof
  let ?s = "AddJUnitFailure ''a<b>.cc'' (Some 3) ''x'' ''build/class'' 5 new_CppLintState"
  show \<open>FormatJUnitXML ?s = ''<?xml version="1.0" encoding="UTF-8" ?>'' @ [newline] @
     ''<testsuite name="cpplint" errors="0" failures="1" tests="1"><testcase name="a&lt;b&gt;.cc">'' @
     ''<failure>3: x [build/class] [5]</failure></testcase></testsuite>''\<close> by code_simp
  have f: "junit_failures ?s \<noteq> []" "junit_errors ?s = []" "fst ` set (junit_failures ?s) = {''a<b>.cc''}"
    by code_simp+
  from junit_document [OF f(1,2)] f(3)
  show "(\<exists>files. distinct files \<and> set files = {''a<b>.cc''}) \<and> unescape (escape_attrib ''a<b>.cc'') = ''a<b>.cc''"
    by auto
qed

section \<open>The end of the file\<close>

lemma split_on_ne: "split_on c s \<noteq> []"
  by (induction s) (auto split: list.split)

lemma split_on_empty: "split_on c s = [[]] \<Longrightarrow> s = []"
  using split_on_ne by (cases s) (auto split: list.splits if_splits)

lemma last_split_on: "last (split_on c s) = [] \<longleftrightarrow> s = [] \<or> last s = c"
proof (induction s)
  case (Cons d ds)
  then show ?case
    using split_on_ne [of c ds] by (cases "split_on c ds") (auto split: list.split dest: split_on_empty)
qed simp

lemma strip_line_ends_last:
  assumes "ls \<noteq> []"
  obtains xs where "fst (strip_line_ends ls) = xs @ [last ls]"
proof -
  have "drop (length ls - 1) ls = [last ls]"
    using assms by (metis append_butlast_last_id append_eq_conv_conj length_butlast)
  then show thesis using that by (simp add: strip_line_ends_def Let_def)
qed

text \<open>C27: The missing newline at the end of the file is reported for exactly the texts that are not
  empty and do not end with a newline.\<close>

theorem newline_at_eof:
  "CheckForNewlineAtEOF filename
     ([first_marker] @ fst (strip_line_ends (split_on newline contents)) @ [last_marker]) = [] \<longleftrightarrow>
   contents = [] \<or> last contents = newline"
proof -
  obtain xs where xs: "fst (strip_line_ends (split_on newline contents)) = xs @ [last (split_on newline contents)]"
    using strip_line_ends_last [OF split_on_ne] .
  have "py_nth (a # xs @ [l, b]) (- 2) = Inr l" for a l b
    by (simp add: py_nth_def)
  then show ?thesis
    by (simp add: CheckForNewlineAtEOF_def xs last_split_on [of newline contents, symmetric])
qed

end
