(* ===== verification/Check_Laws.thy ===== *)
theory Check_Laws
  imports Process_Line
begin

text \<open>
  What all checks have in common: every report of every check names the file, a category of
  \<open>_ERROR_CATEGORIES\<close> and a confidence of at most 5. The rules below carry this through the
  combinators the checks are built from; the locale \<open>good_sink\<close> carries it through \<open>ProcessLine\<close> for
  any error function.
\<close>

section \<open>Good results\<close>

named_theorems good \<open>good reports\<close>

definition goods :: "string \<Rightarrow> report list \<Rightarrow> bool" where
  "goods filename rs \<longleftrightarrow> list_all (good_report filename) rs"

definition good_res :: "string \<Rightarrow> report list res \<Rightarrow> bool" where
  "good_res filename r \<longleftrightarrow> (\<forall>rs. r = Inr rs \<longrightarrow> goods filename rs)"

lemma goods_simps [good]:
  "goods filename []"
  "goods filename (r # rs) \<longleftrightarrow> good_report filename r \<and> goods filename rs"
  "goods filename (rs @ rs') \<longleftrightarrow> goods filename rs \<and> goods filename rs'"
  "goods filename (if b then rs else rs') \<longleftrightarrow> (if b then goods filename rs else goods filename rs')"
  by (auto simp: goods_def)

lemma goods_concat [good]: "goods filename (concat rss) \<longleftrightarrow> (\<forall>rs \<in> set rss. goods filename rs)"
  by (auto simp: goods_def list_all_iff)

lemma good_res_simps [good]:
  "good_res filename (Inl e)"
  "good_res filename (Inr rs) \<longleftrightarrow> goods filename rs"
  "good_res filename (if b then r else r') \<longleftrightarrow> (if b then good_res filename r else good_res filename r')"
  by (auto simp: good_res_def)

lemma good_res_bind: "(\<And>a. good_res filename (f a)) \<Longrightarrow> good_res filename (bind_res m f)"
  by (cases m) (auto simp: good_res_def)

lemma good_res_bind_good:
  "good_res filename m \<Longrightarrow> (\<And>rs. goods filename rs \<Longrightarrow> good_res filename (f rs)) \<Longrightarrow>
     good_res filename (bind_res m f)"
  by (cases m) (auto simp: good_res_def)

lemma good_res_seq: "(\<And>r. r \<in> set rs \<Longrightarrow> good_res filename r) \<Longrightarrow> good_res filename (seq_res rs)"
  by (induction rs) (auto intro!: good_res_bind_good simp: good)

lemma good_res_map: "(\<And>x y. x \<in> set xs \<Longrightarrow> f x = Inr y \<Longrightarrow> good_report filename y) \<Longrightarrow>
    good_res filename (map_res f xs)"
proof (induction xs)
  case (Cons x xs)
  then have "good_res filename (map_res f xs)" by auto
  moreover have "good_report filename y" if "f x = Inr y" for y
    using that by (intro Cons.prems) auto
  ultimately show ?case by (auto simp: good_res_def goods_def bind_res_Inr_iff)
qed (simp add: good)

text \<open>The same for checks that return events, and for those that return a new state.\<close>

fun good_event :: "string \<Rightarrow> event \<Rightarrow> bool" where
  "good_event filename (Err r) = good_report filename r"
| "good_event filename (ReadNolint l n) = True"

definition good_events :: "string \<Rightarrow> event list res \<Rightarrow> bool" where
  "good_events filename r \<longleftrightarrow> (\<forall>es. r = Inr es \<longrightarrow> list_all (good_event filename) es)"

definition good_pair :: "string \<Rightarrow> (report list \<times> 'a) res \<Rightarrow> bool" where
  "good_pair filename r \<longleftrightarrow> (\<forall>rs s. r = Inr (rs, s) \<longrightarrow> goods filename rs)"

lemma good_resD: "good_res filename r \<Longrightarrow> r = Inr rs \<Longrightarrow> goods filename rs"
  by (simp add: good_res_def)

lemma good_pairD: "good_pair filename r \<Longrightarrow> r = Inr (rs, s) \<Longrightarrow> goods filename rs"
  by (simp add: good_pair_def)

lemma good_events_simps [good]:
  "good_events filename (Inl e)"
  "good_events filename (Inr es) \<longleftrightarrow> list_all (good_event filename) es"
  "good_events filename (if b then r else r') \<longleftrightarrow> (if b then good_events filename r else good_events filename r')"
  by (auto simp: good_events_def)

lemma good_pair_simps [good]:
  "good_pair filename (Inl e)"
  "good_pair filename (Inr (rs, s)) \<longleftrightarrow> goods filename rs"
  "good_pair filename (if b then r else r') \<longleftrightarrow> (if b then good_pair filename r else good_pair filename r')"
  by (auto simp: good_pair_def)

definition good_opt :: "string \<Rightarrow> (report list \<times> 'a) res option \<Rightarrow> bool" where
  "good_opt filename m \<longleftrightarrow> (\<forall>r. m = Some r \<longrightarrow> good_pair filename r)"

lemma good_optD: "good_opt filename m \<Longrightarrow> m = Some (Inr (rs, s)) \<Longrightarrow> goods filename rs"
  by (simp add: good_opt_def good_pair_def)

lemma good_opt_simps [good]:
  "good_opt filename (ending r) \<longleftrightarrow> good_pair filename r"
  "good_opt filename (if b then m else m') \<longleftrightarrow> (if b then good_opt filename m else good_opt filename m')"
  by (auto simp: good_opt_def)

lemma good_opt_bind: "(\<And>a. good_opt filename (f a)) \<Longrightarrow> good_opt filename (bind_ro m f)"
  by (cases "(m, f)" rule: bind_ro.cases) (auto simp: good_opt_def good_pair_def)

lemma good_opt_prefix:
  assumes "goods filename xs" "good_opt filename m"
  shows "good_opt filename (bind_ro m (\<lambda>(rs, s). ending (Inr (xs @ rs, s))))"
proof (cases m)
  case (Some r)
  with assms show ?thesis by (cases r) (auto simp: good_opt_def good_pair_def goods_def)
qed (simp add: good_opt_def)

lemma good_events_bind:
  "(\<And>a. good_events filename (f a)) \<Longrightarrow> good_events filename (bind_res m f)"
  by (cases m) (auto simp: good_events_def)

lemma good_pair_bind:
  "(\<And>a. good_pair filename (f a)) \<Longrightarrow> good_pair filename (bind_res m f)"
  by (cases m) (auto simp: good_pair_def)

lemma good_errs: "good_res filename r \<Longrightarrow> good_events filename (errs r)"
  by (cases r) (auto simp: good_res_def goods_def good list_all_iff)

lemma good_events_seq: "(\<And>r. r \<in> set rs \<Longrightarrow> good_events filename r) \<Longrightarrow> good_events filename (seq_res rs)"
proof (induction rs)
  case (Cons r rs)
  then have "good_events filename r" "good_events filename (seq_res rs)" by auto
  then show ?case by (auto simp: good_events_def bind_res_Inr_iff)
qed (simp add: good)

text \<open>Whether a category is registered is decided once for each category that is used.\<close>

lemma good_report_simp [good]:
  "good_report filename (ReportAt g l c n m) \<longleftrightarrow> g = filename \<and> c \<in> set ERROR_CATEGORIES \<and> n \<le> 5"
  by (simp add: good_report_def)

lemma registered [good]:
  "''build/c++11'' \<in> set ERROR_CATEGORIES"
  "''build/c++14'' \<in> set ERROR_CATEGORIES"
  "''build/c++tr1'' \<in> set ERROR_CATEGORIES"
  "''build/class'' \<in> set ERROR_CATEGORIES"
  "''build/deprecated'' \<in> set ERROR_CATEGORIES"
  "''build/endif_comment'' \<in> set ERROR_CATEGORIES"
  "''build/explicit_make_pair'' \<in> set ERROR_CATEGORIES"
  "''build/forward_decl'' \<in> set ERROR_CATEGORIES"
  "''build/header_guard'' \<in> set ERROR_CATEGORIES"
  "''build/include'' \<in> set ERROR_CATEGORIES"
  "''build/include_alpha'' \<in> set ERROR_CATEGORIES"
  "''build/include_order'' \<in> set ERROR_CATEGORIES"
  "''build/include_subdir'' \<in> set ERROR_CATEGORIES"
  "''build/namespaces'' \<in> set ERROR_CATEGORIES"
  "''build/namespaces_literals'' \<in> set ERROR_CATEGORIES"
  "''build/printf_format'' \<in> set ERROR_CATEGORIES"
  "''build/storage_class'' \<in> set ERROR_CATEGORIES"
  "''legal/copyright'' \<in> set ERROR_CATEGORIES"
  "''readability/alt_tokens'' \<in> set ERROR_CATEGORIES"
  "''readability/braces'' \<in> set ERROR_CATEGORIES"
  "''readability/casting'' \<in> set ERROR_CATEGORIES"
  "''readability/check'' \<in> set ERROR_CATEGORIES"
  "''readability/constructors'' \<in> set ERROR_CATEGORIES"
  "''readability/fn_size'' \<in> set ERROR_CATEGORIES"
  "''readability/inheritance'' \<in> set ERROR_CATEGORIES"
  "''readability/multiline_comment'' \<in> set ERROR_CATEGORIES"
  "''readability/multiline_string'' \<in> set ERROR_CATEGORIES"
  "''readability/namespace'' \<in> set ERROR_CATEGORIES"
  "''readability/nolint'' \<in> set ERROR_CATEGORIES"
  "''readability/todo'' \<in> set ERROR_CATEGORIES"
  "''runtime/arrays'' \<in> set ERROR_CATEGORIES"
  "''runtime/casting'' \<in> set ERROR_CATEGORIES"
  "''runtime/explicit'' \<in> set ERROR_CATEGORIES"
  "''runtime/indentation_namespace'' \<in> set ERROR_CATEGORIES"
  "''runtime/init'' \<in> set ERROR_CATEGORIES"
  "''runtime/int'' \<in> set ERROR_CATEGORIES"
  "''runtime/invalid_increment'' \<in> set ERROR_CATEGORIES"
  "''runtime/member_string_references'' \<in> set ERROR_CATEGORIES"
  "''runtime/memset'' \<in> set ERROR_CATEGORIES"
  "''runtime/operator'' \<in> set ERROR_CATEGORIES"
  "''runtime/printf'' \<in> set ERROR_CATEGORIES"
  "''runtime/printf_format'' \<in> set ERROR_CATEGORIES"
  "''runtime/references'' \<in> set ERROR_CATEGORIES"
  "''runtime/string'' \<in> set ERROR_CATEGORIES"
  "''runtime/threadsafe_fn'' \<in> set ERROR_CATEGORIES"
  "''runtime/vlog'' \<in> set ERROR_CATEGORIES"
  "''whitespace/blank_line'' \<in> set ERROR_CATEGORIES"
  "''whitespace/braces'' \<in> set ERROR_CATEGORIES"
  "''whitespace/comma'' \<in> set ERROR_CATEGORIES"
  "''whitespace/comments'' \<in> set ERROR_CATEGORIES"
  "''whitespace/empty_conditional_body'' \<in> set ERROR_CATEGORIES"
  "''whitespace/empty_if_body'' \<in> set ERROR_CATEGORIES"
  "''whitespace/empty_loop_body'' \<in> set ERROR_CATEGORIES"
  "''whitespace/end_of_line'' \<in> set ERROR_CATEGORIES"
  "''whitespace/ending_newline'' \<in> set ERROR_CATEGORIES"
  "''whitespace/forcolon'' \<in> set ERROR_CATEGORIES"
  "''whitespace/indent'' \<in> set ERROR_CATEGORIES"
  "''whitespace/line_length'' \<in> set ERROR_CATEGORIES"
  "''whitespace/newline'' \<in> set ERROR_CATEGORIES"
  "''whitespace/operators'' \<in> set ERROR_CATEGORIES"
  "''whitespace/parens'' \<in> set ERROR_CATEGORIES"
  "''whitespace/semicolon'' \<in> set ERROR_CATEGORIES"
  "''whitespace/tab'' \<in> set ERROR_CATEGORIES"
  "''whitespace/todo'' \<in> set ERROR_CATEGORIES"
  by code_simp+

section \<open>The checks of a line\<close>

lemma good_CheckForMultilineCommentsAndStrings [good]: "good_res filename (CheckForMultilineCommentsAndStrings filename c n)"
  by (auto simp: CheckForMultilineCommentsAndStrings_def good Let_def intro!: good_res_bind split: option.split prod.split)

lemma good_CheckPosixThreading [good]: "good_res filename (CheckPosixThreading filename c n)"
  by (auto simp: CheckPosixThreading_def good Let_def intro!: good_res_bind split: option.split prod.split)

lemma good_CheckVlogArguments [good]: "good_res filename (CheckVlogArguments filename c n)"
  by (auto simp: CheckVlogArguments_def good Let_def intro!: good_res_bind split: option.split prod.split)

lemma good_CheckInvalidIncrement [good]: "good_res filename (CheckInvalidIncrement filename c n)"
  by (auto simp: CheckInvalidIncrement_def good Let_def intro!: good_res_bind split: option.split prod.split)

lemma good_CheckPrintf [good]: "good_res filename (CheckPrintf filename c n)"
  by (auto simp: CheckPrintf_def good Let_def intro!: good_res_bind split: option.split prod.split)

lemma good_CheckGlobalStatic [good]: "good_res filename (CheckGlobalStatic filename c n)"
  by (auto simp: CheckGlobalStatic_def good Let_def intro!: good_res_bind split: option.split prod.split)

lemma good_CheckItemIndentationInNamespace [good]: "good_res filename (CheckItemIndentationInNamespace filename ls n)"
  by (auto simp: CheckItemIndentationInNamespace_def good Let_def intro!: good_res_bind split: option.split prod.split)

lemma good_CheckForNamespaceIndentation [good]: "good_res filename (CheckForNamespaceIndentation filename s c n)"
  by (auto simp: CheckForNamespaceIndentation_def good Let_def intro!: good_res_bind split: option.split prod.split)

lemma good_CheckSpacingForFunctionCall [good]: "good_res filename (CheckSpacingForFunctionCall filename c n)"
  by (auto simp: CheckSpacingForFunctionCall_def good Let_def intro!: good_res_bind split: option.split prod.split)

lemma good_CheckParenthesisSpacing [good]: "good_res filename (CheckParenthesisSpacing filename c n)"
  by (auto simp: CheckParenthesisSpacing_def good Let_def intro!: good_res_bind split: option.split prod.split)

lemma good_CheckCommaSpacing [good]: "good_res filename (CheckCommaSpacing filename c n)"
  by (auto simp: CheckCommaSpacing_def good Let_def intro!: good_res_bind split: option.split prod.split)

lemma good_CheckBracesSpacing [good]: "good_res filename (CheckBracesSpacing filename c n s)"
  by (auto simp: CheckBracesSpacing_def good Let_def intro!: good_res_bind split: option.split prod.split)

lemma good_CheckSectionSpacing [good]: "good_res filename (CheckSectionSpacing filename c b k n)"
  by (auto simp: CheckSectionSpacing_def good Let_def intro!: good_res_bind split: option.split prod.split)


lemma goods_todo [good]: "goods filename (todo_reports filename n t)"
  by (auto simp: todo_reports_def good split: option.split)

lemma goods_CheckComment [good]: "goods filename (CheckComment l filename n k)"
  by (auto simp: CheckComment_def good split: option.split)

lemma good_blank_line_reports [good]: "good_res filename (blank_line_reports filename c n)"
  unfolding blank_line_reports_def
  by (intro good_res_bind_good good_res_bind)
    (auto simp: good intro!: good_res_bind split: option.split)

lemma good_CheckSpacing [good]: "good_res filename (CheckSpacing filename c n s)"
  unfolding CheckSpacing_def
  by (intro good_res_bind_good good_res_bind) (simp_all add: good)

lemma good_angle_reports [good]: "good_res filename (angle_reports filename c n l)"
  unfolding angle_reports_def Let_def
  by (intro conjI allI impI good_res_bind_good good_res_bind |
      simp add: good split: option.split prod.split)+

lemma good_CheckOperatorSpacing [good]: "good_res filename (CheckOperatorSpacing filename c n)"
  unfolding CheckOperatorSpacing_def Let_def
  by (intro good_res_bind_good good_res_bind) (auto simp: good split: option.split)

lemma good_braces_on_own_line [good]: "good_res filename (braces_on_own_line k filename c n l)"
  unfolding braces_on_own_line_def
  by (intro good_res_bind) (auto simp: good split: prod.split)

lemma good_else_braces [good]: "good_res filename (else_braces filename c n l)"
  unfolding else_braces_def Let_def
  by (intro conjI allI impI good_res_bind | simp add: good split: option.split prod.split)+

lemma goods_body_reports [good]: "goods filename (body_reports filename els n l b k)"
  unfolding body_reports_def Let_def by (simp add: good)

lemma good_single_statement [good]: "good_res filename (single_statement filename c n l)"
  unfolding single_statement_def Let_def
  by (intro conjI allI impI good_res_bind | simp add: good split: option.split prod.split)+

lemma good_CheckBraces [good]: "good_res filename (CheckBraces k filename c n)"
  unfolding CheckBraces_def
  by (intro good_res_bind_good good_res_bind) (simp_all add: good)

lemma good_CheckTrailingSemicolon [good]: "good_events filename (CheckTrailingSemicolon filename c n)"
  unfolding CheckTrailingSemicolon_def
  by (intro conjI allI impI good_events_bind | simp add: good split: option.split prod.split)+

lemma good_CheckEmptyBlockBody [good]: "good_res filename (CheckEmptyBlockBody filename c n)"
  unfolding CheckEmptyBlockBody_def
  by (intro conjI allI impI good_res_bind | simp add: good split: option.split prod.split)+

lemma good_CheckCheck [good]: "good_res filename (CheckCheck filename c n)"
  unfolding CheckCheck_def
  by (intro conjI allI impI good_res_bind | simp add: good split: option.split prod.split)+

lemma good_CheckAltTokens [good]: "good_res filename (CheckAltTokens filename c n)"
proof -
  have "good_res filename (map_res (\<lambda>m. case map_of ALT_TOKEN_REPLACEMENT (gtext m 1) of
        None \<Rightarrow> Inl KeyError
      | Some t \<Rightarrow> Inr (Report filename (int n) ''readability/alt_tokens'' 2 (M t m))) ms)" for M ms
    by (rule good_res_map) (auto simp: good split: option.splits)
  then show ?thesis
    unfolding CheckAltTokens_def by (intro good_res_bind) (simp add: good)
qed

lemma goods_style [good]:
  "goods filename (indent_reports filename n l p e t)" "goods filename (length_reports k filename n l b)"
  "goods filename (command_reports filename n l e p)"
  by (simp_all add: indent_reports_def length_reports_def command_reports_def Let_def good)

lemma good_line_style_reports [good]: "good_res filename (line_style_reports w filename c n l b)"
  unfolding line_style_reports_def
  by (intro good_res_bind) (simp add: good split: prod.split)

lemma good_CheckStyle:
  assumes "CheckStyle f w filename c n e s = Some r"
  shows "good_events filename r"
proof (cases "py_nth (lines_without_raw_strings c) (int n)")
  case (Inl e)
  with assms show ?thesis by (auto simp: CheckStyle_def good)
next
  case (Inr l)
  have "good_res filename (case InnermostClass s of None \<Rightarrow> Inr [] | Some b \<Rightarrow> (case kind b of
      ClassBlock k \<Rightarrow> CheckSectionSpacing filename c b k n | _ \<Rightarrow> Inr []))"
    by (auto simp: good split: option.split block_kind.split)
  with Inr assms show ?thesis
    by (auto simp: CheckStyle_def good simp del: seq_res.simps intro!: good_events_seq good_errs)
qed

lemma good_CheckForFunctionLengths [good]:
  "good_pair filename (CheckForFunctionLengths v filename c n s)"
  unfolding CheckForFunctionLengths_def
  by (intro conjI allI impI good_pair_bind |
      simp add: good Check_def Let_def split: body_search.split)+

lemma goods_explicit_reports [good]: "goods filename (explicit_reports filename n b e args)"
  unfolding explicit_reports_def Let_def by (simp add: good)

lemma good_constructor_reports [good]: "good_res filename (constructor_reports filename n l s)"
  unfolding constructor_reports_def Let_def
  by (auto simp: good intro!: good_res_bind split: option.split block_kind.split)

lemma good_CheckForNonStandardConstructs [good]:
  "good_res filename (CheckForNonStandardConstructs filename c n s)"
  unfolding CheckForNonStandardConstructs_def
  by (intro good_res_bind_good good_res_bind) (simp_all add: good)

lemma good_CheckCStyleCast [good]: "good_res filename (CheckCStyleCast filename c n t p)"
  unfolding CheckCStyleCast_def Let_def
  by (intro conjI allI impI good_res_bind | simp add: good split: option.split)+

lemma goods_function_cast: "function_cast filename n l b = Some rs \<Longrightarrow> goods filename rs"
  by (auto simp: function_cast_def Let_def good split: option.splits if_splits)

lemma good_address_of_cast [good]: "good_res filename (address_of_cast filename c n l)"
  unfolding address_of_cast_def by (auto simp: good intro!: good_res_bind)

lemma good_CheckCasts [good]: "good_res filename (CheckCasts filename c n)"
  unfolding CheckCasts_def
  by (intro conjI allI impI good_res_bind_good good_res_bind |
      simp add: good goods_function_cast split: option.split)+

lemma good_format_reports [good]: "good_res filename (format_reports filename n l)"
  unfolding format_reports_def Let_def
  by (intro good_res_bind) (simp add: good split: option.split)

lemma goods_language [good]:
  "goods filename (array_reports filename n l)" "goods filename (memset_reports filename n l)"
  "goods filename (int_reports filename n l)" "goods filename (using_reports filename n l)"
  "goods filename (reference_reports filename n l)"
  by (auto simp: array_reports_def memset_reports_def int_reports_def using_reports_def
      reference_reports_def good split: option.split)

lemma good_language_reports [good]: "good_res filename (language_reports w filename c n e l)"
  unfolding language_reports_def
  by (auto simp: good simp del: seq_res.simps intro!: good_res_seq)

lemma good_check_order_of [good]: "good_pair filename (check_order_of filename c n i b t s)"
  unfolding check_order_of_def Let_def
  by (intro conjI allI impI good_pair_bind | simp add: good split: prod.split)+

lemma good_process_include [good]: "good_opt filename (process_include f enum w filename c n i b s)"
  unfolding process_include_def
  by (intro conjI allI impI good_opt_bind | simp add: good split: option.split)+

lemma good_CheckIncludeLine [good]: "good_opt filename (CheckIncludeLine f enum w filename c n s)"
  unfolding CheckIncludeLine_def
  by (rule good_opt_bind, rule good_opt_prefix) (auto simp: good split: option.split)

lemma good_CheckLanguage [good]: "good_opt filename (CheckLanguage f enum w filename c n e s)"
proof -
  have "good_pair filename (bind_res (language_reports w filename c n e l) (\<lambda>rs. Inr (rs, s')))" for l s'
    using good_language_reports [of filename w c n e l]
    by (auto simp: good_res_def good_pair_def bind_res_Inr_iff)
  then show ?thesis
    unfolding CheckLanguage_def Let_def by (intro good_opt_bind) (auto simp: good)
qed

lemma good_CheckForNonConstReference [good]:
  "good_res filename (CheckForNonConstReference filename c n s)"
  unfolding CheckForNonConstReference_def
  by (intro conjI impI good_res_bind | simp add: good)+

lemma good_virtual_reports [good]: "good_res filename (virtual_reports filename n c k is)"
proof (induction "is" arbitrary: k)
  case (Cons i "is")
  from Cons.IH [of 0] have "good_res filename (bind_res (virtual_reports filename n c 0 is) (\<lambda>rs'. Inr (rs @ rs')))"
    if "goods filename rs" for rs
    using that by (auto simp: good_res_def goods_def bind_res_Inr_iff)
  then show ?case
    by (auto simp: Let_def good intro!: good_res_bind split: option.split)
qed (simp add: good)

lemma good_last [good]:
  "good_res filename (CheckMakePairUsesDeduction filename c n)"
  "good_res filename (CheckRedundantVirtual filename c n)"
  "good_res filename (CheckRedundantOverrideOrFinal filename c n)"
  "good_res filename (FlagCxx11Features filename c n)"
  unfolding CheckMakePairUsesDeduction_def CheckRedundantVirtual_def
    CheckRedundantOverrideOrFinal_def FlagCxx11Features_def
  by (auto simp: good intro!: good_res_bind split: option.split)

section \<open>The nesting state and NOLINT\<close>

lemma good_CheckEnd [good]: "good_res filename (CheckEnd filename c n b)"
proof -
  have "goods filename (check_disallow filename k ls s)" for k ls s
    by (induction filename k ls s rule: check_disallow.induct) (auto simp: good split: option.split)
  then show ?thesis
    by (auto simp: CheckEnd_def class_CheckEnd_def namespace_CheckEnd_def good
        intro!: good_res_bind split: block_kind.split option.split)
qed

lemma good_brace_step: "good_pair filename (brace_step filename c n l t s)"
proof -
  have "good_pair filename (bind_res (CheckEnd filename c n b) (\<lambda>rs. Inr (rs, pop s)))" for b
    using good_CheckEnd [of filename c n b] by (auto simp: good_res_def good_pair_def bind_res_Inr_iff)
  then show ?thesis
    by (auto simp: brace_step_def good split: list.split)
qed

lemma good_brace_loop: "good_pair filename (brace_loop filename c n l s)"
proof (induction filename c n l s rule: brace_loop.induct)
  case (1 filename c n l s)
  show ?case
    unfolding good_pair_def
  proof (intro allI impI)
    fix rs s'
    assume b: "brace_loop filename c n l s = Inr (rs, s')"
    show "goods filename rs"
    proof (cases "Match brace_re l")
      case (Some m)
      with b obtain r1 s1 r2 where "brace_step filename c n l (gtext m 1) s = Inr (r1, s1)"
        "brace_loop filename c n (gtext m 2) s1 = Inr (r2, s')" "rs = r1 @ r2"
        by (subst (asm) brace_loop.simps) (auto simp: bind_res_Inr_iff split: sum.splits prod.splits)
      with "1.IH" [OF Some] good_brace_step [of filename c n l "gtext m 1" s] show ?thesis
        by (auto simp: good_pair_def good)
    qed (use b in \<open>subst (asm) brace_loop.simps, simp add: good\<close>)
  qed
qed

lemma goods_access_step [good]: "goods filename (fst (access_step filename n l s))"
  by (auto simp: access_step_def good Let_def split: list.split block_kind.split option.split)

lemma good_Update: "good_pair filename (Update filename c n s)"
  unfolding good_pair_def
  by (auto simp: Update_def bind_res_Inr_iff Let_def good case_prod_unfold
      dest: good_pairD [OF good_brace_loop])

lemma goods_ParseNolintSuppressions:
  "goods filename (snd (ParseNolintSuppressions filename l n d))"
  by (auto simp: ParseNolintSuppressions_def Let_def good split: option.split)

section \<open>Through \<open>ProcessLine\<close>\<close>

text \<open>An error function that keeps a property of the state for every good report: then \<open>ProcessLine\<close>
  keeps it, whatever the line, provided the additional checks make good reports too.\<close>

definition good_checks :: "string \<Rightarrow> check_fn list \<Rightarrow> bool" where
  "good_checks filename extra \<longleftrightarrow> (\<forall>chk \<in> set extra. \<forall>c n. good_res filename (chk filename c n))"

locale good_sink =
  fixes err :: error_fn
    and filename :: string
    and I :: "world \<Rightarrow> bool"
  assumes err_keeps: "I w \<Longrightarrow> good_report filename r \<Longrightarrow> err r w = Inr w' \<Longrightarrow> I w'"
    and nolint_keeps: "I w \<Longrightarrow> I (w\<lparr>error_suppressions := d\<rparr>)"
begin

lemma emit_keeps: "goods filename rs \<Longrightarrow> I w \<Longrightarrow> emit err rs w = Inr w' \<Longrightarrow> I w'"
  by (induction rs arbitrary: w) (auto simp: bind_res_Inr_iff goods_def dest: err_keeps)

lemma perform_keeps:
  "list_all (good_event filename) es \<Longrightarrow> I w \<Longrightarrow> perform err filename es w = Inr w' \<Longrightarrow> I w'"
proof (induction es arbitrary: w)
  case (Cons e es)
  show ?case
  proof (cases e)
    case (Err r)
    with Cons.prems Cons.IH show ?thesis by (auto simp: bind_res_Inr_iff dest: err_keeps)
  next
    case (ReadNolint l n)
    obtain d rs where p: "ParseNolintSuppressions filename l n (error_suppressions w) = (d, rs)" by fastforce
    then have "goods filename rs"
      using goods_ParseNolintSuppressions [of filename l n "error_suppressions w"] by simp
    with p ReadNolint Cons.prems Cons.IH show ?thesis
      by (auto simp: bind_res_Inr_iff dest: emit_keeps [OF _ nolint_keeps])
  qed
qed simp

lemma check_line_keeps:
  assumes extra: "good_checks filename extra"
    and "I w" "check_line f enum err extra filename e c n st w = Some (Inr (st', w'))"
  shows "I w'"
proof -
  have last: "good_res filename (last_checks extra filename c n s)" for s
    unfolding last_checks_def
    using extra by (auto intro!: good_res_seq simp: good good_checks_def simp del: seq_res.simps)
  from assms(3) obtain rs1 fn w1 rs2 w2 es w3 rs3 inc w4 rs4 where
    steps: "CheckForFunctionLengths (VerboseLevel w) filename c n (st_function st) = Inr (rs1, fn)"
      "emit err rs1 w = Inr w1"
      "CheckForMultilineCommentsAndStrings filename c n = Inr rs2" "emit err rs2 w1 = Inr w2"
      "CheckStyle f w2 filename c n e (st_nesting st) = Some (Inr es)" "perform err filename es w2 = Inr w3"
      "CheckLanguage f enum w3 filename c n e (st_include st) = Some (Inr (rs3, inc))"
      "emit err rs3 w3 = Inr w4"
      "last_checks extra filename c n (st_nesting st) = Inr rs4" "emit err rs4 w4 = Inr w'"
    unfolding check_line_def by (auto simp: bind_ro_Some_iff)
  have "I w1"
    using good_pairD [OF good_CheckForFunctionLengths steps(1)] assms(2) steps(2) by (rule emit_keeps)
  then have "I w2"
    using good_resD [OF good_CheckForMultilineCommentsAndStrings steps(3)] steps(4) by (blast intro: emit_keeps)
  moreover have "list_all (good_event filename) es"
    using good_CheckStyle [OF steps(5)] by (simp add: good)
  ultimately have "I w3"
    using steps(6) by (blast intro: perform_keeps)
  then have "I w4"
    using good_optD [OF good_CheckLanguage steps(7)] steps(8) by (blast intro: emit_keeps)
  then show ?thesis
    using good_resD [OF last steps(9)] steps(10) by (blast intro: emit_keeps)
qed

lemma ProcessLine_keeps:
  assumes extra: "good_checks filename extra"
    and "I w" "ProcessLine f enum err extra filename e c n st w = Some (Inr (st', w'))"
  shows "I w'"
proof -
  from assms(3) obtain l w1 rs1 nst w2 rs2 w3 where
    steps: "perform err filename [ReadNolint l (int n)] w = Inr w1"
      "Update filename c n (st_nesting st) = Inr (rs1, nst)" "emit err rs1 w1 = Inr w2"
      "CheckForNamespaceIndentation filename nst c n = Inr rs2" "emit err rs2 w2 = Inr w3"
    and rest: "InAsmBlock nst \<and> w' = w3 \<or>
      check_line f enum err extra filename e c n (st\<lparr>st_nesting := nst\<rparr>) w3 = Some (Inr (st', w'))"
    unfolding ProcessLine_def
    by (auto simp: bind_ro_Some_iff Let_def simp del: perform.simps split: if_splits)
  have "I w1"
    using perform_keeps [OF _ assms(2) steps(1)] by simp
  then have "I w2"
    using good_pairD [OF good_Update steps(2)] steps(3) by (blast intro: emit_keeps)
  then have "I w3"
    using good_resD [OF good_CheckForNamespaceIndentation steps(4)] steps(5) by (blast intro: emit_keeps)
  with rest show ?thesis using check_line_keeps [OF extra] by blast
qed

lemma process_lines_keeps:
  assumes extra: "good_checks filename extra"
    and "I w" "process_lines f enum err extra filename e c ls st w = Some (Inr (st', w'))"
  shows "I w'"
  using assms(2,3)
proof (induction ls arbitrary: st w)
  case (Cons n ls)
  from Cons.prems(2) obtain st1 w1 rs w2 where
    steps: "ProcessLine f enum err extra filename e c n st w = Some (Inr (st1, w1))"
      "FlagCxx11Features filename c n = Inr rs" "emit err rs w1 = Inr w2"
      "process_lines f enum err extra filename e c ls st1 w2 = Some (Inr (st', w'))"
    by (auto simp: bind_ro_Some_iff)
  have "goods filename rs" by (rule good_resD [OF good_last(4) steps(2)])
  with Cons.prems(1) ProcessLine_keeps [OF extra _ steps(1)] have "I w2"
    using emit_keeps steps(3) by blast
  then show ?case using Cons.IH steps(4) by blast
qed simp

end

section \<open>Registered categories\<close>

text \<open>The categories in the counts of the style \<open>detailed\<close> and in the JUnit failures.\<close>

definition registered_only :: "CppLintState \<Rightarrow> bool" where
  "registered_only s \<longleftrightarrow>
     (counting s = ''detailed'' \<longrightarrow>
        list_all (\<lambda>(category, count). category \<in> set ERROR_CATEGORIES) (errors_by_category s)) \<and>
     list_all (\<lambda>(f, l, m, category, confidence). category \<in> set ERROR_CATEGORIES \<and> confidence \<le> 5)
       (junit_failures s)"

lemma list_all_keys: "list_all (\<lambda>(k, n). k \<in> S) d \<longleftrightarrow> fst ` set d \<subseteq> S"
  by (auto simp: list_all_iff)

lemma IncrementErrorCount_registered:
  "c \<in> set ERROR_CATEGORIES \<Longrightarrow> registered_only s \<Longrightarrow> registered_only (IncrementErrorCount c s)"
  by (auto simp: registered_only_def IncrementErrorCount_def dict_bump_def Let_def list_all_keys dom_update)

lemma Error_registered:
  assumes "registered_only (cpplint_state w)" "good_report filename r" "Error r w = Inr w'"
  shows "registered_only (cpplint_state w')"
proof -
  obtain f l c n m where r: "r = ReportAt f l c n m" by (cases r)
  have c: "c \<in> set ERROR_CATEGORIES" "n \<le> 5" using assms(2) by (auto simp: good r)
  have i: "registered_only (IncrementErrorCount c (cpplint_state w))"
    using c(1) assms(1) by (rule IncrementErrorCount_registered)
  have "registered_only (s\<lparr>junit_errors := es\<rparr>) = registered_only s" for s es
    by (simp add: registered_only_def)
  moreover have "registered_only s \<Longrightarrow> registered_only (AddJUnitFailure f l m c n s)" for s
    using c by (simp add: registered_only_def AddJUnitFailure_def)
  ultimately show ?thesis
    using i assms(1,3) by (auto simp: Error_def r bind_res_Inr_iff Let_def PrintError_def split: if_splits)
qed

interpretation known: good_sink Error filename "\<lambda>w. registered_only (cpplint_state w)" for filename :: string
  by unfold_locales (auto intro: Error_registered)

text \<open>C8: All that \<open>ProcessLine\<close> reports, line after line, is in a registered category: with the counting
  style \<open>detailed\<close> only members of \<open>_ERROR_CATEGORIES\<close> are ever counted, and the JUnit failures have
  such categories and confidences of at most 5, if the additional checks keep to that too.\<close>

theorem reported_categories_registered:
  assumes "good_checks filename extra"
    and "process_lines f enum Error extra filename e c ls st w = Some (Inr (st', w'))"
    and "registered_only (cpplint_state w)"
  shows "(counting (cpplint_state w') = ''detailed'' \<longrightarrow>
      fst ` set (errors_by_category (cpplint_state w')) \<subseteq> set ERROR_CATEGORIES) \<and>
    (\<forall>(f, l, m, category, confidence) \<in> set (junit_failures (cpplint_state w')).
      category \<in> set ERROR_CATEGORIES \<and> confidence \<le> 5)"
  using known.process_lines_keeps [OF assms(1,3,2)]
  by (auto simp: registered_only_def list_all_iff)

lemma map_result_SomeD:
  "map_option (map_sum id g) p = Some (Inr y) \<Longrightarrow> \<exists>x. p = Some (Inr x) \<and> g x = y"
  by (cases p; cases "the p") auto

abbreviation asm_lines :: CleansedLines where
  "asm_lines \<equiv> \<lparr>elided = [''// m'', ''asm (''], lines = [''// m'', ''asm (''],
     raw_lines = [''// m'', ''asm (  // NOLINT(foo)''], num_lines = 2,
     lines_without_raw_strings = [''// m'', ''asm (  // NOLINT(foo)'']\<rparr>"

abbreviation in_block :: file_state where
  "in_block \<equiv> new_file_state\<lparr>st_nesting := push (new_BlockInfo 0 True) new_NestingState\<rparr>"

theorem reported_categories_registered_witness:
  "\<exists>st' w'. process_lines \<lparr>fs_exists = (\<lambda>p. False), fs_cwd = ''/''\<rparr> (\<lambda>S. []) Error [] ''a.cc'' ''cc''
      asm_lines [1] in_block (SetCountingStyle ''detailed'' new_world) = Some (Inr (st', w')) \<and>
    errors_by_category (cpplint_state w') = [(''readability/nolint'', 1)] \<and>
    counting (cpplint_state w') = ''detailed'' \<and>
    fst ` set (errors_by_category (cpplint_state w')) \<subseteq> set ERROR_CATEGORIES"
proof -
  let ?w = "SetCountingStyle ''detailed'' new_world"
  let ?p = "process_lines \<lparr>fs_exists = (\<lambda>p. False), fs_cwd = ''/''\<rparr> (\<lambda>S. []) Error [] ''a.cc'' ''cc''
      asm_lines [1] in_block ?w"
  have "map_option (map_sum id (\<lambda>(st, w). (errors_by_category (cpplint_state w), counting (cpplint_state w)))) ?p =
      Some (Inr ([(''readability/nolint'', 1)], ''detailed''))"
    by code_simp
  from map_result_SomeD [OF this] obtain st' w' where p: "?p = Some (Inr (st', w'))"
    and w': "errors_by_category (cpplint_state w') = [(''readability/nolint'', 1)]"
      "counting (cpplint_state w') = ''detailed''"
    by (elim exE conjE) (simp only: split_paired_all prod.inject prod.case)
  have "good_checks ''a.cc'' []" by (simp add: good_checks_def)
  moreover have "registered_only (cpplint_state ?w)" by code_simp
  ultimately have "fst ` set (errors_by_category (cpplint_state w')) \<subseteq> set ERROR_CATEGORIES"
    using reported_categories_registered [OF _ p] w'(2) by blast
  with p w' show ?thesis by blast
qed

end
