(* ===== verification/File_Laws.thy ===== *)
theory File_Laws
  imports Check_Laws Driver
begin

text \<open>
  What holds of a whole run: the reports of the checks of \<open>ProcessFileData\<close> are good like those of
  \<open>ProcessLine\<close>, so a property of the state that every good report keeps is kept by \<open>ProcessFileData\<close>
  (locale \<open>file_sink\<close>), and one that depends on the counts only by \<open>ProcessFile\<close> and \<open>main\<close> (locale
  \<open>lint_invariant\<close>).
\<close>

section \<open>The reports of the whole-file checks\<close>

lemma goods_map [good]: "goods filename (map g xs) \<longleftrightarrow> (\<forall>x \<in> set xs. good_report filename (g x))"
  by (auto simp: goods_def list_all_iff)

lemma registered_file [good]:
  "''build/include_what_you_use'' \<in> set ERROR_CATEGORIES"
  "''readability/nul'' \<in> set ERROR_CATEGORIES"
  "''whitespace/ending_newline'' \<in> set ERROR_CATEGORIES"
  "''whitespace/newline'' \<in> set ERROR_CATEGORIES"
  by (simp_all add: ERROR_CATEGORIES_def)

lemma goods_file_checks [good]:
  "goods filename (CheckForCopyright filename ls)"
  "goods filename (CheckForBadCharacters filename ls)"
  "goods filename (CheckForNewlineAtEOF filename ls)"
  "goods filename (CheckCompletedBlocks filename s)"
  "goods filename (missing_headers filename req d)"
  "goods filename (cr_reports filename ns)"
  by (auto simp: CheckForCopyright_def CheckForBadCharacters_def CheckForNewlineAtEOF_def cr_reports_def
      CheckCompletedBlocks_def completed_report_def missing_headers_def good split: block_kind.split)

lemma goods_RemoveMultiLineComments: "goods filename (snd (RemoveMultiLineComments filename ls))"
proof -
  have "goods filename (snd (remove_comments filename ls n))" for n
    by (induction filename ls n rule: remove_comments.induct)
      (subst remove_comments.simps, auto simp: good Let_def)
  then show ?thesis by (simp add: RemoveMultiLineComments_def)
qed

lemma goods_endif_reports [good]: "goods filename (endif_reports filename v ls g)"
  by (auto simp: endif_reports_def Let_def good split: option.split)

lemma good_CheckForHeaderGuard:
  "CheckForHeaderGuard f repo root filename c = Some r \<Longrightarrow> good_events filename r"
proof -
  have "list_all (good_event filename) (map Err (endif_reports filename v ls g))" for v ls g
    using goods_endif_reports [of filename v ls g] by (simp add: goods_def list_all_iff)
  then show "CheckForHeaderGuard f repo root filename c = Some r \<Longrightarrow> good_events filename r"
    by (auto simp: CheckForHeaderGuard_def Let_def good_events_def bind_res_Inr_iff good split: if_splits)
qed

lemma good_CheckForIncludeWhatYouUse:
  "CheckForIncludeWhatYouUse f io w filename c s = Some (Inr rs) \<Longrightarrow> goods filename rs"
  by (auto simp: CheckForIncludeWhatYouUse_def Let_def bind_ro_Some_iff good split: if_splits)

lemma goods_header_file_loop:
  "header_file_loop f w filename b s exts = Some rs \<Longrightarrow> goods filename rs"
  by (induction exts arbitrary: rs)
    (auto simp: good Let_def Option.bind_eq_Some_conv split: if_splits option.splits)

lemma good_CheckHeaderFileIncluded:
  "CheckHeaderFileIncluded f enum w filename s = Some rs \<Longrightarrow> goods filename rs"
  by (auto simp: CheckHeaderFileIncluded_def Option.bind_eq_Some_conv good dest: goods_header_file_loop
      split: if_splits)

section \<open>\<open>ProcessFileData\<close>\<close>

locale file_sink = good_sink +
  assumes global_keeps: "I w \<Longrightarrow> I (w\<lparr>global_error_suppressions := g\<rparr>)"
begin

lemma final_checks_keeps:
  assumes "I w" "final_checks h err filename e ls c st w = Some (Inr w')"
  shows "I w'"
proof -
  from assms(2) obtain rs1 w1 w2 rs2 w3 w4 where
    steps: "emit err (CheckCompletedBlocks filename (st_nesting st)) w = Inr w1"
      "CheckForIncludeWhatYouUse (h_fs h) (h_codecs_open h) w1 filename c (st_include st) = Some (Inr rs1)"
      "emit err rs1 w1 = Inr w2"
      "(if IsSourceExtension e w2
        then safe (CheckHeaderFileIncluded (h_fs h) (h_enum h) w2 filename (st_include st))
        else ending (Inr [])) = Some (Inr rs2)"
      "emit err rs2 w2 = Inr w3" "emit err (CheckForBadCharacters filename ls) w3 = Inr w4"
      "emit err (CheckForNewlineAtEOF filename ls) w4 = Inr w'"
    unfolding final_checks_def bind_ro_Some_iff by blast
  have "I w1" using goods_file_checks(4) assms(1) steps(1) by (rule emit_keeps)
  with good_CheckForIncludeWhatYouUse [OF steps(2)] steps(3) have "I w2" by (blast intro: emit_keeps)
  moreover have "goods filename rs2"
    using steps(4) by (auto simp: good dest: good_CheckHeaderFileIncluded split: if_splits)
  ultimately have "I w3" using steps(5) by (blast intro: emit_keeps)
  with goods_file_checks(2) have "I w4" using steps(6) by (rule emit_keeps)
  with goods_file_checks(3) show ?thesis using steps(7) by (rule emit_keeps)
qed

lemma ProcessFileData_keeps:
  assumes extra: "good_checks filename extra"
    and "I w" "ProcessFileData h err extra filename e ls w = Some (Inr w')"
  shows "I w'"
proof -
  obtain g ls' rs where rs: "RemoveMultiLineComments filename ([first_marker] @ ls @ [last_marker]) = (ls', rs)"
    by fastforce
  from assms(3) rs obtain w1 w2 c es w3 st w4 where
    steps: "emit err (CheckForCopyright filename ([first_marker] @ ls @ [last_marker])) (ResetNolintSuppressions w)
        = Inr w1"
      "emit err rs (w1\<lparr>global_error_suppressions :=
         ProcessGlobalSuppresions ([first_marker] @ ls @ [last_marker]) (global_error_suppressions w1)\<rparr>) = Inr w2"
      "(if IsHeaderExtension e w2
        then CheckForHeaderGuard (h_fs h) (repository w2) (root_flag w2) filename c
        else ending (Inr [])) = Some (Inr es)"
      "perform err filename es w2 = Inr w3"
      "process_lines (h_fs h) (h_enum h) err extra filename e c [0..<NumLines c] new_file_state w3 =
         Some (Inr (st, w4))"
      "final_checks h err filename e ls' c st w4 = Some (Inr w')"
    unfolding ProcessFileData_def
    by (simp only: Let_def bind_ro_Some_iff split_paired_Ex prod.case option.inject) blast
  have "I (ResetNolintSuppressions w)"
    using global_keeps [OF nolint_keeps [OF assms(2)]] by (simp add: ResetNolintSuppressions_def)
  with goods_file_checks(1) have "I w1" using steps(1) by (rule emit_keeps)
  moreover have "goods filename rs"
    using goods_RemoveMultiLineComments [of filename "[first_marker] @ ls @ [last_marker]"] rs by simp
  ultimately have "I w2" using steps(2) by (blast intro: emit_keeps global_keeps)
  moreover have "list_all (good_event filename) es"
    using steps(3) by (auto dest: good_CheckForHeaderGuard simp: good split: if_splits)
  ultimately have "I w3" using steps(4) by (blast intro: perform_keeps)
  then have "I w4" using process_lines_keeps [OF extra] steps(5) by blast
  then show ?thesis using steps(6) by (rule final_checks_keeps)
qed

end

section \<open>Configuration files\<close>

text \<open>Of the state of the linter, configuration files change the filters and the messages for the JUnit
  document, nothing else.\<close>

definition erase_filters :: "CppLintState \<Rightarrow> CppLintState" where
  "erase_filters s = s\<lparr>filters := [], junit_errors := []\<rparr>"

definition cfg_frame :: "world \<Rightarrow> world \<Rightarrow> bool" where
  "cfg_frame w w' \<longleftrightarrow> erase_filters (cpplint_state w') = erase_filters (cpplint_state w)"

lemma cfg_frameI:
  "cpplint_state w' = cpplint_state w \<Longrightarrow> cfg_frame w w'"
  "cpplint_state w' = (cpplint_state w)\<lparr>junit_errors := es\<rparr> \<Longrightarrow> cfg_frame w w'"
  "cpplint_state w' = (cpplint_state w)\<lparr>filters := fs\<rparr> \<Longrightarrow> cfg_frame w w'"
  by (simp_all add: cfg_frame_def erase_filters_def)

lemma cfg_frameD:
  assumes "cfg_frame w w'"
  shows "verbose_level (cpplint_state w') = verbose_level (cpplint_state w)"
    "filters_backup (cpplint_state w') = filters_backup (cpplint_state w)"
    "counting (cpplint_state w') = counting (cpplint_state w)"
    "output_format (cpplint_state w') = output_format (cpplint_state w)"
    "error_count (cpplint_state w') = error_count (cpplint_state w)"
    "errors_by_category (cpplint_state w') = errors_by_category (cpplint_state w)"
    "junit_failures (cpplint_state w') = junit_failures (cpplint_state w)"
  using assms by (cases "cpplint_state w"; cases "cpplint_state w'";
    simp add: cfg_frame_def erase_filters_def)+

lemma cfg_frame_refl: "cfg_frame w w"
  by (simp add: cfg_frame_def)

lemma cfg_frame_trans: "cfg_frame u v \<Longrightarrow> cfg_frame v w \<Longrightarrow> cfg_frame u w"
  by (simp add: cfg_frame_def)

lemma cfg_frame_Print: "cfg_frame w (PrintInfo m w)" "cfg_frame w (PrintError m w)"
  by (auto simp: PrintInfo_def PrintError_def intro: cfg_frameI)

lemma cfg_frame_option:
  "cfg_option h filename cfg base name val s = Inr (b, s') \<Longrightarrow> cfg_frame (cfg_world s) (cfg_world s')"
  by (auto simp: cfg_option_def bind_res_Inr_iff ProcessExtensionsOption_def ProcessHppHeadersOption_def
      intro: cfg_frameI(1) cfg_frame_Print split: if_splits option.splits)

lemma cfg_frame_lines:
  "cfg_lines h filename cfg base ls s = Inr (b, s') \<Longrightarrow> cfg_frame (cfg_world s) (cfg_world s')"
proof (induction ls arbitrary: s)
  case (Cons l ls)
  then show ?case
    by (auto simp: Let_def bind_res_Inr_iff intro: cfg_frame_trans dest: cfg_frame_option split: if_splits)
qed (simp add: cfg_frame_refl)

lemma cfg_frame_read:
  "cfg_read h filename cfg base s = Inr (b, s') \<Longrightarrow> cfg_frame (cfg_world s) (cfg_world s')"
  by (auto simp: cfg_read_def intro: cfg_frame_Print cfg_frame_lines split: option.splits)

lemma cfg_frame_loop:
  "cfg_loop h filename p s = Inr (b, s') \<Longrightarrow> cfg_frame (cfg_world s) (cfg_world s')"
proof (induction h filename p s rule: cfg_loop.induct)
  case (1 h filename p s)
  obtain q base where q: "path_split p = (q, base)" by fastforce
  show ?case
    using "1.prems" "1.IH" [OF _ q [symmetric]] q
    by (subst (asm) cfg_loop.simps)
      (auto simp: Let_def cfg_frame_refl split: if_splits sum.splits
        intro: cfg_frame_trans dest: cfg_frame_read)
qed

lemma cfg_frame_AddFilters: "cfg_frame w (snd (AddFilters f w))"
  by (rule cfg_frameI(3)) (simp add: AddFilters_def CppLintState_AddFilters_def Let_def)

lemma cfg_frame_add_filters: "add_filters fs w = Inr w' \<Longrightarrow> cfg_frame w w'"
proof (induction fs arbitrary: w)
  case (Cons f fs)
  then obtain r v where v: "AddFilters f w = (r, v)" "add_filters fs v = Inr w'"
    by (auto simp: bind_res_Inr_iff split: prod.splits)
  then have "cfg_frame v w'" using Cons.IH by blast
  moreover have "cfg_frame w v" using cfg_frame_AddFilters [of w f] v(1) by simp
  ultimately show ?case by (rule cfg_frame_trans [rotated])
qed (simp add: cfg_frame_refl)

lemma ProcessConfigOverrides_frame:
  "ProcessConfigOverrides h filename w = Inr (b, w') \<Longrightarrow> cfg_frame w w'"
  by (auto simp: ProcessConfigOverrides_def bind_res_Inr_iff dest!: cfg_frame_loop cfg_frame_add_filters
      intro: cfg_frame_trans split: if_splits)

section \<open>Invariants of a run\<close>

text \<open>The ways through \<open>ProcessFile\<close>: all of them end with \<open>_RestoreFilters\<close>.\<close>

lemma ProcessFile_ways:
  assumes "ProcessFile h extra filename v w = Some (Inr w')"
  obtains (skipped) k u where "ProcessConfigOverrides h filename (BackupFilters (snd (SetVerboseLevel v w))) = Inr (k, u)"
      "w' = RestoreFilters u"
  | (unreadable) k u m where "ProcessConfigOverrides h filename (BackupFilters (snd (SetVerboseLevel v w))) = Inr (k, u)"
      "w' = RestoreFilters (PrintError m u)"
  | (linted) k u t x where "ProcessConfigOverrides h filename (BackupFilters (snd (SetVerboseLevel v w))) = Inr (k, u)"
      "lint_text h extra filename t u = Some (Inr x)"
      "w' = RestoreFilters x \<or> (\<exists>m. w' = RestoreFilters (PrintInfo m x))"
proof -
  let ?w = "BackupFilters (snd (SetVerboseLevel v w))"
  from assms obtain k u where u: "ProcessConfigOverrides h filename ?w = Inr (k, u)"
    unfolding ProcessFile_def by (auto simp: bind_ro_Some_iff Let_def)
  show thesis
  proof (cases k)
    case False
    with assms u show thesis by (intro skipped [OF u]) (simp add: ProcessFile_def Let_def)
  next
    case k: True
    show thesis
    proof (cases "if filename = ''-'' then h_stdin h else h_codecs_open h filename")
      case None
      with assms u k obtain m where "w' = RestoreFilters (PrintError m u)"
        by (auto simp: ProcessFile_def Let_def)
      then show thesis by (rule unreadable [OF u])
    next
      case (Some t)
      with assms u k obtain x where "lint_text h extra filename t u = Some (Inr x)"
        "w' = RestoreFilters x \<or> (\<exists>m. w' = RestoreFilters (PrintInfo m x))"
        by (auto simp: ProcessFile_def Let_def bind_ro_Some_iff split: if_splits)
      then show thesis by (rule linted [OF u])
    qed
  qed
qed

text \<open>What a report does to the state of the linter.\<close>

lemma Error_effect:
  assumes "Error (ReportAt f l c n m) w = Inr w'"
  shows "cpplint_state w' = cpplint_state w \<or>
    OutputFormat w \<noteq> ''junit'' \<and> cpplint_state w' = IncrementErrorCount c (cpplint_state w) \<or>
    OutputFormat w = ''junit'' \<and>
      cpplint_state w' = AddJUnitFailure f l m c n (IncrementErrorCount c (cpplint_state w))"
  using assms
  by (auto simp: Error_def bind_res_Inr_iff Let_def PrintError_def OutputFormat_def frame_simps split: if_splits)

text \<open>The sink of a whole file: messages are not reports, and are kept too.\<close>

locale lint_sink = file_sink Error filename I for filename I +
  assumes print_keeps: "I w \<Longrightarrow> I (PrintError m w)"
begin

lemma lint_text_keeps:
  assumes extra: "good_checks filename extra"
    and "I w" "lint_text h extra filename t w = Some (Inr w')"
  shows "I w'"
proof -
  obtain ls lf cl where p: "strip_line_ends (split_on newline t) = (ls, lf, cl)" by (metis prod_cases3)
  show ?thesis
  proof (cases "filename \<noteq> ''-'' \<and> extension_of filename \<notin> GetAllExtensions w")
    case False
    with assms(3) p obtain v where v:
      "ProcessFileData h Error extra filename (extension_of filename) ls w = Some (Inr v)"
      "v = w' \<or> emit Error (cr_reports filename cl) v = Inr w'"
      unfolding lint_text_def by (auto simp: bind_ro_Some_iff simp del: emit.simps split: if_splits)
    have "I v"
      using ProcessFileData_keeps [OF extra assms(2) v(1)] .
    then show ?thesis using v(2) emit_keeps [OF goods_file_checks(6)] by blast
  qed (use assms(2,3) p in \<open>auto simp: lint_text_def intro: print_keeps\<close>)
qed

end

text \<open>Properties of the counts and of the JUnit failures that every good report keeps are kept by a
  whole run.\<close>

definition same_counts :: "CppLintState \<Rightarrow> CppLintState \<Rightarrow> bool" where
  "same_counts s s' \<longleftrightarrow> error_count s' = error_count s \<and> errors_by_category s' = errors_by_category s \<and>
     counting s' = counting s \<and> output_format s' = output_format s \<and> junit_failures s' = junit_failures s"

locale lint_invariant =
  fixes J :: "CppLintState \<Rightarrow> bool"
  assumes same: "J s \<Longrightarrow> same_counts s s' \<Longrightarrow> J s'"
    and report_keeps: "J (cpplint_state w) \<Longrightarrow> good_report filename r \<Longrightarrow> Error r w = Inr w' \<Longrightarrow>
      J (cpplint_state w')"

context lint_invariant
begin

lemma frame_keeps: "cfg_frame w w' \<Longrightarrow> J (cpplint_state w) \<Longrightarrow> J (cpplint_state w')"
  by (rule same) (auto simp: same_counts_def cfg_frameD)

lemma print_keeps:
  "J (cpplint_state w) \<Longrightarrow> J (cpplint_state (PrintError m w))"
  "J (cpplint_state w) \<Longrightarrow> J (cpplint_state (PrintInfo m w))"
  by (auto intro: frame_keeps cfg_frame_Print)

end

sublocale lint_invariant \<subseteq> sink: lint_sink filename "\<lambda>w. J (cpplint_state w)" for filename :: string
  by unfold_locales (auto intro: report_keeps print_keeps)

context lint_invariant
begin

lemma ProcessFile_keeps:
  assumes extra: "good_checks filename extra"
    and "J (cpplint_state w)" "ProcessFile h extra filename v w = Some (Inr w')"
  shows "J (cpplint_state w')"
proof -
  let ?w = "BackupFilters (snd (SetVerboseLevel v w))"
  have "J (cpplint_state ?w)"
    using assms(2) by (rule same)
      (simp add: same_counts_def BackupFilters_def SetVerboseLevel_def CppLintState_BackupFilters_def
        CppLintState_SetVerboseLevel_def)
  then have cfg: "J (cpplint_state u)" if "ProcessConfigOverrides h filename ?w = Inr (k, u)" for k u
    using frame_keeps ProcessConfigOverrides_frame [OF that] by blast
  have restore: "J (cpplint_state (RestoreFilters x))" if "J (cpplint_state x)" for x
    using that by (rule same) (simp add: same_counts_def RestoreFilters_def CppLintState_RestoreFilters_def)
  from assms(3) show ?thesis
    by (cases rule: ProcessFile_ways)
      (auto intro: restore print_keeps dest: cfg sink.lint_text_keeps [OF extra, rotated])
qed

lemma process_files_keeps:
  "J (cpplint_state w) \<Longrightarrow> process_files h fs w = Some (Inr w') \<Longrightarrow> J (cpplint_state w')"
proof (induction fs arbitrary: w)
  case (Cons f fs)
  moreover have "good_checks f []" by (simp add: good_checks_def)
  ultimately show ?case
    by (auto simp: bind_ro_Some_iff dest: ProcessFile_keeps)
qed simp

end

lemma Error_registered_state:
  "registered_only (cpplint_state w) \<Longrightarrow> good_report filename r \<Longrightarrow> Error r w = Inr w' \<Longrightarrow>
   registered_only (cpplint_state w')"
  by (rule Error_registered)

interpretation registered: lint_invariant registered_only
proof
  fix s s' assume "registered_only s" "same_counts s s'"
  then show "registered_only s'" by (simp add: registered_only_def same_counts_def)
qed (rule Error_registered_state)

interpretation counts: lint_invariant counts_ok
proof
  fix s s' assume "counts_ok s" "same_counts s s'"
  then show "counts_ok s'" by (simp add: counts_ok_def same_counts_def)
next
  fix w filename r w' assume ok: "counts_ok (cpplint_state w)" and e: "Error r w = Inr w'"
  have "counts_ok (AddJUnitFailure f l m c n s) = counts_ok s" for f l m c n s
    by (simp add: counts_ok_def AddJUnitFailure_def)
  then show "counts_ok (cpplint_state w')"
    using ok e IncrementErrorCount_counts [OF ok] by (cases r) (auto dest: Error_effect)
qed

text \<open>With the output format \<open>junit\<close> every error that is counted is a failure of the document.\<close>

definition junit_ok :: "CppLintState \<Rightarrow> bool" where
  "junit_ok s \<longleftrightarrow> (output_format s = ''junit'' \<longrightarrow> error_count s = int (length (junit_failures s)))"

interpretation junit: lint_invariant junit_ok
proof
  fix s s' assume "junit_ok s" "same_counts s s'"
  then show "junit_ok s'" by (simp add: junit_ok_def same_counts_def)
next
  fix w filename r w' assume ok: "junit_ok (cpplint_state w)" and e: "Error r w = Inr w'"
  then show "junit_ok (cpplint_state w')"
    by (cases r) (auto simp: junit_ok_def AddJUnitFailure_def OutputFormat_def frame_simps dest!: Error_effect)
qed

section \<open>Runs\<close>

lemma leaves_state:
  "cpplint_state (snd (PrintUsage h m w)) = cpplint_state w"
  "cpplint_state (snd (PrintVersion h w)) = cpplint_state w"
  "cpplint_state (snd (PrintCategories w)) = cpplint_state w"
  "cpplint_state (ProcessExtensionsOption val w) = cpplint_state w"
  "cpplint_state (ProcessHppHeadersOption val w) = cpplint_state w"
  by (simp_all add: PrintUsage_def PrintVersion_def PrintCategories_def Let_def ProcessExtensionsOption_def
      ProcessHppHeadersOption_def)

lemma leaves_state_if:
  "cpplint_state (snd p) = s \<Longrightarrow> cpplint_state (snd q) = s \<Longrightarrow> cpplint_state (snd (if b then p else q)) = s"
  by simp

lemma leaves_state_case:
  "(\<And>n. cpplint_state (snd (f n)) = s) \<Longrightarrow> cpplint_state (snd p) = s \<Longrightarrow>
   cpplint_state (snd (case m of None \<Rightarrow> p | Some n \<Rightarrow> f n)) = s"
  by (simp split: option.split)

lemma parse_option_state: "cpplint_state (snd (parse_option h opt val a w)) = cpplint_state w"
  unfolding parse_option_def
  by (intro leaves_state_if leaves_state_case) (simp_all add: leaves_state)

lemma parse_options_state: "cpplint_state (snd (parse_options h opts a w)) = cpplint_state w"
proof (induction opts arbitrary: a w)
  case (Cons p opts)
  obtain opt val where p: "p = (opt, val)" by fastforce
  obtain r v where r: "parse_option h opt val a w = (r, v)" by fastforce
  then have "cpplint_state v = cpplint_state w"
    using parse_option_state [of h opt val a w] by simp
  then show ?case using Cons.IH p r by (simp split: sum.split)
qed simp

lemma apply_arguments_failures:
  "junit_failures (cpplint_state (snd (apply_arguments h a fs w))) = junit_failures (cpplint_state w)"
  by (simp add: apply_arguments_def Let_def SetFilters_def CppLintState_SetFilters_def
      CppLintState_AddFilters_def SetCountingStyle_def CppLintState_SetCountingStyle_def SetVerboseLevel_def
      CppLintState_SetVerboseLevel_def SetQuiet_def CppLintState_SetQuiet_def SetOutputFormat_def
      CppLintState_SetOutputFormat_def split: sum.split prod.split list.split)

lemma ParseArguments_failures:
  "junit_failures (cpplint_state (snd (ParseArguments h args w))) = junit_failures (cpplint_state w)"
proof (cases "getopt long_options args")
  case (Some p)
  obtain opts fs where p: "p = (opts, fs)" by fastforce
  let ?a = "\<lparr>arg_verbosity = VerboseLevel w, arg_output_format = OutputFormat w, arg_filters = [],
    arg_quiet = Quiet w, arg_counting_style = [], arg_recursive = False\<rparr>"
  obtain r v where r: "parse_options h opts ?a w = (r, v)" by fastforce
  then have "cpplint_state v = cpplint_state w"
    using parse_options_state [of h opts ?a w] by simp
  with Some p r show ?thesis
    by (simp add: ParseArguments_def leaves_state apply_arguments_failures split: sum.split)
qed (simp add: ParseArguments_def leaves_state)

lemma PrintInfo_state: "cpplint_state (PrintInfo m w) = cpplint_state w"
  by (simp add: PrintInfo_def)

lemma fold_state:
  "(\<And>x w. cpplint_state (g x w) = cpplint_state w) \<Longrightarrow> cpplint_state (fold g xs w) = cpplint_state w"
  by (induction xs arbitrary: w) auto

lemma PrintErrorCounts_state: "cpplint_state (PrintErrorCounts w) = cpplint_state w"
  by (simp add: PrintErrorCounts_def Let_def PrintInfo_state fold_state split_def)

text \<open>C4: A run of the linter that ends normally exits with failure exactly if errors were counted. The
  categories in the summary are distinct and their counts add up to the number of errors for the
  styles \<open>toplevel\<close> and \<open>detailed\<close>; for \<open>detailed\<close> they are members of \<open>_ERROR_CATEGORIES\<close>, whichever of the
  checks reported them. With the output format \<open>junit\<close> there is one failure for each error, and the
  document is the last output.\<close>

theorem main_result:
  assumes "main h argv w = Some (Inr (status, w'))"
    and "junit_failures (cpplint_state w) = []"
  shows "(status \<longleftrightarrow> errors w' > 0) \<and>
    distinct (map fst (errors_by_category (cpplint_state w'))) \<and>
    (counting (cpplint_state w') \<in> {''toplevel'', ''detailed''} \<longrightarrow>
       sum_list (map snd (errors_by_category (cpplint_state w'))) = errors w') \<and>
    (counting (cpplint_state w') = ''detailed'' \<longrightarrow>
       fst ` set (errors_by_category (cpplint_state w')) \<subseteq> set ERROR_CATEGORIES) \<and>
    (OutputFormat w' = ''junit'' \<longrightarrow>
       errors w' = int (length (junit_failures (cpplint_state w'))) \<and>
       last (stderr w') = FormatJUnitXML (cpplint_state w'))"
proof -
  obtain fs u where u: "ParseArguments h (drop 1 argv) w = (Inr fs, u)"
    using assms(1) by (auto simp: main_def split: prod.splits sum.splits)
  let ?u = "on_state ResetErrorCounts u"
  let ?p = "\<lambda>v. if \<not> quiet (cpplint_state v) \<or> errors v > 0 then PrintErrorCounts v else v"
  let ?j = "\<lambda>v. if output_format (cpplint_state v) = ''junit''
    then v\<lparr>stderr := stderr v @ [FormatJUnitXML (cpplint_state v)]\<rparr> else v"
  have "main h argv w = bind_ro (process_files h fs ?u) (\<lambda>v. ending (Inr (errors (?j (?p v)) > 0, ?j (?p v))))"
    by (simp only: main_def u prod.case sum.case Let_def)
  with assms(1) obtain v where v: "process_files h fs ?u = Some (Inr v)"
    and w': "w' = ?j (?p v)" and status: "status \<longleftrightarrow> errors w' > 0"
    by (auto simp only: bind_ro_Some_iff option.inject sum.inject prod.inject)
  have s: "cpplint_state w' = cpplint_state v"
    "OutputFormat w' = ''junit'' \<longrightarrow> last (stderr w') = FormatJUnitXML (cpplint_state w')"
    by (simp_all add: w' PrintErrorCounts_state OutputFormat_def)
  have "junit_failures (cpplint_state ?u) = []"
    using ParseArguments_failures [of h "drop 1 argv" w] u assms(2) by (simp add: ResetErrorCounts_def)
  then have init: "registered_only (cpplint_state ?u)" "counts_ok (cpplint_state ?u)" "junit_ok (cpplint_state ?u)"
    by (simp_all add: registered_only_def counts_ok_def junit_ok_def ResetErrorCounts_def)
  have "registered_only (cpplint_state w')" "counts_ok (cpplint_state w')" "junit_ok (cpplint_state w')"
    using registered.process_files_keeps [OF init(1) v] counts.process_files_keeps [OF init(2) v]
      junit.process_files_keeps [OF init(3) v] by (simp_all only: s(1))
  with s(2) status show ?thesis
    by (auto simp: registered_only_def counts_ok_def junit_ok_def OutputFormat_def list_all_keys)
qed

text \<open>A host without files, except for those given.\<close>

definition host_with :: "(string \<times> string) list \<Rightarrow> host" where
  "host_with files = \<lparr>h_fs = \<lparr>fs_exists = (\<lambda>p. map_of files p \<noteq> None), fs_cwd = ''/r''\<rparr>,
     h_isfile = (\<lambda>p. map_of files p \<noteq> None), h_open = map_of files, h_codecs_open = map_of files,
     h_stdin = None, h_match = (\<lambda>p s. Inr False), h_enum = (\<lambda>S. []), h_isdir = (\<lambda>p. False),
     h_walk = (\<lambda>p. []), h_glob = (\<lambda>p. [p]), h_version = ''3''\<rparr>"

theorem main_result_witness:
  "\<exists>w'. main (host_with []) [''cpplint.py'', ''--output=junit'', ''--counting=detailed'', ''a.cc''] new_world =
      Some (Inr (False, w')) \<and> OutputFormat w' = ''junit'' \<and> junit_failures (cpplint_state w') = [] \<and>
    last (stderr w') = FormatJUnitXML (cpplint_state w')"
proof -
  let ?p = "main (host_with []) [''cpplint.py'', ''--output=junit'', ''--counting=detailed'', ''a.cc''] new_world"
  have "map_option (map_sum id (\<lambda>(b, w). (b, OutputFormat w))) ?p = Some (Inr (False, ''junit''))"
    by code_simp
  from map_result_SomeD [OF this] obtain w' where p: "?p = Some (Inr (False, w'))" and j: "OutputFormat w' = ''junit''"
    by (elim exE conjE) (simp only: split_paired_all prod.inject prod.case)
  have "junit_failures (cpplint_state new_world) = []" by code_simp
  from main_result [OF p this] j have "junit_failures (cpplint_state w') = []"
    "last (stderr w') = FormatJUnitXML (cpplint_state w')" by auto
  with p j show ?thesis by blast
qed

text \<open>No report touches the backup of the filters or the verbosity.\<close>

definition kept :: "string list \<Rightarrow> int \<Rightarrow> world \<Rightarrow> bool" where
  "kept b v w \<longleftrightarrow> filters_backup (cpplint_state w) = b \<and> VerboseLevel w = v"

lemma kept_simps:
  "kept b v (w\<lparr>error_suppressions := d\<rparr>) = kept b v w"
  "kept b v (w\<lparr>global_error_suppressions := g\<rparr>) = kept b v w"
  "kept b v (PrintInfo m w) = kept b v w"
  "kept b v (PrintError m w) = kept b v w"
  by (simp_all add: kept_def VerboseLevel_def PrintInfo_def PrintError_def)

lemma Error_kept: "kept b v w \<Longrightarrow> Error r w = Inr w' \<Longrightarrow> kept b v w'"
  by (cases r) (auto simp: kept_def VerboseLevel_def AddJUnitFailure_def frame_simps dest!: Error_effect)

interpretation backup: lint_sink filename "kept b v" for filename :: string and b v
  by unfold_locales (auto intro: Error_kept simp: kept_simps)

text \<open>C11: Whichever way \<open>ProcessFile\<close> takes, when it returns the filters are those it was called with:
  what the CPPLINT.cfg files of one file add does not reach the next file. The verbosity is the one
  asked for.\<close>

theorem ProcessFile_restores_filters:
  assumes "ProcessFile h extra filename vlevel w = Some (Inr w')" "good_checks filename extra"
  shows "Filters w' = Filters w \<and> VerboseLevel w' = vlevel"
proof -
  let ?w = "BackupFilters (snd (SetVerboseLevel vlevel w))"
  have w: "kept (Filters w) vlevel ?w"
    by (simp add: kept_def BackupFilters_def SetVerboseLevel_def CppLintState_BackupFilters_def
        CppLintState_SetVerboseLevel_def VerboseLevel_def Filters_def)
  have cfg: "kept (Filters w) vlevel u" if "ProcessConfigOverrides h filename ?w = Inr (k, u)" for k u
    using w cfg_frameD(1,2) [OF ProcessConfigOverrides_frame [OF that]] by (simp add: kept_def VerboseLevel_def)
  have restore: "Filters (RestoreFilters x) = Filters w \<and> VerboseLevel (RestoreFilters x) = vlevel"
    if "kept (Filters w) vlevel x" for x
    using that by (simp add: kept_def RestoreFilters_def CppLintState_RestoreFilters_def VerboseLevel_def Filters_def)
  from assms(1) show ?thesis
    by (cases rule: ProcessFile_ways)
      (auto simp: kept_simps dest!: cfg backup.lint_text_keeps [OF assms(2), rotated] intro!: restore)
qed

theorem ProcessFile_restores_filters_witness:
  "map_sum id (\<lambda>(b, w). Filters w)
      (ProcessConfigOverrides (host_with [(''/r/CPPLINT.cfg'', ''filter=-build'')]) ''a.cc'' new_world) =
      Inr [''-build/include_alpha'', ''-build''] \<and>
    (\<exists>w'. ProcessFile (host_with [(''/r/CPPLINT.cfg'', ''filter=-build'')]) [] ''a.cc'' 3 new_world = Some (Inr w') \<and>
       Filters w' = Filters new_world \<and> VerboseLevel w' = 3)"
proof
  let ?h = "host_with [(''/r/CPPLINT.cfg'', ''filter=-build'')]"
  show "map_sum id (\<lambda>(b, w). Filters w) (ProcessConfigOverrides ?h ''a.cc'' new_world) =
      Inr [''-build/include_alpha'', ''-build'']"
    by code_simp
  have "map_option (map_sum id (\<lambda>w. ())) (ProcessFile ?h [] ''a.cc'' 3 new_world) = Some (Inr ())"
    by code_simp
  from map_result_SomeD [OF this] obtain w' where p: "ProcessFile ?h [] ''a.cc'' 3 new_world = Some (Inr w')"
    by blast
  moreover have "good_checks ''a.cc'' []" by (simp add: good_checks_def)
  ultimately show "\<exists>w'. ProcessFile ?h [] ''a.cc'' 3 new_world = Some (Inr w') \<and>
       Filters w' = Filters new_world \<and> VerboseLevel w' = 3"
    using ProcessFile_restores_filters [OF p] by blast
qed

section \<open>Which configuration file wins\<close>

text \<open>Filters of a nested configuration file come after those of the directories above, so they win. For
  the line length it is the other way round: the files are read from the inside out and the option
  of the outermost file is the last one set, although a nested file is documented to override it.\<close>

lemma nested_filters_win:
  "map_sum id (\<lambda>(b, w). Filters w)
     (ProcessConfigOverrides (host_with [(''/r/CPPLINT.cfg'', ''filter=-build''),
        (''/r/a/CPPLINT.cfg'', ''filter=+build/include'')]) ''a/x.cc'' new_world) =
   Inr [''-build/include_alpha'', ''-build'', ''+build/include'']"
  by code_simp

lemma outer_linelength_wins:
  "map_sum id (\<lambda>(b, w). line_length w)
     (ProcessConfigOverrides (host_with [(''/r/CPPLINT.cfg'', ''linelength=100''),
        (''/r/a/CPPLINT.cfg'', ''linelength=120'')]) ''a/x.cc'' new_world) = Inr 100"
  by code_simp

end
