(* ===== verification/Spec2Isabelle.thy ===== *)
theory Spec2Isabelle
  imports Nolint Function_State Nesting_Laws Line_Laws Guard_Laws Include_Use_Laws Driver_Laws File_Laws
begin

text \<open>
  A verification development for \<^emph>\<open>cpplint\<close>, the C++ style checker that Turtle runs over its sources
  (\<open>build_support/cpplint.py\<close>). The whole program is modelled, from the command line to the last check of a
  line, as executable functions of HOL; the theorems state what its parts guarantee.

  \<^bold>\<open>How the program works.\<close> \<open>main\<close> parses the command line, resets the error counts and calls \<open>ProcessFile\<close> for
  every file. \<open>ProcessFile\<close> reads the CPPLINT.cfg files above the file (\<open>ProcessConfigOverrides\<close>), then the
  file, and passes its lines to \<open>ProcessFileData\<close>. That function removes comments and strings
  (\<open>RemoveMultiLineComments\<close>, \<open>CleansedLines\<close>), runs the checks that look at the whole file, and calls
  \<open>ProcessLine\<close> for each line, which tracks the nesting of namespaces, classes and blocks
  (\<open>NestingState\<close>), the length of functions (\<open>_FunctionState\<close>) and the includes (\<open>_IncludeState\<close>), and runs
  all checks of a line. A check reports through \<open>Error\<close>, which filters by verbosity, filters and NOLINT
  comments, counts, and prints.

  \<^bold>\<open>How it is modelled.\<close> The module variables and the object \<open>_cpplint_state\<close> are the record \<open>world\<close>, passed
  and returned by what changes them; \<open>sys.stdout\<close> and \<open>sys.stderr\<close> are lists of the texts written. A check is
  a function of the file name, the cleansed lines, a line number and the state it reads; it returns its
  reports, and \<open>emit\<close> passes them to the error function, a parameter, in order. (When a check raises after it
  has reported, those reports are not part of the result.) Exceptions are the left side of \<open>'a res\<close>; what may
  fail to end returns an \<open>option\<close>, with \<open>None\<close> for a run without an end. Loops are recursive functions with a
  termination proof, except the climb through an SVN checkout in \<open>FileInfo.RepositoryName\<close>, which is a
  \<open>partial_function\<close> since it need not end; the repetition of the pattern matcher has fuel, and
  \<open>Py_Match\<close> proves that the fuel given is always enough. Objects that the program shares and mutates, the
  blocks on the nesting stack, are values, with a reference by position where the code keeps an alias
  (\<open>previous_stack_top\<close>). The operating system, the order in which Python iterates over a set, and the
  \<open>exclude_files\<close> patterns of users are parameters (the records \<open>fs\<close> and \<open>host\<close>).

  \<^bold>\<open>The theories\<close>, each with the part of \<open>cpplint.py\<close> it models:
  \<^item> \<open>Py_Prelude\<close>: exceptions, strings, lists of Python. \<open>Py_Regex\<close> parses the patterns of module \<open>re\<close> that
    the program uses, \<open>Py_Match\<close> is the backtracking matcher: all matches in the order the engine tries
    them, with \<open>match\<close>, \<open>search\<close>, \<open>sub\<close>, \<open>finditer\<close>, \<open>split\<close>. A pattern in the model is the text of the
    pattern in the code, with a grave accent for the backslash.
  \<^item> \<open>Lint_State\<close>: the error categories, \<open>_CppLintState\<close> and the functions around it, file extensions,
    \<open>ParseNolintSuppressions\<close>, \<open>_ShouldPrintError\<close>, \<open>Error\<close>. The locale \<open>reporter\<close> is the contract of an
    error function that never raises and counts what it shows. \<open>Nolint\<close>: what NOLINT comments suppress.
  \<^item> \<open>Include_State\<close>: \<open>_IncludeState\<close>; the accepted orders of includes are a regular language.
    \<open>Function_State\<close>: \<open>_FunctionState\<close>, with the logarithm that gives the confidence of a report.
  \<^item> \<open>Cleanse\<close>, \<open>Cleanse_Laws\<close>: raw strings, comments, \<open>CleansedLines\<close>, against recursive references.
  \<^item> \<open>Expression\<close>, \<open>Expression_Laws\<close>: \<open>CloseExpression\<close> and \<open>ReverseCloseExpression\<close> over several lines,
    against balanced bracket structure.
  \<^item> \<open>File_Path\<close>: \<open>os.path\<close> as on POSIX, \<open>FileInfo\<close>, header guard names.
  \<^item> \<open>Nesting\<close>, \<open>Nesting_Laws\<close>: the block classes and \<open>NestingState\<close>, invariants and termination of
    \<open>Update\<close>.
  \<^item> \<open>File_Checks\<close>, \<open>Line_Checks\<close>, \<open>Spacing_Checks\<close>, \<open>Style_Checks\<close>, \<open>Include_Checks\<close>, \<open>Language_Checks\<close>: the
    checks, from \<open>CheckForCopyright\<close> to \<open>FlagCxx14Features\<close>. \<open>Process_Line\<close>: \<open>ProcessLine\<close> and the loop over
    the lines.
  \<^item> \<open>Include_Use\<close>: include what you use, \<open>CheckHeaderFileIncluded\<close>. \<open>Process_File\<close>: \<open>ProcessFileData\<close>,
    \<open>ProcessConfigOverrides\<close>, \<open>ProcessFile\<close>. \<open>Driver\<close>: the usage text, \<open>ParseArguments\<close>, the JUnit document,
    \<open>main\<close>.
  \<^item> \<open>Check_Laws\<close>: every report of every check is in a registered category; the locale \<open>good_sink\<close> carries
    a property of the state through \<open>ProcessLine\<close>. \<open>File_Laws\<close> extends it to \<open>ProcessFileData\<close> (\<open>file_sink\<close>),
    \<open>ProcessFile\<close> (\<open>lint_sink\<close>) and \<open>main\<close> (\<open>lint_invariant\<close>), and interprets it for the counts, the
    categories, the JUnit failures and the backup of the filters. \<open>Line_Laws\<close>, \<open>Guard_Laws\<close>,
    \<open>Include_Use_Laws\<close>, \<open>Driver_Laws\<close>: properties of single checks and of the command line.

  \<^bold>\<open>What is shown.\<close> Reporting: the last matching filter decides, reports are counted,
  counts add up, filters are restored after each file, a run fails exactly if errors were counted. Text:
  comment removal and string collapsing equal their references; no constructor of the line lists raises; the
  bracket searches return exactly the matching bracket, across lines and back, and none exactly if there is
  none. Nesting: \<open>Update\<close> runs to the end of every file, keeps the state well formed, follows
  the braces and restores it over preprocessor branches. Includes and guards: the include order automaton
  accepts its grammar, missing standard headers are exactly those used and not included, the guard check is
  characterized on guarded headers. Paths: names below a checkout, and exactly when that search runs
  forever. Errors: the exceptions of the option parser and of the argument splitter are characterized.

  \<^bold>\<open>Limits.\<close> Characters are the code points up to 255; a line with others is outside the model, and the test for
  U+FFFD, which fails on all modelled characters, is left out. \<open>str.upper\<close> is that of ASCII, the only letters
  it is applied to. The output under the constant \<open>_root_debug\<close>, which is false, and the exchange of
  \<open>sys.stderr\<close> in \<open>main\<close> are left out, as is the limit on the digits of a number that newer versions of
  Python have. \<open>tostring\<close> of \<open>xml.etree\<close> is that of Python 3.9 and later.

  \<^bold>\<open>Not modelled.\<close> \<open>run_clang_format.py\<close>, \<open>run_clang_tidy.py\<close> and \<open>run_clang_tidy_extra.py\<close>, which start
  clang tools in subprocesses and threads and compare their output; and the server itself, which is C++.

  \<^bold>\<open>To do.\<close> That no check raises on any line but for the two places in \<open>Line_Laws\<close>; the order of options from
  nested configuration files in general; the parts of the clang scripts that do not depend on the tools.
\<close>

end
